(* ===== verification/SL_Prelude.thy ===== *)
theory SL_Prelude
  imports Main "HOL-Library.Word" "HOL-Library.AList"
begin

text \<open>
  Shared vocabulary of the development: machine integers, the results of fallible Rust code,
  the sequencing of fallible operations on a mutable state, and the weakest-precondition
  calculus in which the component proofs are carried out.

  A Rust method \<^verbatim>\<open>fn m(&mut self, ..) -> Result<T, E>\<close> is a function
  \<open>'s \<Rightarrow> ('e + 'a) \<times> 's\<close>: the state is returned on both outcomes, because changes made
  before an early return stay in place.  The question-mark operator is \<open>and_then\<close>.
\<close>

unbundle bit_operations_syntax

type_synonym u8 = "8 word"
type_synonym u16 = "16 word"
type_synonym u32 = "32 word"
type_synonym u64 = "64 word"
type_synonym u128 = "128 word"

named_theorems wp_simps \<open>weakest preconditions of the operations\<close>
named_theorems preserve_intros \<open>operations that preserve a predicate on their state\<close>
named_theorems inv_defs \<open>definitions of the component invariants\<close>

section \<open>Saturating arithmetic\<close>

definition saturating_add :: "'a::len word \<Rightarrow> 'a word \<Rightarrow> 'a word" where
  "saturating_add a b = (if unat a + unat b < 2 ^ LENGTH('a) then a + b else - 1)"

definition saturating_sub :: "'a::len word \<Rightarrow> 'a word \<Rightarrow> 'a word" where
  "saturating_sub a b = (if a < b then 0 else a - b)"

section \<open>Sequencing of fallible operations\<close>

type_synonym ('s, 'e, 'a) op = "'s \<Rightarrow> ('e + 'a) \<times> 's"

definition ok :: "'a \<Rightarrow> ('s, 'e, 'a) op" where
  "ok x s = (Inr x, s)"

definition err :: "'e \<Rightarrow> ('s, 'e, 'a) op" where
  "err e s = (Inl e, s)"

definition and_then :: "('s, 'e, 'a) op \<Rightarrow> ('a \<Rightarrow> ('s, 'e, 'b) op) \<Rightarrow> ('s, 'e, 'b) op" where
  "and_then m f s = (case m s of (Inl e, s') \<Rightarrow> (Inl e, s') | (Inr x, s') \<Rightarrow> f x s')"

text \<open>A pure result, the current state, an update of the state, and the outcome of an operation
  as a value (for \<^verbatim>\<open>let _ = ..\<close> and \<^verbatim>\<open>if x.is_err()\<close>).\<close>

definition lift_res :: "'e + 'a \<Rightarrow> ('s, 'e, 'a) op" where
  "lift_res r s = (r, s)"

definition get_st :: "('s, 'e, 's) op" where
  "get_st s = (Inr s, s)"

definition modify :: "('s \<Rightarrow> 's) \<Rightarrow> ('s, 'e, unit) op" where
  "modify f s = (Inr (), f s)"

definition attempt :: "('s, 'e, 'a) op \<Rightarrow> ('s, 'd, 'e + 'a) op" where
  "attempt m s = (case m s of (r, s') \<Rightarrow> (Inr r, s'))"

definition map_err :: "('e \<Rightarrow> 'd) \<Rightarrow> ('s, 'e, 'a) op \<Rightarrow> ('s, 'd, 'a) op" where
  "map_err g m s = (case m s of (Inl e, s') \<Rightarrow> (Inl (g e), s') | (Inr x, s') \<Rightarrow> (Inr x, s'))"

text \<open>An operation on a component of the state.\<close>

definition on_part :: "('s \<Rightarrow> 't) \<Rightarrow> ('t \<Rightarrow> 's \<Rightarrow> 's) \<Rightarrow> ('t, 'e, 'a) op \<Rightarrow> ('s, 'e, 'a) op" where
  "on_part get put m s = (case m (get s) of (r, t) \<Rightarrow> (r, put t s))"

definition ok_or :: "'e \<Rightarrow> 'a option \<Rightarrow> 'e + 'a" where
  "ok_or e o' = (case o' of None \<Rightarrow> Inl e | Some x \<Rightarrow> Inr x)"

definition is_ok :: "'e + 'a \<Rightarrow> bool" where
  "is_ok r = (case r of Inl _ \<Rightarrow> False | Inr _ \<Rightarrow> True)"

section \<open>Strings\<close>

text \<open>A Rust string is its UTF-8 byte sequence; a \<open>char\<close> is one byte.  Code points are counted
  by the bytes that are not continuation bytes (\<open>10xxxxxx\<close>).\<close>

definition is_continuation :: "char \<Rightarrow> bool" where
  "is_continuation c \<longleftrightarrow> of_char c div 64 = (2::nat)"

definition chars_count :: "string \<Rightarrow> nat" where
  "chars_count s = length (filter (\<lambda>c. \<not> is_continuation c) s)"

definition to_ascii_uppercase_char :: "char \<Rightarrow> char" where
  "to_ascii_uppercase_char c =
     (let n = (of_char c :: nat) in if 97 \<le> n \<and> n \<le> 122 then char_of (n - 32) else c)"

definition to_ascii_uppercase :: "string \<Rightarrow> string" where
  "to_ascii_uppercase s = map to_ascii_uppercase_char s"

definition to_ascii_lowercase_char :: "char \<Rightarrow> char" where
  "to_ascii_lowercase_char c =
     (let n = (of_char c :: nat) in if 65 \<le> n \<and> n \<le> 90 then char_of (n + 32) else c)"

definition to_ascii_lowercase :: "string \<Rightarrow> string" where
  "to_ascii_lowercase s = map to_ascii_lowercase_char s"

definition is_ascii_digit :: "char \<Rightarrow> bool" where
  "is_ascii_digit c \<longleftrightarrow> (let n = (of_char c :: nat) in 48 \<le> n \<and> n \<le> 57)"

definition is_lower_hex :: "char \<Rightarrow> bool" where
  "is_lower_hex c \<longleftrightarrow> is_ascii_digit c \<or> (let n = (of_char c :: nat) in 97 \<le> n \<and> n \<le> 102)"

definition is_upper_hex :: "char \<Rightarrow> bool" where
  "is_upper_hex c \<longleftrightarrow> is_ascii_digit c \<or> (let n = (of_char c :: nat) in 65 \<le> n \<and> n \<le> 70)"

definition strip_prefix :: "string \<Rightarrow> string \<Rightarrow> string option" where
  "strip_prefix p s = (if take (length p) s = p then Some (drop (length p) s) else None)"

definition strip_suffix :: "string \<Rightarrow> string \<Rightarrow> string option" where
  "strip_suffix p s = map_option rev (strip_prefix (rev p) (rev s))"

fun split_once :: "char \<Rightarrow> string \<Rightarrow> (string \<times> string) option" where
  "split_once d [] = None"
| "split_once d (c # cs) =
     (if c = d then Some ([], cs)
      else map_option (\<lambda>(l, r). (c # l, r)) (split_once d cs))"

text \<open>The index of the first element with a property (\<^verbatim>\<open>Iterator::position\<close>).\<close>

fun position :: "('a \<Rightarrow> bool) \<Rightarrow> 'a list \<Rightarrow> nat option" where
  "position p [] = None"
| "position p (x # xs) = (if p x then Some 0 else map_option Suc (position p xs))"

text \<open>The two lower-case hexadecimal digits of a byte, as \<^verbatim>\<open>{byte:02x}\<close> prints them.\<close>

definition hex_digit :: "nat \<Rightarrow> char" where
  "hex_digit n = (if n < 10 then char_of (48 + n) else char_of (87 + n))"

definition hex_byte :: "u8 \<Rightarrow> string" where
  "hex_byte b = [hex_digit (unat b div 16), hex_digit (unat b mod 16)]"

definition hex_string :: "u8 list \<Rightarrow> string" where
  "hex_string bs = concat (map hex_byte bs)"

text \<open>Decimal digits, as \<^verbatim>\<open>Display\<close> prints an unsigned integer.\<close>

fun decimal :: "nat \<Rightarrow> string" where
  "decimal n = (if n < 10 then [char_of (48 + n)] else decimal (n div 10) @ [char_of (48 + n mod 10)])"

declare decimal.simps [simp del]

section \<open>Weakest preconditions\<close>

text \<open>\<open>wp m Q E s\<close>: from \<open>s\<close>, the operation ends in \<open>Q\<close> if it succeeds and in \<open>E\<close> if it fails.
  All operations are total, so this is total correctness.\<close>

definition wp :: "('s, 'e, 'a) op \<Rightarrow> ('a \<Rightarrow> 's \<Rightarrow> bool) \<Rightarrow> ('e \<Rightarrow> 's \<Rightarrow> bool) \<Rightarrow> 's \<Rightarrow> bool" where
  "wp m Q E s = (case m s of (Inl e, s') \<Rightarrow> E e s' | (Inr x, s') \<Rightarrow> Q x s')"

definition preserves :: "('s \<Rightarrow> bool) \<Rightarrow> ('s, 'e, 'a) op \<Rightarrow> bool" where
  "preserves I m \<longleftrightarrow> (\<forall>s. I s \<longrightarrow> I (snd (m s)))"

lemma wp_ok [wp_simps]: "wp (ok x) Q E s = Q x s"
  by (simp add: wp_def ok_def)

lemma wp_err [wp_simps]: "wp (err e) Q E s = E e s"
  by (simp add: wp_def err_def)

lemma wp_and_then [wp_simps]: "wp (and_then m f) Q E s = wp m (\<lambda>x. wp (f x) Q E) E s"
  by (simp add: wp_def and_then_def split: prod.splits sum.splits)

lemma wp_lift_res [wp_simps]:
  "wp (lift_res r) Q E s = (case r of Inl e \<Rightarrow> E e s | Inr x \<Rightarrow> Q x s)"
  by (simp add: wp_def lift_res_def)

lemma wp_get_st [wp_simps]: "wp get_st Q E s = Q s s"
  by (simp add: wp_def get_st_def)

lemma wp_modify [wp_simps]: "wp (modify f) Q E s = Q () (f s)"
  by (simp add: wp_def modify_def)

lemma wp_attempt [wp_simps]:
  "wp (attempt m) Q E s = wp m (\<lambda>x. Q (Inr x)) (\<lambda>e. Q (Inl e)) s"
  by (simp add: wp_def attempt_def split: prod.splits sum.splits)

lemma wp_map_err [wp_simps]: "wp (map_err g m) Q E s = wp m Q (\<lambda>e. E (g e)) s"
  by (simp add: wp_def map_err_def split: prod.splits sum.splits)

lemma wp_on_part [wp_simps]:
  "wp (on_part get put m) Q E s = wp m (\<lambda>x t. Q x (put t s)) (\<lambda>e t. E e (put t s)) (get s)"
  by (simp add: wp_def on_part_def split: prod.splits sum.splits)

lemma wp_if [wp_simps]: "wp (if b then m else n) Q E s = (if b then wp m Q E s else wp n Q E s)"
  by simp

lemma wp_let [wp_simps]: "wp (let x = v in f x) Q E s = wp (f v) Q E s"
  by simp

lemma wp_case_option [wp_simps]:
  "wp (case v of None \<Rightarrow> m | Some x \<Rightarrow> f x) Q E s =
     (case v of None \<Rightarrow> wp m Q E s | Some x \<Rightarrow> wp (f x) Q E s)"
  by (simp split: option.splits)

lemma wp_case_sum [wp_simps]:
  "wp (case v of Inl e \<Rightarrow> m e | Inr x \<Rightarrow> f x) Q E s =
     (case v of Inl e \<Rightarrow> wp (m e) Q E s | Inr x \<Rightarrow> wp (f x) Q E s)"
  by (simp split: sum.splits)

lemma wp_case_prod [wp_simps]:
  "wp (case v of (a, b) \<Rightarrow> f a b) Q E s = (case v of (a, b) \<Rightarrow> wp (f a b) Q E s)"
  by (simp split: prod.splits)

text \<open>The same below a binder, where the state is not yet applied.\<close>

lemma wp_and_then_fun: "wp (and_then m f) Q E = wp m (\<lambda>x. wp (f x) Q E) E"
  by (simp add: fun_eq_iff wp_and_then)

lemma wp_attempt_fun: "wp (attempt m) Q E = wp m (\<lambda>x. Q (Inr x)) (\<lambda>e. Q (Inl e))"
  by (simp add: fun_eq_iff wp_attempt)

lemma wp_map_err_fun: "wp (map_err g m) Q E = wp m Q (\<lambda>e. E (g e))"
  by (simp add: fun_eq_iff wp_map_err)

lemma wp_modify_fun: "wp (modify f) Q E = (\<lambda>s. Q () (f s))"
  by (simp add: fun_eq_iff wp_modify)

lemmas wp_fun = wp_and_then_fun wp_attempt_fun wp_map_err_fun wp_modify_fun

lemma wp_mono:
  assumes "wp m Q E s"
    and "\<And>x s'. m s = (Inr x, s') \<Longrightarrow> Q x s' \<Longrightarrow> Q' x s'"
    and "\<And>e s'. m s = (Inl e, s') \<Longrightarrow> E e s' \<Longrightarrow> E' e s'"
  shows "wp m Q' E' s"
  using assms by (auto simp: wp_def split: prod.splits sum.splits)

lemma wp_weaken:
  assumes "wp m Q E s" and "\<And>x s'. Q x s' \<Longrightarrow> Q' x s'" and "\<And>e s'. E e s' \<Longrightarrow> E' e s'"
  shows "wp m Q' E' s"
  using wp_mono assms by metis

lemma wp_bind:
  assumes "wp m P F s" and "\<And>x s'. P x s' \<Longrightarrow> wp (f x) Q E s'" and "\<And>e s'. F e s' \<Longrightarrow> E e s'"
  shows "wp (and_then m f) Q E s"
  unfolding wp_and_then by (rule wp_weaken [OF assms(1)]) (simp_all add: assms(2,3))

lemma wp_conj: "wp m Q E s \<Longrightarrow> wp m Q' E' s \<Longrightarrow>
    wp m (\<lambda>x s. Q x s \<and> Q' x s) (\<lambda>e s. E e s \<and> E' e s) s"
  by (auto simp: wp_def split: prod.splits sum.splits)

text \<open>Reading a fact about a run off a weakest precondition, and back.\<close>

lemma wp_run: "wp m Q E s \<longleftrightarrow>
    (\<forall>x s'. m s = (Inr x, s') \<longrightarrow> Q x s') \<and> (\<forall>e s'. m s = (Inl e, s') \<longrightarrow> E e s')"
  by (auto simp: wp_def split: prod.splits sum.splits)

lemma wp_Inr: "wp m Q E s \<Longrightarrow> m s = (Inr x, s') \<Longrightarrow> Q x s'"
  by (simp add: wp_def)

lemma wp_Inl: "wp m Q E s \<Longrightarrow> m s = (Inl e, s') \<Longrightarrow> E e s'"
  by (simp add: wp_def)

lemma wp_post: "wp m (\<lambda>_. I) (\<lambda>_. I) s \<longleftrightarrow> I (snd (m s))"
  by (auto simp: wp_def split: prod.splits sum.splits)

lemma preserves_wp: "preserves I m \<longleftrightarrow> (\<forall>s. I s \<longrightarrow> wp m (\<lambda>_. I) (\<lambda>_. I) s)"
  by (simp add: preserves_def wp_post)

lemma preservesI: "(\<And>s. I s \<Longrightarrow> wp m (\<lambda>_. I) (\<lambda>_. I) s) \<Longrightarrow> preserves I m"
  by (simp add: preserves_wp)

lemma preservesD: "preserves I m \<Longrightarrow> I s \<Longrightarrow> wp m (\<lambda>_. I) (\<lambda>_. I) s"
  by (simp add: preserves_wp)

lemma preserves_and_then:
  "preserves I m \<Longrightarrow> (\<And>x. preserves I (f x)) \<Longrightarrow> preserves I (and_then m f)"
  by (fastforce simp: preserves_def and_then_def split: prod.splits sum.splits)

text \<open>Preservation goes through the combinators.\<close>

lemma preserves_ok [preserve_intros]: "preserves I (ok x)"
  by (simp add: preserves_def ok_def)

lemma preserves_err [preserve_intros]: "preserves I (err e)"
  by (simp add: preserves_def err_def)

lemma preserves_lift_res [preserve_intros]: "preserves I (lift_res r)"
  by (simp add: preserves_def lift_res_def)

lemma preserves_attempt [preserve_intros]: "preserves I m \<Longrightarrow> preserves I (attempt m)"
  by (simp add: preserves_def attempt_def split: prod.splits) (metis snd_conv)

lemma preserves_map_err [preserve_intros]: "preserves I m \<Longrightarrow> preserves I (map_err f m)"
  by (simp add: preserves_def map_err_def split: prod.splits sum.splits) (metis snd_conv)

lemma preserves_if [preserve_intros]:
  "(b \<Longrightarrow> preserves I m) \<Longrightarrow> (\<not> b \<Longrightarrow> preserves I n) \<Longrightarrow> preserves I (if b then m else n)"
  by simp

lemma preserves_let [preserve_intros]: "preserves I (f v) \<Longrightarrow> preserves I (let x = v in f x)"
  by simp

lemma preserves_case_option [preserve_intros]:
  "preserves I m \<Longrightarrow> (\<And>x. preserves I (f x)) \<Longrightarrow> preserves I (case v of None \<Rightarrow> m | Some x \<Rightarrow> f x)"
  by (simp split: option.splits)

lemma preserves_case_sum [preserve_intros]:
  "(\<And>x. preserves I (f x)) \<Longrightarrow> (\<And>x. preserves I (g x)) \<Longrightarrow> preserves I (case v of Inl x \<Rightarrow> f x | Inr x \<Rightarrow> g x)"
  by (simp split: sum.splits)

declare preserves_and_then [preserve_intros]

text \<open>Adding a preserved predicate to what is known of a run.\<close>

lemma wp_preserves:
  assumes "preserves I m" "I s" "wp m Q E s"
  shows "wp m (\<lambda>x t. I t \<and> Q x t) (\<lambda>e t. I t \<and> E e t) s"
  using wp_conj [OF preservesD [OF assms(1,2)] assms(3)] .

lemma wp_keep:
  assumes "preserves I m" "I s" "wp m Q E s"
    and "\<And>x t. I t \<Longrightarrow> Q x t \<Longrightarrow> Q' x t" "\<And>e t. I t \<Longrightarrow> E e t \<Longrightarrow> E' e t"
  shows "wp m Q' E' s"
  using wp_preserves [OF assms(1-3)] by (rule wp_weaken) (simp_all add: assms(4,5))

lemma ok_or_simps [simp]: "ok_or e None = Inl e" "ok_or e (Some x) = Inr x"
  by (simp_all add: ok_or_def)

lemma case_ok_or [simp]:
  "(case ok_or e v of Inl x \<Rightarrow> f x | Inr y \<Rightarrow> g y) = (case v of None \<Rightarrow> f e | Some y \<Rightarrow> g y)"
  by (simp add: ok_or_def split: option.splits)

lemma is_ok_simps [simp]: "is_ok (Inr x)" "\<not> is_ok (Inl e)"
  by (simp_all add: is_ok_def)

section \<open>Facts on association lists\<close>

lemma map_of_update [simp]: "map_of (AList.update k v al) = (map_of al)(k \<mapsto> v)"
  by (rule update_conv')

lemma map_of_delete [simp]: "map_of (AList.delete k al) = (map_of al)(k := None)"
  by (rule delete_conv')

lemma delete_present:
  assumes "distinct (map fst t)" "(k, v) \<in> set t"
  shows "length (AList.delete k t) = length t - 1"
    and "e \<in> set t \<Longrightarrow> e \<notin> set (AList.delete k t) \<Longrightarrow> e = (k, v)"
proof -
  have "k \<in> fst ` set t \<Longrightarrow> length (AList.delete k t) = length t - 1"
    using assms(1)
  proof (induction t)
    case (Cons e t)
    show ?case
    proof (cases "fst e = k")
      case False
      then have "length (AList.delete k t) = length t - 1" "t \<noteq> []" using Cons by auto
      then show ?thesis using False by (cases t) simp_all
    qed (use Cons.prems in simp)
  qed simp
  then show "length (AList.delete k t) = length t - 1" using assms(2) by force
  show "e \<in> set t \<Longrightarrow> e \<notin> set (AList.delete k t) \<Longrightarrow> e = (k, v)"
    using assms by (cases e) (auto simp: AList.delete_eq eq_key_imp_eq_value)
qed

lemma set_delete_subset: "set (AList.delete k t) \<subseteq> set t"
  by (auto simp: AList.delete_eq)

lemma length_update_le: "length (AList.update k v t) \<le> Suc (length t)"
  by (induction t) auto

lemma length_update_present: "k \<in> fst ` set t \<Longrightarrow> length (AList.update k v t) = length t"
  by (induction t) auto

lemma set_update_subset: "set (AList.update k v t) \<subseteq> insert (k, v) (set t)"
  by (induction t) auto

section \<open>Facts on words, bytes and strings\<close>

lemma unat_saturating_add:
  "unat (saturating_add a b) = min (unat a + unat b) (2 ^ LENGTH('a) - 1)"
  for a b :: "'a::len word"
proof (cases "unat a + unat b < 2 ^ LENGTH('a)")
  case True
  then show ?thesis by (simp add: saturating_add_def unat_word_ariths)
next
  case False
  then show ?thesis by (simp add: saturating_add_def unsigned_minus_1_eq_mask mask_eq_exp_minus_1)
qed

lemma unat_saturating_sub: "unat (saturating_sub a b) = unat a - unat b"
  for a b :: "'a::len word"
  by (simp add: saturating_sub_def word_less_nat_alt unat_sub_if')

lemma of_char_lt_256: "of_char c < (256::nat)"
  using of_char_mod_256 [of c, where ?'a = nat] mod_less_divisor [of 256 "of_char c"] by linarith

lemma unat_u8_lt: "unat (b :: u8) < 256"
  using unsigned_less [of b] by simp

lemma strip_prefix_Some: "strip_prefix p s = Some t \<longleftrightarrow> s = p @ t"
  unfolding strip_prefix_def
  by (metis (no_types, lifting) append_eq_conv_conj append_take_drop_id option.distinct(1) option.inject)

lemma strip_prefix_append [simp]: "strip_prefix p (p @ t) = Some t"
  by (simp add: strip_prefix_Some)

lemma strip_suffix_Some: "strip_suffix p s = Some t \<longleftrightarrow> s = t @ p"
proof -
  have "strip_suffix p s = Some t \<longleftrightarrow> strip_prefix (rev p) (rev s) = Some (rev t)"
    by (auto simp: strip_suffix_def)
  also have "\<dots> \<longleftrightarrow> rev s = rev (t @ p)" by (simp add: strip_prefix_Some)
  finally show ?thesis by (simp only: rev_is_rev_conv)
qed

lemma split_once_Some:
  "split_once d s = Some (l, r) \<longleftrightarrow> s = l @ d # r \<and> d \<notin> set l"
proof (induction s arbitrary: l)
  case Nil
  show ?case by simp
next
  case (Cons c s)
  show ?case
  proof (cases l)
    case Nil
    then show ?thesis by auto
  next
    case (Cons c' l')
    then show ?thesis using Cons.IH [of l'] by auto
  qed
qed

lemma position_Some:
  "position p xs = Some i \<Longrightarrow> i < length xs \<and> p (xs ! i)"
  by (induction xs arbitrary: i) (auto split: if_splits)

lemma position_nth:
  "distinct xs \<Longrightarrow> i < length xs \<Longrightarrow> position (\<lambda>y. y = xs ! i) xs = Some i"
proof (induction xs arbitrary: i)
  case Nil
  then show ?case by simp
next
  case (Cons x xs)
  then show ?case by (cases i) auto
qed

lemma length_hex_string [simp]: "length (hex_string bs) = 2 * length bs"
  by (induction bs) (simp_all add: hex_string_def hex_byte_def)

lemma is_lower_hex_hex_digit: "n < 16 \<Longrightarrow> is_lower_hex (hex_digit n)"
  by (auto simp: hex_digit_def is_lower_hex_def is_ascii_digit_def)

lemma hex_string_lower_hex: "list_all is_lower_hex (hex_string bs)"
proof (induction bs)
  case Nil
  show ?case by (simp add: hex_string_def)
next
  case (Cons b bs)
  have "unat b < 256" by (rule unat_u8_lt)
  then have "unat b div 16 < 16" and "unat b mod 16 < 16" by simp_all
  with Cons.IH show ?case
    by (simp add: hex_string_def hex_byte_def is_lower_hex_hex_digit)
qed

lemma hex_digit_inj: "m < 16 \<Longrightarrow> n < 16 \<Longrightarrow> hex_digit m = hex_digit n \<longleftrightarrow> m = n"
  by (auto simp: hex_digit_def char_of_eq_iff take_bit_eq_mod split: if_splits)

lemma hex_string_inj: "hex_string as = hex_string bs \<longleftrightarrow> as = bs"
proof (induction as arbitrary: bs)
  case Nil
  then show ?case by (cases bs) (simp_all add: hex_string_def hex_byte_def)
next
  case (Cons a as)
  show ?case
  proof (cases bs)
    case Nil
    then show ?thesis by (simp add: hex_string_def hex_byte_def)
  next
    case (Cons b bs')
    have lt: "unat a < 256" "unat b < 256" by (rule unat_u8_lt)+
    then have "unat a div 16 < 16" "unat b div 16 < 16" by simp_all
    then have "hex_byte a = hex_byte b \<longleftrightarrow>
        unat a div 16 = unat b div 16 \<and> unat a mod 16 = unat b mod 16"
      by (simp add: hex_byte_def hex_digit_inj)
    also have "\<dots> \<longleftrightarrow> unat a = unat b"
      by (metis div_mult_mod_eq)
    also have "\<dots> \<longleftrightarrow> a = b" by (simp add: word_unat_eq_iff)
    finally have "hex_byte a = hex_byte b \<longleftrightarrow> a = b" .
    moreover have "hex_string (a # as) = hex_string bs \<longleftrightarrow>
        hex_byte a = hex_byte b \<and> hex_string as = hex_string bs'"
      by (simp add: hex_string_def hex_byte_def Cons)
    ultimately show ?thesis using Cons.IH \<open>bs = b # bs'\<close> by auto
  qed
qed

end
