(* ===== verification/Kernel_Random.thy ===== *)
theory Kernel_Random
  imports SL_Prelude
begin

text \<open>
  The random sources: \<^verbatim>\<open>fill_with\<close> and \<^verbatim>\<open>KernelRandom\<close> of \<^verbatim>\<open>src/authd/src/random.rs\<close>, and the loops of
  \<^verbatim>\<open>src/remoted/src/sessions.rs\<close> and \<^verbatim>\<open>src/remote-worker/src/main.rs\<close>.  The closure \<^verbatim>\<open>call\<close> is a parameter: its
  \<open>i\<close>-th call sees the unfilled part of the buffer, returns a count or an errno, and leaves contents in
  that part.  The loop retries on \<^verbatim>\<open>EINTR\<close> without bound, so it is a \<^verbatim>\<open>partial_function\<close>: \<open>None\<close> is a loop
  that never returns.
\<close>

datatype random_unavailable = RandomUnavailable

definition EINTR :: int where "EINTR = 4"

type_synonym getrandom = "nat \<Rightarrow> u8 list \<Rightarrow> (int + nat) \<times> (nat \<Rightarrow> u8)"

definition written :: "u8 list \<Rightarrow> nat \<Rightarrow> (nat \<Rightarrow> u8) \<Rightarrow> u8 list" where
  "written buffer filled c = take filled buffer @ map c [0..<length buffer - filled]"

partial_function (option) fill_loop ::
  "getrandom \<Rightarrow> nat \<Rightarrow> u8 list \<Rightarrow> nat \<Rightarrow> ((random_unavailable + unit) \<times> u8 list) option" where
  "fill_loop call i buffer filled =
     (if filled < length buffer
      then (case call i (drop filled buffer) of (r, c) \<Rightarrow>
             (case r of
                Inr count \<Rightarrow>
                  if 0 < count \<and> count \<le> length buffer - filled
                  then fill_loop call (i + 1) (written buffer filled c) (filled + count)
                  else Some (Inl RandomUnavailable, replicate (length buffer) 0)
              | Inl errno \<Rightarrow>
                  if errno = EINTR
                  then fill_loop call (i + 1) (written buffer filled c) filled
                  else Some (Inl RandomUnavailable, replicate (length buffer) 0)))
      else Some (Inr (), buffer))"

definition fill_with :: "u8 list \<Rightarrow> getrandom \<Rightarrow> ((random_unavailable + unit) \<times> u8 list) option" where
  "fill_with buffer call = fill_loop call 0 buffer 0"

text \<open>Interrupts come in finite bursts: after every call some later call is not interrupted.\<close>

definition interrupts_end :: "getrandom \<Rightarrow> bool" where
  "interrupts_end call \<longleftrightarrow> (\<forall>i. \<exists>j\<ge>i. \<forall>s. fst (call j s) \<noteq> Inl EINTR)"

text \<open>A source that delivers the bytes of \<open>src\<close> in order into a buffer of \<open>n\<close> bytes.\<close>

definition delivers :: "getrandom \<Rightarrow> nat \<Rightarrow> (nat \<Rightarrow> u8) \<Rightarrow> bool" where
  "delivers call n src \<longleftrightarrow>
     (\<forall>i s count c. call i s = (Inr count, c) \<longrightarrow> (\<forall>j < count. c j = src (n - length s + j)))"

lemma length_written [simp]: "filled \<le> length buffer \<Longrightarrow> length (written buffer filled c) = length buffer"
  by (simp add: written_def)

lemma take_written:
  "filled + k \<le> length buffer \<Longrightarrow> take (filled + k) (written buffer filled c) = take filled buffer @ map c [0..<k]"
  by (simp add: written_def take_map)

lemma fill_loop_step:
  assumes "filled < length buffer" and "call i (drop filled buffer) = (r, c)"
  shows "fill_loop call i buffer filled =
    (case r of
       Inr count \<Rightarrow>
         if 0 < count \<and> count \<le> length buffer - filled
         then fill_loop call (i + 1) (written buffer filled c) (filled + count)
         else Some (Inl RandomUnavailable, replicate (length buffer) 0)
     | Inl errno \<Rightarrow>
         if errno = EINTR then fill_loop call (i + 1) (written buffer filled c) filled
         else Some (Inl RandomUnavailable, replicate (length buffer) 0))"
  using assms by (subst fill_loop.simps) simp

definition fill_post :: "nat \<Rightarrow> (nat \<Rightarrow> u8) \<Rightarrow> (random_unavailable + unit) \<times> u8 list \<Rightarrow> bool" where
  "fill_post n src res =
     (case res of (Inl _, out) \<Rightarrow> out = replicate n 0 | (Inr _, out) \<Rightarrow> out = map src [0..<n])"

lemma fill_progress:
  assumes "delivers call n src" "call i (drop filled buffer) = (Inr count, c)"
    and "length buffer = n" "filled < n" "count \<le> n - filled" "take filled buffer = map src [0..<filled]"
  shows "take (filled + count) (written buffer filled c) = map src [0..<filled + count]"
proof -
  have "\<forall>j < count. c j = src (n - length (drop filled buffer) + j)"
    using assms(1,2) unfolding delivers_def by blast
  then have "map c [0..<count] = map (\<lambda>j. src (filled + j)) [0..<count]"
    using assms(3,4) by simp
  also have "\<dots> = map src [filled..<filled + count]"
    by (rule nth_equalityI) simp_all
  finally show ?thesis
    using assms take_written [of filled count buffer c] upt_add_eq_append [of 0 filled count] by simp
qed

text \<open>The loop returns, and what it returns: on every call that is not interrupted it ends or fills at
  least one byte, and the distance to such a call shrinks in between.\<close>

lemma fill_loop_total:
  assumes ends: "interrupts_end call" and deliv: "delivers call n src"
  shows "length buffer = n \<Longrightarrow> filled \<le> n \<Longrightarrow> take filled buffer = map src [0..<filled] \<Longrightarrow>
    \<exists>r. fill_loop call i buffer filled = Some r \<and> fill_post n src r"
proof (induction "n - filled" arbitrary: i buffer filled rule: less_induct)
  case less
  note IH = less.hyps
  obtain j where j: "i \<le> j" "\<And>s. fst (call j s) \<noteq> Inl EINTR"
    using ends unfolding interrupts_end_def by blast
  have "\<exists>r. fill_loop call i' b filled = Some r \<and> fill_post n src r"
    if "i' \<le> j" "length b = n" "take filled b = map src [0..<filled]" for i' b
    using that
  proof (induction "j - i'" arbitrary: i' b rule: less_induct)
    case inner: less
    show ?case
    proof (cases "filled < n")
      case False
      then show ?thesis using inner.prems less.prems
        by (subst fill_loop.simps) (auto simp: fill_post_def)
    next
      case True
      obtain r c where call: "call i' (drop filled b) = (r, c)" by fastforce
      have "filled < length b" using True inner.prems by simp
      note step = fill_loop_step [where call = call, OF this call]
      show ?thesis
      proof (cases r)
        case (Inl errno)
        then have ne: "i' \<noteq> j" if "errno = EINTR" using j(2) [of "drop filled b"] call that by auto
        have "take filled (written b filled c) = map src [0..<filled]"
          using inner.prems True take_written [of filled 0 b c] by simp
        then show ?thesis using step Inl inner.prems True inner.hyps [of "i' + 1" "written b filled c"] ne
          by (cases "errno = EINTR") (auto simp: fill_post_def)
      next
        case (Inr count)
        then have "take (filled + count) (written b filled c) = map src [0..<filled + count]"
          if "count \<le> n - filled"
          using fill_progress [OF deliv, of i' filled b] call inner.prems True that by simp
        then show ?thesis using step Inr inner.prems True
            IH [of "filled + count" "written b filled c" "i' + 1"]
          by (cases "0 < count \<and> count \<le> n - filled") (auto simp: fill_post_def)
      qed
    qed
  qed
  then show ?case using j(1) less.prems by blast
qed

section \<open>Property\<close>

text \<open>C28: if interrupts come in finite bursts, filling a buffer returns; it then holds either exactly the
  delivered bytes, or only zeros together with the error.\<close>

theorem fill_with_fails_closed:
  assumes "interrupts_end call" and "delivers call (length buffer) src"
  shows "fill_with buffer call = Some (Inr (), map src [0..<length buffer]) \<or>
         fill_with buffer call = Some (Inl RandomUnavailable, replicate (length buffer) 0)"
proof -
  obtain r out where "fill_loop call 0 buffer 0 = Some (r, out)" "fill_post (length buffer) src (r, out)"
    using fill_loop_total [OF assms, of buffer 0 0] by auto
  then show ?thesis
    by (cases r) (auto simp: fill_with_def fill_post_def intro: random_unavailable.exhaust)
qed

text \<open>A source that is interrupted once and then hands out at most three bytes per call.\<close>

definition slow_source :: getrandom where
  "slow_source i s =
     (if i = 0 then (Inl EINTR, \<lambda>_. 0)
      else (Inr (min 3 (length s)), \<lambda>j. word_of_nat (4 - length s + j)))"

theorem fill_with_fails_closed_witness:
  "interrupts_end slow_source \<and> delivers slow_source (length [9, 9, 9, 9 :: u8]) word_of_nat \<and>
   fill_with [9, 9, 9, 9] slow_source = Some (Inr (), [0, 1, 2, 3])"
proof -
  have ends: "interrupts_end slow_source"
    unfolding interrupts_end_def
  proof
    fix i :: nat
    show "\<exists>j\<ge>i. \<forall>s. fst (slow_source j s) \<noteq> Inl EINTR"
      by (rule exI [of _ "Suc i"]) (simp add: slow_source_def)
  qed
  have "delivers slow_source 4 word_of_nat"
    by (auto simp: delivers_def slow_source_def split: if_splits)
  then have deliv: "delivers slow_source (length [9, 9, 9, 9 :: u8]) word_of_nat" by (simp add: numeral_eq_Suc)
  have "fill_with [9, 9, 9, 9] slow_source \<noteq> Some (Inl RandomUnavailable, replicate 4 0)"
    by (simp add: fill_with_def fill_loop.simps written_def slow_source_def upt_rec)
  moreover have "map word_of_nat [0..<length [9, 9, 9, 9 :: u8]] = [0, 1, 2, 3 :: u8]"
    by (simp add: upt_rec)
  moreover have "length [9, 9, 9, 9 :: u8] = 4" by simp
  ultimately show ?thesis
    using ends deliv fill_with_fails_closed [OF ends deliv] by metis
qed
section \<open>The kernel\<close>

text \<open>The system call: its result, the error number that it leaves, and the contents of the buffer.\<close>

type_synonym syscall = "nat \<Rightarrow> u8 list \<Rightarrow> (int \<times> int option) \<times> (nat \<Rightarrow> u8)"

text \<open>The closure of sl-authd's \<^verbatim>\<open>KernelRandom\<close>.\<close>

definition kernel_call :: "syscall \<Rightarrow> getrandom" where
  "kernel_call sys i s =
     (case sys i s of ((result, errno), c) \<Rightarrow>
        (if result < 0 then Inl (case errno of Some e \<Rightarrow> e | None \<Rightarrow> 0) else Inr (nat result), c))"

definition kernel_fill :: "syscall \<Rightarrow> u8 list \<Rightarrow> ((random_unavailable + unit) \<times> u8 list) option" where
  "kernel_fill sys buffer = fill_with buffer (kernel_call sys)"

text \<open>The loop that sl-remoted and sl-remote-worker have of their own.\<close>

partial_function (option) own_fill_loop :: "syscall \<Rightarrow> nat \<Rightarrow> u8 list \<Rightarrow> nat \<Rightarrow> ((unit + unit) \<times> u8 list) option" where
  "own_fill_loop sys i buffer filled =
     (if filled < length buffer
      then (case sys i (drop filled buffer) of ((result, errno), c) \<Rightarrow>
             if 0 < result \<and> nat result \<le> length buffer - filled
             then own_fill_loop sys (i + 1) (written buffer filled c) (filled + nat result)
             else if result < 0 \<and> errno = Some EINTR
             then own_fill_loop sys (i + 1) (written buffer filled c) filled
             else Some (Inl (), replicate (length buffer) 0))
      else Some (Inr (), buffer))"

definition own_fill :: "syscall \<Rightarrow> u8 list \<Rightarrow> ((unit + unit) \<times> u8 list) option" where
  "own_fill sys buffer = own_fill_loop sys 0 buffer 0"

text \<open>The two loops differ in the name of the error only.\<close>

definition as_unit :: "(random_unavailable + unit) \<times> u8 list \<Rightarrow> (unit + unit) \<times> u8 list" where
  "as_unit = map_prod (map_sum (\<lambda>_. ()) id) id"

lemma as_unit_simps [simp]: "as_unit (Inl e, b) = (Inl (), b)" "as_unit (Inr u, b) = (Inr (), b)"
  by (simp_all add: as_unit_def)

lemma EINTR_number [simp]: "(case errno of Some e \<Rightarrow> e | None \<Rightarrow> 0) = EINTR \<longleftrightarrow> errno = Some EINTR"
  by (simp add: EINTR_def split: option.split)

lemma kernel_call_at:
  "sys i s = ((result, errno), c) \<Longrightarrow>
    kernel_call sys i s = (if result < 0 then Inl (case errno of Some e \<Rightarrow> e | None \<Rightarrow> 0) else Inr (nat result), c)"
  by (simp add: kernel_call_def)

lemma own_fill_loop_returns:
  assumes "own_fill_loop sys i buffer filled = Some r"
  shows "\<exists>q. fill_loop (kernel_call sys) i buffer filled = Some q \<and> as_unit q = r"
proof (rule own_fill_loop.raw_induct [OF _ assms])
  fix loop sys i buffer filled r
  assume IH: "\<And>sys i buffer filled r. loop sys i buffer filled = Some r \<Longrightarrow>
      \<exists>q. fill_loop (kernel_call sys) i buffer filled = Some q \<and> as_unit q = r"
    and body: "(if filled < length buffer
      then (case sys i (drop filled buffer) of ((result, errno), c) \<Rightarrow>
             if 0 < result \<and> nat result \<le> length buffer - filled
             then loop sys (i + 1) (written buffer filled c) (filled + nat result)
             else if result < 0 \<and> errno = Some EINTR
             then loop sys (i + 1) (written buffer filled c) filled
             else Some (Inl (), replicate (length buffer) 0))
      else Some (Inr (), buffer)) = Some r"
  obtain result errno c where call: "sys i (drop filled buffer) = ((result, errno), c)" by (metis surj_pair)
  show "\<exists>q. fill_loop (kernel_call sys) i buffer filled = Some q \<and> as_unit q = r"
    using body IH by (subst fill_loop.simps) (auto simp: call kernel_call_at [of sys, OF call] split: if_splits)
qed

lemma fill_loop_returns:
  assumes "fill_loop call i buffer filled = Some q" "call = kernel_call sys"
  shows "own_fill_loop sys i buffer filled = Some (as_unit q)"
proof -
  have "call = kernel_call sys \<longrightarrow> own_fill_loop sys i buffer filled = Some (as_unit q)"
  proof (rule fill_loop.raw_induct [OF _ assms(1)])
    fix loop call i buffer filled q
    assume IH: "\<And>call i buffer filled q. loop call i buffer filled = Some q \<Longrightarrow>
        call = kernel_call sys \<longrightarrow> own_fill_loop sys i buffer filled = Some (as_unit q)"
      and body: "(if filled < length buffer
        then (case call i (drop filled buffer) of (r, c) \<Rightarrow>
               (case r of
                  Inl errno \<Rightarrow>
                    if errno = EINTR then loop call (i + 1) (written buffer filled c) filled
                    else Some (Inl RandomUnavailable, replicate (length buffer) 0)
                | Inr count \<Rightarrow>
                    if 0 < count \<and> count \<le> length buffer - filled
                    then loop call (i + 1) (written buffer filled c) (filled + count)
                    else Some (Inl RandomUnavailable, replicate (length buffer) 0)))
        else Some (Inr (), buffer)) = Some q"
    obtain result errno c where call: "sys i (drop filled buffer) = ((result, errno), c)" by (metis surj_pair)
    show "call = kernel_call sys \<longrightarrow> own_fill_loop sys i buffer filled = Some (as_unit q)"
      using body by (subst own_fill_loop.simps) (auto simp: call kernel_call_at [of sys, OF call] split: if_splits dest!: IH)
  qed
  with assms(2) show ?thesis by simp
qed

text \<open>C38: The three random sources are the same function.  sl-remoted and sl-remote-worker fill a buffer with a loop of their
  own; for every behaviour of the system call, interrupts, short reads and impossible results included, it returns exactly
  if that of sl-authd does, with the same outcome and the same contents of the buffer.\<close>

theorem random_sources_agree:
  "own_fill sys buffer = map_option (map_prod (map_sum (\<lambda>_. ()) id) id) (kernel_fill sys buffer)"
  unfolding own_fill_def kernel_fill_def fill_with_def as_unit_def [symmetric]
  by (cases "own_fill_loop sys 0 buffer 0"; cases "fill_loop (kernel_call sys) 0 buffer 0")
    (auto dest: own_fill_loop_returns fill_loop_returns)

end
