(* ===== verification/Ip_Addr.thy ===== *)
theory Ip_Addr
  imports SL_Prelude
begin

text \<open>
  IP addresses as the daemons use them through the standard library: the values of \<^verbatim>\<open>IpAddr\<close>, their text form
  (\<^verbatim>\<open>Display\<close>) and the parser (\<^verbatim>\<open>FromStr\<close>), including the compressed and the embedded-IPv4 forms of IPv6,
  and the parser of small unsigned integers.  The interface \<open>text_form\<close> is what a producer and a consumer
  of such text share; it is interpreted on the addresses.
\<close>

section \<open>Numbers in text\<close>

text \<open>\<^verbatim>\<open>{:x}\<close>: lower-case hexadecimal without leading zeros.\<close>

fun hex_nat :: "nat \<Rightarrow> string" where
  "hex_nat n = (if n < 16 then [hex_digit n] else hex_nat (n div 16) @ [hex_digit (n mod 16)])"

declare hex_nat.simps [simp del]

definition to_digit :: "nat \<Rightarrow> char \<Rightarrow> nat option" where
  "to_digit radix c =
     (let n = (of_char c :: nat);
          d = (if 48 \<le> n \<and> n \<le> 57 then n - 48
               else if 97 \<le> n \<and> n \<le> 122 then n - 87
               else if 65 \<le> n \<and> n \<le> 90 then n - 55 else 36)
      in if d < radix then Some d else None)"

fun read_digits :: "nat \<Rightarrow> nat \<Rightarrow> string \<Rightarrow> nat \<Rightarrow> nat \<Rightarrow> (nat \<times> nat \<times> string) option" where
  "read_digits radix max_digits [] count acc = Some (count, acc, [])"
| "read_digits radix max_digits (c # s) count acc =
     (case to_digit radix c of
        None \<Rightarrow> Some (count, acc, c # s)
      | Some d \<Rightarrow>
          if max_digits < count + 1 then None
          else read_digits radix max_digits s (count + 1) (acc * radix + d))"

text \<open>\<open>bound\<close> is the size of the target type.\<close>

definition read_number :: "nat \<Rightarrow> nat \<Rightarrow> bool \<Rightarrow> nat \<Rightarrow> string \<Rightarrow> (nat \<times> string) option" where
  "read_number radix max_digits allow_zero_prefix bound s =
     (case read_digits radix max_digits s 0 0 of
        None \<Rightarrow> None
      | Some (count, v, rest) \<Rightarrow>
          if count = 0 then None
          else if \<not> allow_zero_prefix \<and> take 1 s = ''0'' \<and> 1 < count then None
          else if v < bound then Some (v, rest) else None)"

text \<open>\<^verbatim>\<open>str::parse::<u8>\<close>: an optional plus sign and at least one digit.\<close>

definition parse_u8 :: "string \<Rightarrow> u8 option" where
  "parse_u8 s =
     (let digits = (if take 1 s = ''+'' then drop 1 s else s)
      in if digits = [] \<or> \<not> list_all is_ascii_digit digits then None
         else let v = foldl (\<lambda>a c. a * 10 + (of_char c - 48)) (0::nat) digits
              in if v < 256 then Some (word_of_nat v) else None)"

section \<open>Addresses\<close>

datatype ip_addr = V4 u32 | V6 u128

definition is_ipv4 :: "ip_addr \<Rightarrow> bool" where
  "is_ipv4 a = (case a of V4 _ \<Rightarrow> True | V6 _ \<Rightarrow> False)"

definition octets :: "u32 \<Rightarrow> nat list" where
  "octets a = map (\<lambda>i. unat a div 256 ^ i mod 256) [3, 2, 1, 0]"

definition v4_of_octets :: "nat list \<Rightarrow> u32" where
  "v4_of_octets os = word_of_nat (foldl (\<lambda>a b. a * 256 + b) 0 os)"

definition segments :: "u128 \<Rightarrow> nat list" where
  "segments a = map (\<lambda>i. unat a div 65536 ^ i mod 65536) [7, 6, 5, 4, 3, 2, 1, 0]"

definition v6_of_segments :: "nat list \<Rightarrow> u128" where
  "v6_of_segments gs = word_of_nat (foldl (\<lambda>a b. a * 65536 + b) 0 gs)"

definition to_ipv4_mapped :: "u128 \<Rightarrow> u32 option" where
  "to_ipv4_mapped a = (if drop_bit 32 a = 0xffff then Some (ucast a) else None)"

section \<open>Printing\<close>

fun join_with :: "char \<Rightarrow> string list \<Rightarrow> string" where
  "join_with c [] = []"
| "join_with c [s] = s"
| "join_with c (s # t # ss) = s @ c # join_with c (t # ss)"

definition display_v4 :: "u32 \<Rightarrow> string" where
  "display_v4 a = join_with CHR ''.'' (map decimal (octets a))"

text \<open>The first longest run of zero segments, as the pair of its start and length.\<close>

fun zero_span :: "nat list \<Rightarrow> nat \<Rightarrow> nat \<times> nat \<Rightarrow> nat \<times> nat \<Rightarrow> nat \<times> nat" where
  "zero_span [] i cur longest = longest"
| "zero_span (g # gs) i cur longest =
     (if g = 0
      then let cur = (if snd cur = 0 then i else fst cur, snd cur + 1)
           in zero_span gs (i + 1) cur (if snd longest < snd cur then cur else longest)
      else zero_span gs (i + 1) (0, 0) longest)"

definition display_groups :: "nat list \<Rightarrow> string" where
  "display_groups gs = join_with CHR '':'' (map hex_nat gs)"

definition display_v6 :: "u128 \<Rightarrow> string" where
  "display_v6 a =
     (case to_ipv4_mapped a of
        Some v4 \<Rightarrow> ''::ffff:'' @ display_v4 v4
      | None \<Rightarrow>
          let gs = segments a; (start, len) = zero_span gs 0 (0, 0) (0, 0)
          in if 1 < len
             then display_groups (take start gs) @ ''::'' @ display_groups (drop (start + len) gs)
             else display_groups gs)"

definition display_ip :: "ip_addr \<Rightarrow> string" where
  "display_ip a = (case a of V4 b \<Rightarrow> display_v4 b | V6 b \<Rightarrow> display_v6 b)"

section \<open>Parsing\<close>

definition read_separator :: "char \<Rightarrow> nat \<Rightarrow> (string \<Rightarrow> ('a \<times> string) option) \<Rightarrow> string \<Rightarrow> ('a \<times> string) option" where
  "read_separator sep i f s =
     (if 0 < i then (case s of [] \<Rightarrow> None | c # r \<Rightarrow> if c = sep then f r else None) else f s)"

fun read_octets :: "nat \<Rightarrow> nat \<Rightarrow> string \<Rightarrow> (nat list \<times> string) option" where
  "read_octets 0 i s = Some ([], s)"
| "read_octets (Suc k) i s =
     (case read_separator CHR ''.'' i (read_number 10 3 False 256) s of
        None \<Rightarrow> None
      | Some (v, r) \<Rightarrow> map_option (apfst (Cons v)) (read_octets k (i + 1) r))"

definition read_ipv4 :: "string \<Rightarrow> (nat list \<times> string) option" where
  "read_ipv4 s = read_octets 4 0 s"

text \<open>At most \<open>k\<close> further groups; an embedded IPv4 address needs two.  The flag says that one was read.\<close>

fun read_groups :: "nat \<Rightarrow> nat \<Rightarrow> string \<Rightarrow> nat list \<times> bool \<times> string" where
  "read_groups 0 i s = ([], False, s)"
| "read_groups (Suc k) i s =
     (case (if 0 < k then read_separator CHR '':'' i read_ipv4 s else None) of
        Some (os, r) \<Rightarrow> ([os ! 0 * 256 + os ! 1, os ! 2 * 256 + os ! 3], True, r)
      | None \<Rightarrow>
          (case read_separator CHR '':'' i (read_number 16 4 True 65536) s of
             None \<Rightarrow> ([], False, s)
           | Some (g, r) \<Rightarrow> (case read_groups k (i + 1) r of (gs, v4, r') \<Rightarrow> (g # gs, v4, r'))))"

definition read_ipv6 :: "string \<Rightarrow> (nat list \<times> string) option" where
  "read_ipv6 s =
     (case read_groups 8 0 s of (head, head_ipv4, r) \<Rightarrow>
        if length head = 8 then Some (head, r)
        else if head_ipv4 then None
        else
          (case strip_prefix ''::'' r of
             None \<Rightarrow> None
           | Some r \<Rightarrow>
               (case read_groups (8 - (length head + 1)) 0 r of (tail, _, r) \<Rightarrow>
                  Some (head @ replicate (8 - length head - length tail) 0 @ tail, r))))"

definition parse_ip :: "string \<Rightarrow> ip_addr option" where
  "parse_ip s =
     (case read_ipv4 s of
        Some (os, r) \<Rightarrow> if r = [] then Some (V4 (v4_of_octets os)) else None
      | None \<Rightarrow>
          (case read_ipv6 s of
             Some (gs, r) \<Rightarrow> if r = [] then Some (V6 (v6_of_segments gs)) else None
           | None \<Rightarrow> None))"

section \<open>Digits\<close>

text \<open>The rest of a text starts with no digit.\<close>

definition stops :: "nat \<Rightarrow> string \<Rightarrow> bool" where
  "stops radix rest \<longleftrightarrow> (case rest of [] \<Rightarrow> True | c # _ \<Rightarrow> to_digit radix c = None)"

definition digits_value :: "nat \<Rightarrow> string \<Rightarrow> nat \<Rightarrow> nat" where
  "digits_value radix ds acc = foldl (\<lambda>a c. a * radix + the (to_digit radix c)) acc ds"

lemma read_digits_append:
  assumes "list_all (\<lambda>c. to_digit radix c \<noteq> None) ds" "stops radix rest" "count + length ds \<le> m"
  shows "read_digits radix m (ds @ rest) count acc = Some (count + length ds, digits_value radix ds acc, rest)"
  using assms
proof (induction ds arbitrary: count acc)
  case Nil
  then show ?case by (cases rest) (simp_all add: stops_def digits_value_def)
next
  case (Cons c ds)
  then show ?case by (auto simp: digits_value_def)
qed

lemma digits_value_append: "digits_value radix (ds @ es) acc = digits_value radix es (digits_value radix ds acc)"
  by (simp add: digits_value_def)

lemma to_digit_dec: "d < 10 \<Longrightarrow> to_digit 10 (char_of (48 + d)) = Some d"
  by (simp add: to_digit_def Let_def)

lemma to_digit_hex: "d < 16 \<Longrightarrow> to_digit 16 (hex_digit d) = Some d"
  by (simp add: to_digit_def hex_digit_def Let_def)

lemma decimal_digits:
  "list_all (\<lambda>c. to_digit 10 c \<noteq> None) (decimal n) \<and> digits_value 10 (decimal n) 0 = n \<and> decimal n \<noteq> [] \<and>
     (0 < n \<longrightarrow> hd (decimal n) \<noteq> CHR ''0'')"
proof (induction n rule: decimal.induct)
  case (1 n)
  show ?case
  proof (cases "n < 10")
    case True
    have "char_of (48 + n) \<noteq> CHR ''0''" if "0 < n"
    proof
      assume "char_of (48 + n) = CHR ''0''"
      then have "to_digit 10 (char_of (48 + n)) = to_digit 10 (CHR ''0'')" by simp
      with True that show False by (simp add: to_digit_dec) (simp add: to_digit_def)
    qed
    then show ?thesis using True by (subst (1 2 3 4) decimal.simps) (simp add: digits_value_def to_digit_dec)
  next
    case False
    have eq: "decimal n = decimal (n div 10) @ [char_of (48 + n mod 10)]" using False by (subst decimal.simps) simp
    have "to_digit 10 (char_of (48 + n mod 10)) = Some (n mod 10)" by (rule to_digit_dec) simp
    then show ?thesis using 1 [OF False] False by (simp add: eq digits_value_append) (simp add: digits_value_def)
  qed
qed

lemma hex_nat_digits:
  "list_all (\<lambda>c. to_digit 16 c \<noteq> None) (hex_nat n) \<and> digits_value 16 (hex_nat n) 0 = n \<and> hex_nat n \<noteq> []"
proof (induction n rule: hex_nat.induct)
  case (1 n)
  show ?case
  proof (cases "n < 16")
    case True
    then show ?thesis by (subst (1 2 3) hex_nat.simps) (simp add: digits_value_def to_digit_hex)
  next
    case False
    have eq: "hex_nat n = hex_nat (n div 16) @ [hex_digit (n mod 16)]" using False by (subst hex_nat.simps) simp
    have "to_digit 16 (hex_digit (n mod 16)) = Some (n mod 16)" by (rule to_digit_hex) simp
    then show ?thesis using 1 [OF False] by (simp add: eq digits_value_append) (simp add: digits_value_def)
  qed
qed

lemma length_decimal_u8: "n < 256 \<Longrightarrow> length (decimal n) \<le> 3"
  by (subst decimal.simps, subst decimal.simps, subst decimal.simps) simp

lemma length_hex_u16: "n < 65536 \<Longrightarrow> length (hex_nat n) \<le> 4"
  by (subst hex_nat.simps, subst hex_nat.simps, subst hex_nat.simps, subst hex_nat.simps) simp

lemma length_decimal_zero: "decimal 0 = ''0''"
  by code_simp

lemma read_decimal:
  assumes "n < 256" "stops 10 rest"
  shows "read_number 10 3 False 256 (decimal n @ rest) = Some (n, rest)"
proof -
  note d = decimal_digits [of n]
  have "\<not> (take 1 (decimal n @ rest) = ''0'' \<and> 1 < length (decimal n))"
    using d by (cases "n = 0"; cases "decimal n") (auto simp: length_decimal_zero)
  then show ?thesis
    using d assms read_digits_append [of 10 "decimal n" rest 0 3 0] length_decimal_u8 [OF assms(1)]
    by (auto simp: read_number_def)
qed

lemma read_hex:
  assumes "n < 65536" "stops 16 rest"
  shows "read_number 16 4 True 65536 (hex_nat n @ rest) = Some (n, rest)"
  using hex_nat_digits [of n] assms read_digits_append [of 16 "hex_nat n" rest 0 4 0] length_hex_u16 [OF assms(1)]
  by (simp add: read_number_def)

section \<open>Bytes and segments of an address\<close>

lemma base_digits:
  fixes x B :: nat
  assumes "0 < B"
  shows "foldl (\<lambda>a b. a * B + b) acc (map (\<lambda>i. x div B ^ i mod B) (rev [0..<n])) = acc * B ^ n + x mod B ^ n"
proof (induction n arbitrary: acc)
  case (Suc n)
  have "x mod B ^ Suc n = B ^ n * (x div B ^ n mod B) + x mod B ^ n"
    by (metis mod_mult2_eq power_Suc2)
  moreover have "(acc * B + x div B ^ n mod B) * B ^ n = acc * B ^ Suc n + B ^ n * (x div B ^ n mod B)"
    by (simp add: algebra_simps)
  ultimately show ?case using Suc.IH [of "acc * B + x div B ^ n mod B"] by simp
qed simp

lemma v4_of_octets_octets: "v4_of_octets (octets a) = a"
proof -
  have "unat a < 2 ^ 32" using unsigned_less [of a] by simp
  then have "foldl (\<lambda>a b. a * 256 + b) 0 (octets a) = unat a"
    using base_digits [of 256 0 "unat a" 4] by (simp add: octets_def upt_rec)
  then show ?thesis by (simp add: v4_of_octets_def)
qed

lemma v6_of_segments_segments: "v6_of_segments (segments a) = a"
proof -
  have "unat a < 2 ^ 128" using unsigned_less [of a] by simp
  then have "foldl (\<lambda>a b. a * 65536 + b) 0 (segments a) = unat a"
    using base_digits [of 65536 0 "unat a" 8] by (simp add: segments_def upt_rec)
  then show ?thesis by (simp add: v6_of_segments_def)
qed

lemma octets_lt: "o' \<in> set (octets a) \<Longrightarrow> o' < 256"
  by (auto simp: octets_def)

lemma segments_lt: "g \<in> set (segments a) \<Longrightarrow> g < 65536"
  by (auto simp: segments_def)

lemma length_segments [simp]: "length (segments a) = 8" "length (octets b) = 4"
  by (simp_all add: segments_def octets_def)

section \<open>Round trips\<close>

lemma to_digit_punct: "to_digit 10 CHR ''.'' = None" "to_digit 10 CHR '':'' = None" "to_digit 16 CHR '':'' = None"
    "to_digit 16 CHR ''.'' = None" "to_digit 10 CHR ''f'' = None"
  by (simp_all add: to_digit_def)

lemma stops_simps [simp]:
  "stops radix []" "stops 10 (CHR ''.'' # r)" "stops 10 (CHR '':'' # r)" "stops 16 (CHR '':'' # r)" "stops 10 (CHR ''f'' # r)"
  by (simp_all add: stops_def to_digit_punct)

lemma read_number_stops: "stops radix s \<Longrightarrow> read_number radix m z b s = None"
  by (cases s) (simp_all add: stops_def read_number_def)

lemma read_ipv4_stops: "stops 10 s \<Longrightarrow> read_ipv4 s = None"
  by (simp add: read_ipv4_def numeral_eq_Suc read_separator_def read_number_stops [unfolded numeral_eq_Suc])

lemma read_octets_display:
  assumes "os \<noteq> []" "\<forall>v \<in> set os. v < 256" "stops 10 rest"
  shows "read_octets (length os) i ((if 0 < i then ''.'' else []) @ join_with CHR ''.'' (map decimal os) @ rest) = Some (os, rest)"
  using assms
proof (induction os arbitrary: i)
  case (Cons v os)
  show ?case
  proof (cases os)
    case Nil
    then show ?thesis using Cons.prems by (simp add: read_separator_def read_decimal)
  next
    case (Cons v' os')
    define t where "t = CHR ''.'' # join_with CHR ''.'' (map decimal os) @ rest"
    have IH: "read_octets (length os) (Suc i) t = Some (os, rest)"
      using Cons.IH [of "Suc i"] Cons.prems Cons by (simp add: t_def)
    have num: "read_number 10 3 False 256 (decimal v @ t) = Some (v, t)"
      using Cons.prems by (intro read_decimal) (simp_all add: t_def)
    have "join_with CHR ''.'' (map decimal (v # os)) @ rest = decimal v @ t" using Cons by (simp add: t_def)
    then show ?thesis by (cases i; use IH num in \<open>simp add: read_separator_def\<close>)
  qed
qed simp

lemma read_ipv4_display: "stops 10 rest \<Longrightarrow> read_ipv4 (display_v4 a @ rest) = Some (octets a, rest)"
proof -
  assume "stops 10 rest"
  moreover have "octets a \<noteq> []" using length_segments(2) [of a] by fastforce
  moreover have "\<forall>v \<in> set (octets a). v < 256" using octets_lt by blast
  ultimately show ?thesis
    using read_octets_display [of "octets a" rest 0] by (simp add: read_ipv4_def display_v4_def)
qed

lemma read_digits_suffix: "read_digits radix m s n acc = Some (k, v, r) \<Longrightarrow> set r \<subseteq> set s"
  by (induction s arbitrary: n acc) (fastforce split: option.splits if_splits)+

lemma read_number_suffix: "read_number radix m z b s = Some (v, r) \<Longrightarrow> set r \<subseteq> set s"
  by (simp add: read_number_def split: option.splits if_splits prod.splits) (metis read_digits_suffix)+

lemma read_ipv4_no_dot: "CHR ''.'' \<notin> set s \<Longrightarrow> read_ipv4 s = None"
  using read_number_suffix [of 10 3 False 256 s]
  by (auto simp: read_ipv4_def numeral_eq_Suc read_separator_def split: option.splits list.splits)

lemma hex_nat_notin: "to_digit 16 c = None \<Longrightarrow> c \<notin> set (hex_nat n)"
  using hex_nat_digits [of n] by (auto simp: list_all_iff)

lemma decimal_notin: "to_digit 10 c = None \<Longrightarrow> c \<notin> set (decimal n)"
  using decimal_digits [of n] by (auto simp: list_all_iff)

lemma join_notin: "\<forall>s \<in> set ss. c \<notin> set s \<Longrightarrow> c \<noteq> d \<Longrightarrow> c \<notin> set (join_with d ss)"
  by (induction d ss rule: join_with.induct) auto

lemma display_groups_notin: "to_digit 16 c = None \<Longrightarrow> c \<noteq> CHR '':'' \<Longrightarrow> c \<notin> set (display_groups gs)"
  unfolding display_groups_def by (rule join_notin) (auto simp: hex_nat_notin)

lemma display_v4_notin: "to_digit 10 c = None \<Longrightarrow> c \<noteq> CHR ''.'' \<Longrightarrow> c \<notin> set (display_v4 a)"
  unfolding display_v4_def by (rule join_notin) (auto simp: decimal_notin)

lemma hex_nat_no_dot: "CHR ''.'' \<notin> set (hex_nat n)"
  by (simp add: hex_nat_notin to_digit_punct)

lemma display_groups_no_dot: "CHR ''.'' \<notin> set (display_groups gs)"
  by (simp add: display_groups_notin to_digit_punct)

text \<open>Reading back printed groups, up to the end or a double colon.\<close>

lemma read_groups_display:
  assumes "\<forall>g \<in> set gs. g < 65536" "length gs \<le> k" "rest = [] \<or> (\<exists>r. rest = ''::'' @ r)" "CHR ''.'' \<notin> set rest"
  shows "read_groups k i ((if 0 < i \<and> gs \<noteq> [] then '':'' else []) @ display_groups gs @ rest) = (gs, False, rest)"
  using assms(1,2)
proof (induction gs arbitrary: i k)
  case Nil
  have "read_separator CHR '':'' i read_ipv4 rest = None"
    "read_separator CHR '':'' i (read_number 16 4 True 65536) rest = None"
    using assms(3) by (auto simp: read_separator_def read_ipv4_stops read_number_stops)
  then show ?case by (cases k) (simp_all add: display_groups_def)
next
  case (Cons g gs)
  then obtain k' where k: "k = Suc k'" by (cases k) auto
  define t where "t = (if gs \<noteq> [] then '':'' else []) @ display_groups gs @ rest"
  have eq: "display_groups (g # gs) @ rest = hex_nat g @ t" by (cases gs) (simp_all add: display_groups_def t_def)
  have dot: "CHR ''.'' \<notin> set (hex_nat g @ t)"
    using hex_nat_no_dot display_groups_no_dot assms(4) by (auto simp: t_def)
  have "stops 16 t" using assms(3) by (cases gs) (auto simp: display_groups_def t_def)
  then have num: "read_number 16 4 True 65536 (hex_nat g @ t) = Some (g, t)"
    using Cons.prems by (intro read_hex) auto
  have IH: "read_groups k' (Suc i) t = (gs, False, rest)"
    using Cons.IH [of k' "Suc i"] Cons.prems k by (simp add: t_def)
  show ?case
    unfolding eq k by (cases i; cases k'; use num IH read_ipv4_no_dot [OF dot] in \<open>simp add: read_separator_def\<close>)
qed

text \<open>The chosen span consists of zeros.\<close>

definition zero_run :: "nat list \<Rightarrow> nat \<times> nat \<Rightarrow> bool" where
  "zero_run gs p \<longleftrightarrow> fst p + snd p \<le> length gs \<and> (\<forall>j. fst p \<le> j \<longrightarrow> j < fst p + snd p \<longrightarrow> gs ! j = 0)"

lemma zero_span_run:
  assumes "pre @ gs = all" "i = length pre" "zero_run all cur" "snd cur = 0 \<or> fst cur + snd cur = i" "zero_run all longest"
  shows "zero_run all (zero_span gs i cur longest)"
  using assms
proof (induction gs arbitrary: pre i cur longest)
  case (Cons g gs)
  have "all ! i = g" using Cons.prems(1,2) by (auto simp: nth_append)
  moreover have "i < length all" using Cons.prems(1,2) by auto
  ultimately have "zero_run all (if snd cur = 0 then i else fst cur, snd cur + 1)" if "g = 0"
    using Cons.prems(3,4) that by (auto simp: zero_run_def less_Suc_eq)
  then have grown: "zero_run all cur'" "fst cur' + snd cur' = i + 1" if "g = 0"
    and "cur' = (if snd cur = 0 then i else fst cur, snd cur + 1)" for cur'
    using that Cons.prems(4) by auto
  have none: "zero_run all (0, 0)" by (simp add: zero_run_def)
  have pre: "(pre @ [g]) @ gs = all" "i + 1 = length (pre @ [g])" using Cons.prems(1,2) by simp_all
  show ?case
  proof (cases "g = 0")
    case True
    define cur' where "cur' = (if snd cur = 0 then i else fst cur, snd cur + 1)"
    have "zero_run all (zero_span gs (i + 1) cur' (if snd longest < snd cur' then cur' else longest))"
      using grown [OF True cur'_def] Cons.prems(5) by (intro Cons.IH [OF pre]) simp_all
    moreover have "zero_span (g # gs) i cur longest =
        zero_span gs (i + 1) cur' (if snd longest < snd cur' then cur' else longest)"
      unfolding cur'_def using True by (simp only: zero_span.simps Let_def if_True simp_thms)
    ultimately show ?thesis by simp
  next
    case False
    then show ?thesis using Cons.IH [OF pre none _ Cons.prems(5)] by simp
  qed
qed simp

lemma zero_run_split:
  assumes "zero_run gs (st, n)"
  shows "take st gs @ replicate n 0 @ drop (st + n) gs = gs"
proof -
  have "take n (drop st gs) = replicate n 0"
    using assms by (intro nth_equalityI) (auto simp: zero_run_def)
  then show ?thesis by (metis add.commute append_take_drop_id drop_drop)
qed

lemma read_ipv6_groups:
  assumes "to_ipv4_mapped a = None"
  shows "read_ipv6 (display_v6 a) = Some (segments a, [])"
proof -
  let ?gs = "segments a"
  obtain st n where span: "zero_span ?gs 0 (0, 0) (0, 0) = (st, n)" by fastforce
  have run: "zero_run ?gs (st, n)"
    using zero_span_run [of "[]" ?gs ?gs 0 "(0, 0)" "(0, 0)"] span by (simp add: zero_run_def)
  have lt: "\<forall>g \<in> set ?gs. g < 65536" using segments_lt by blast
  show ?thesis
  proof (cases "1 < n")
    case False
    then show ?thesis
      using assms span read_groups_display [OF lt, of 8 "[]" 0] by (simp add: display_v6_def read_ipv6_def)
  next
    case True
    let ?head = "take st ?gs" and ?tail = "drop (st + n) ?gs"
    have le: "st + n \<le> 8" using run by (simp add: zero_run_def)
    have lts: "\<forall>g \<in> set ?head. g < 65536" "\<forall>g \<in> set ?tail. g < 65536"
      using lt by (auto dest: in_set_takeD in_set_dropD)
    have head: "read_groups 8 0 (display_groups ?head @ ''::'' @ display_groups ?tail) =
        (?head, False, ''::'' @ display_groups ?tail)"
      using read_groups_display [OF lts(1), of 8 "''::'' @ display_groups ?tail" 0] display_groups_no_dot by simp
    have tail: "read_groups (8 - (st + 1)) 0 (display_groups ?tail) = (?tail, False, [])"
      using read_groups_display [OF lts(2), of "8 - (st + 1)" "[]" 0] True le by simp
    have shown: "display_v6 a = display_groups ?head @ ''::'' @ display_groups ?tail"
      using assms span True by (simp add: display_v6_def Let_def)
    have len: "length ?head = st" "8 - st - length ?tail = n" using le by simp_all
    show ?thesis
      unfolding read_ipv6_def shown head using tail True le zero_run_split [OF run]
      by (simp add: len strip_prefix_def)
  qed
qed

lemma display_v6_no_dot: "to_ipv4_mapped a = None \<Longrightarrow> CHR ''.'' \<notin> set (display_v6 a)"
  using display_groups_no_dot by (auto simp: display_v6_def Let_def split: prod.splits)

lemma display_v6_notin:
  assumes "to_digit 16 c = None" "to_digit 10 c = None" "c \<noteq> CHR '':''" "c \<noteq> CHR ''.''"
  shows "c \<notin> set (display_v6 a)"
proof -
  have "c \<noteq> CHR ''f''" using assms(1) by (auto simp: to_digit_def)
  then show ?thesis
    using assms display_groups_notin [of c] display_v4_notin [of c]
    by (auto simp: display_v6_def Let_def split: option.splits prod.splits)
qed

lemma display_ip_notin:
  "to_digit 16 c = None \<Longrightarrow> to_digit 10 c = None \<Longrightarrow> c \<noteq> CHR '':'' \<Longrightarrow> c \<noteq> CHR ''.'' \<Longrightarrow> c \<notin> set (display_ip a)"
  by (cases a) (simp_all add: display_ip_def display_v4_notin display_v6_notin)

lemma decimal_inj: "decimal m = decimal n \<longleftrightarrow> m = n"
  using decimal_digits [of m] decimal_digits [of n] by metis

lemma parse_display_v6_plain: "to_ipv4_mapped a = None \<Longrightarrow> parse_ip (display_v6 a) = Some (V6 a)"
  by (simp add: parse_ip_def read_ipv4_no_dot display_v6_no_dot read_ipv6_groups v6_of_segments_segments)

lemma mapped_value:
  assumes "to_ipv4_mapped a = Some v"
  shows "unat a = 65535 * 4294967296 + unat v"
proof -
  have d: "drop_bit 32 a = 0xffff" and v: "v = ucast a" using assms by (auto simp: to_ipv4_mapped_def split: if_splits)
  have "take_bit 128 (unat a) = unat a" using unsigned_less [of a] by (intro take_bit_nat_eq_self) simp
  then have "unat a div 2 ^ 32 = unat (drop_bit 32 a)" by (subst unsigned_drop_bit_eq) (simp add: drop_bit_eq_div)
  also have "\<dots> = 65535" using d by simp
  finally have "unat a div 4294967296 = 65535" by simp
  moreover have "unat v = unat a mod 4294967296" using v by (simp add: unsigned_ucast_eq take_bit_eq_mod)
  ultimately show ?thesis by (metis div_mult_mod_eq)
qed

lemma octets_value:
  "octets v = [o0, o1, o2, o3] \<Longrightarrow> ((o0 * 256 + o1) * 256 + o2) * 256 + o3 = unat v"
proof -
  assume o: "octets v = [o0, o1, o2, o3]"
  have "unat v < 2 ^ 32" using unsigned_less [of v] by simp
  then have "foldl (\<lambda>a b. a * 256 + b) 0 (octets v) = unat v"
    using base_digits [of 256 0 "unat v" 4] by (simp add: octets_def upt_rec)
  then show ?thesis by (simp add: o)
qed

lemma hex_ffff: "hex_nat 65535 = ''ffff''"
  by (subst hex_nat.simps, subst hex_nat.simps, subst hex_nat.simps, subst hex_nat.simps)
    (simp add: hex_digit_def, code_simp)

lemma parse_display_v6_mapped:
  assumes m: "to_ipv4_mapped a = Some v"
  shows "parse_ip (display_v6 a) = Some (V6 a)"
proof -
  obtain o0 o1 o2 o3 where os: "octets v = [o0, o1, o2, o3]"
    by (simp add: octets_def)
  have v4: "read_ipv4 (display_v4 v) = Some (octets v, [])" using read_ipv4_display [of "[]" v] by simp
  have six: "read_groups 6 1 (CHR '':'' # display_v4 v) = ([o0 * 256 + o1, o2 * 256 + o3], True, [])"
    using v4 by (simp add: numeral_eq_Suc read_separator_def os)
  have num: "read_number 16 4 True 65536 (''ffff:'' @ display_v4 v) = Some (65535, CHR '':'' # display_v4 v)"
    using read_hex [of 65535 "CHR '':'' # display_v4 v"] by (simp add: hex_ffff)
  have tail: "read_groups 7 0 (''ffff:'' @ display_v4 v) = ([65535, o0 * 256 + o1, o2 * 256 + o3], True, [])"
  proof -
    have seven: "(7::nat) = Suc 6" by simp
    show ?thesis
      unfolding seven read_groups.simps(2)
      using six num read_ipv4_stops [of "''ffff:'' @ display_v4 v"] by (simp add: read_separator_def)
  qed
  have head: "read_groups 8 0 (''::ffff:'' @ display_v4 v) = ([], False, ''::ffff:'' @ display_v4 v)"
  proof -
    have eight: "(8::nat) = Suc 7" by simp
    show ?thesis unfolding eight read_groups.simps(2)
      by (simp add: read_separator_def read_ipv4_stops read_number_stops)
  qed
  have shown: "display_v6 a = ''::ffff:'' @ display_v4 v" using m by (simp add: display_v6_def)
  have "read_ipv6 (display_v6 a) = Some (replicate 5 0 @ [65535, o0 * 256 + o1, o2 * 256 + o3], [])"
    unfolding read_ipv6_def shown head using tail by (simp add: strip_prefix_def)
  moreover have "v6_of_segments (replicate 5 0 @ [65535, o0 * 256 + o1, o2 * 256 + o3]) = a"
  proof -
    have five: "replicate 5 0 = [0, 0, 0, 0, 0 :: nat]" by (simp add: numeral_eq_Suc)
    have "foldl (\<lambda>a b. a * 65536 + b) 0 (replicate 5 0 @ [65535, o0 * 256 + o1, o2 * 256 + o3]) = unat a"
      unfolding five using octets_value [OF os] mapped_value [OF m] by simp
    then show ?thesis by (simp add: v6_of_segments_def)
  qed
  moreover have "read_ipv4 (display_v6 a) = None" by (simp add: shown read_ipv4_stops)
  ultimately show ?thesis by (simp add: parse_ip_def)
qed

lemma parse_display_v4: "parse_ip (display_v4 a) = Some (V4 a)"
  using read_ipv4_display [of "[]" a] by (simp add: parse_ip_def v4_of_octets_octets)

lemma parse_u8_decimal: "parse_u8 (decimal (unat l)) = Some l"
proof -
  let ?d = "decimal (unat l)"
  have digit: "is_ascii_digit c \<and> of_char c - 48 = the (to_digit 10 c)" if "to_digit 10 c \<noteq> None" for c
    using that by (auto simp: to_digit_def is_ascii_digit_def Let_def split: if_splits)
  have all: "list_all (\<lambda>c. to_digit 10 c \<noteq> None) ?d" "digits_value 10 ?d 0 = unat l" "?d \<noteq> []"
    using decimal_digits [of "unat l"] by auto
  have plus: "(if take 1 ?d = ''+'' then drop 1 ?d else ?d) = ?d"
    using all(1) by (cases ?d) (auto simp: to_digit_def)
  have "foldl (\<lambda>a c. a * 10 + (of_char c - 48)) b ds = digits_value 10 ds b"
    if "list_all (\<lambda>c. to_digit 10 c \<noteq> None) ds" for ds b
    using that by (induction ds arbitrary: b) (auto simp: digits_value_def digit)
  then have "foldl (\<lambda>a c. a * 10 + (of_char c - 48)) 0 ?d = unat l" using all by simp
  moreover have "list_all is_ascii_digit ?d" using all(1) digit by (auto simp: list_all_iff)
  ultimately show ?thesis
    unfolding parse_u8_def plus Let_def using all(3) unat_u8_lt [of l] by simp
qed

section \<open>Interface\<close>

text \<open>A text form that reads back: the writer and the reader of a message agree on the value.\<close>

locale text_form =
  fixes print :: "'a \<Rightarrow> string" and scan :: "string \<Rightarrow> 'a option"
  assumes scan_print: "scan (print a) = Some a"
begin

lemma print_inj: "print a = print b \<longleftrightarrow> a = b"
  by (metis scan_print option.inject)

end

interpretation ip_text: text_form display_ip parse_ip
proof
  fix a
  show "parse_ip (display_ip a) = Some a"
  proof (cases a)
    case (V6 b)
    then show ?thesis
      by (cases "to_ipv4_mapped b") (simp_all add: display_ip_def parse_display_v6_plain parse_display_v6_mapped)
  qed (simp add: display_ip_def parse_display_v4)
qed

section \<open>Property\<close>

text \<open>Every address, written the way the observer and the listener print it, parses back to the same
  address, in the plain, the compressed and the IPv4-mapped form; so different addresses print differently.\<close>

theorem ip_display_parses_back:
  "parse_ip (display_ip a) = Some a \<and> (display_ip a = display_ip b \<longleftrightarrow> a = b)"
  by (simp add: ip_text.scan_print ip_text.print_inj)

end
