(* ===== verification/Network.thy ===== *)
theory Network
  imports Ip_Addr
begin

text \<open>
  Where sl-remoted may listen and which sources are on-link (\<^verbatim>\<open>src/remoted/src/network.rs\<close>).  The JSON decoder of
  the status is a crate: the parameter \<open>from_str\<close> delivers the fields that the code names.
\<close>

section \<open>Definitions\<close>

definition PORT :: u16 where "PORT = 8443"
definition SESSION_SCHEMA :: string where "SESSION_SCHEMA = ''0.4''"

record primary =
  addresses :: "string list"

record network_status =
  primary_connection :: "primary option"

record session_status =
  schema_version :: string
  network :: network_status

record prefix =
  prefix_network :: ip_addr
  prefix_length :: u8

record view =
  listen :: "ip_addr list"
  prefixes :: "prefix list"

record socket_addr =
  ip :: ip_addr
  port :: u16

text \<open>\<^verbatim>\<open>MAX.checked_shl(n).unwrap_or(0)\<close>; the subtraction in its argument wraps, as in a release build.\<close>

definition mask_bits :: "u32 \<Rightarrow> 'a::len word" where
  "mask_bits n = (if unat n < LENGTH('a) then push_bit (unat n) (- 1) else 0)"

definition mask_ip :: "ip_addr \<Rightarrow> u8 \<Rightarrow> ip_addr" where
  "mask_ip a len =
     (case a of
        V4 bits \<Rightarrow> V4 (bits AND mask_bits (32 - ucast len))
      | V6 bits \<Rightarrow> V6 (bits AND mask_bits (128 - ucast len)))"

definition prefix_new :: "ip_addr \<Rightarrow> u8 \<Rightarrow> prefix" where
  "prefix_new a len = \<lparr>prefix_network = mask_ip a len, prefix_length = len\<rparr>"

definition prefix_contains :: "prefix \<Rightarrow> ip_addr \<Rightarrow> bool" where
  "prefix_contains p a \<longleftrightarrow>
     is_ipv4 a = is_ipv4 (prefix_network p) \<and> mask_ip a (prefix_length p) = prefix_network p"

definition v4_is_loopback :: "u32 \<Rightarrow> bool" where "v4_is_loopback a \<longleftrightarrow> drop_bit 24 a = 127"
definition v4_is_multicast :: "u32 \<Rightarrow> bool" where "v4_is_multicast a \<longleftrightarrow> drop_bit 28 a = 14"
definition v4_is_link_local :: "u32 \<Rightarrow> bool" where "v4_is_link_local a \<longleftrightarrow> drop_bit 16 a = 0xa9fe"
definition v6_is_multicast :: "u128 \<Rightarrow> bool" where "v6_is_multicast a \<longleftrightarrow> drop_bit 120 a = 0xff"

definition listenable :: "ip_addr \<Rightarrow> bool" where
  "listenable a =
     (case a of
        V4 b \<Rightarrow> \<not> v4_is_loopback b \<and> b \<noteq> 0 \<and> \<not> v4_is_multicast b \<and> \<not> v4_is_link_local b
      | V6 b \<Rightarrow> b \<noteq> 1 \<and> b \<noteq> 0 \<and> \<not> v6_is_multicast b \<and>
                (word_of_nat (segments b ! 0) :: u16) AND 0xffc0 \<noteq> 0xfe80)"

definition default_view :: view where
  "default_view = \<lparr>listen = [], prefixes = []\<rparr>"

definition parse_entry :: "string \<Rightarrow> (ip_addr \<times> u8) option" where
  "parse_entry entry =
     (case split_once CHR ''/'' entry of
        None \<Rightarrow> None
      | Some (a, l) \<Rightarrow>
          (case parse_ip a of
             None \<Rightarrow> None
           | Some a \<Rightarrow>
               (case parse_u8 l of
                  None \<Rightarrow> None
                | Some len \<Rightarrow>
                    if len = 0 \<or> (if is_ipv4 a then 32 else 128) < len then None else Some (a, len))))"

definition add_entry :: "ip_addr \<Rightarrow> u8 \<Rightarrow> view \<Rightarrow> view" where
  "add_entry a len v =
     (let v = v\<lparr>prefixes := prefixes v @ [prefix_new a len]\<rparr>
      in if listenable a \<and> a \<notin> set (listen v) then v\<lparr>listen := listen v @ [a]\<rparr> else v)"

fun add_entries :: "string list \<Rightarrow> view \<Rightarrow> unit + view" where
  "add_entries [] v = Inr v"
| "add_entries (e # es) v =
     (case parse_entry e of None \<Rightarrow> Inl () | Some (a, len) \<Rightarrow> add_entries es (add_entry a len v))"

definition view_from_status :: "(string \<Rightarrow> session_status option) \<Rightarrow> string \<Rightarrow> unit + view" where
  "view_from_status from_str json =
     (case from_str json of
        None \<Rightarrow> Inl ()
      | Some st \<Rightarrow>
          if schema_version st \<noteq> SESSION_SCHEMA then Inl ()
          else (case primary_connection (network st) of
                  None \<Rightarrow> Inr default_view
                | Some p \<Rightarrow> add_entries (addresses p) default_view))"

definition canonical :: "ip_addr \<Rightarrow> ip_addr" where
  "canonical a = (case a of V6 b \<Rightarrow> (case to_ipv4_mapped b of Some v \<Rightarrow> V4 v | None \<Rightarrow> a) | V4 _ \<Rightarrow> a)"

definition on_link :: "view \<Rightarrow> ip_addr \<Rightarrow> bool" where
  "on_link v source \<longleftrightarrow> list_ex (\<lambda>p. prefix_contains p (canonical source)) (prefixes v)"

definition endpoint :: "socket_addr \<Rightarrow> string" where
  "endpoint local =
     (case ip local of
        V4 a \<Rightarrow> display_v4 a @ '':'' @ decimal (unat (port local))
      | V6 a \<Rightarrow> ''['' @ display_v6 a @ '']:'' @ decimal (unat (port local)))"

section \<open>Masks\<close>

lemma bit_mask_bits:
  "n \<le> LENGTH('a) \<Longrightarrow> bit (mask_bits (word_of_nat n) :: 'a::len word) i \<longleftrightarrow> n \<le> i \<and> i < LENGTH('a)"
  if "LENGTH('a) < 2 ^ 32"
  using that by (auto simp: mask_bits_def unat_of_nat bit_simps)

lemma masked_eq:
  fixes a b :: "'a::len word"
  assumes "n \<le> LENGTH('a)" "LENGTH('a) < 2 ^ 32"
  shows "a AND mask_bits (word_of_nat n) = b AND mask_bits (word_of_nat n) \<longleftrightarrow> drop_bit n a = drop_bit n b"
proof
  assume eq: "a AND mask_bits (word_of_nat n) = b AND mask_bits (word_of_nat n)"
  show "drop_bit n a = drop_bit n b"
  proof (rule bit_word_eqI)
    fix i assume "i < LENGTH('a)"
    show "bit (drop_bit n a) i = bit (drop_bit n b) i"
      using arg_cong [OF eq, of "\<lambda>w. bit w (n + i)"] assms
      by (auto simp: bit_and_iff bit_mask_bits bit_drop_bit_eq dest: bit_imp_le_length)
  qed
next
  assume eq: "drop_bit n a = drop_bit n b"
  show "a AND mask_bits (word_of_nat n) = b AND mask_bits (word_of_nat n)"
  proof (rule bit_word_eqI)
    fix i assume "i < LENGTH('a)"
    show "bit (a AND mask_bits (word_of_nat n)) i = bit (b AND mask_bits (word_of_nat n)) i"
      using arg_cong [OF eq, of "\<lambda>w. bit w (i - n)"] assms
      by (auto simp: bit_and_iff bit_mask_bits bit_drop_bit_eq)
  qed
qed

lemma sub_ucast_len: "unat (len :: u8) \<le> m \<Longrightarrow> m < 256 \<Longrightarrow> (word_of_nat m :: u32) - ucast len = word_of_nat (m - unat len)"
proof -
  assume "unat len \<le> m" "m < 256"
  moreover have "unat (ucast len :: u32) = unat len"
    using unat_u8_lt [of len] by (simp add: unsigned_ucast_eq take_bit_nat_eq_self)
  ultimately show ?thesis by (intro word_unat_eq_iff [THEN iffD2]) (simp add: unat_of_nat unat_sub_if')
qed

text \<open>A prefix contains exactly the addresses of its family that agree with it on the leading bits.\<close>

definition same_prefix :: "nat \<Rightarrow> ip_addr \<Rightarrow> ip_addr \<Rightarrow> bool" where
  "same_prefix n a b \<longleftrightarrow>
     (case (a, b) of
        (V4 x, V4 y) \<Rightarrow> unat x div 2 ^ (32 - n) = unat y div 2 ^ (32 - n)
      | (V6 x, V6 y) \<Rightarrow> unat x div 2 ^ (128 - n) = unat y div 2 ^ (128 - n)
      | _ \<Rightarrow> False)"

lemma drop_bit_eq_iff: "drop_bit n a = drop_bit n b \<longleftrightarrow> unat a div 2 ^ n = unat b div 2 ^ n" for a b :: "'a::len word"
proof -
  have "unat (drop_bit n w) = unat w div 2 ^ n" for w :: "'a word"
    using unsigned_less [of w] by (subst unsigned_drop_bit_eq) (simp add: drop_bit_eq_div take_bit_nat_eq_self)
  then show ?thesis by (metis word_unat_eq_iff)
qed

lemma prefix_contains_iff:
  assumes "unat len \<le> (if is_ipv4 a then 32 else 128)"
  shows "prefix_contains (prefix_new a len) b \<longleftrightarrow> same_prefix (unat len) a b"
proof (cases a; cases b)
  fix x y assume V4: "a = V4 x" "b = V4 y"
  then have len: "unat len \<le> 32" using assms by (simp add: is_ipv4_def)
  show ?thesis
    using V4 sub_ucast_len [OF len] masked_eq [of "32 - unat len" y x]
    by (auto simp: prefix_contains_def prefix_new_def mask_ip_def is_ipv4_def same_prefix_def drop_bit_eq_iff)
next
  fix x y assume V6: "a = V6 x" "b = V6 y"
  then have len: "unat len \<le> 128" using assms by (simp add: is_ipv4_def)
  show ?thesis
    using V6 sub_ucast_len [OF len] masked_eq [of "128 - unat len" y x]
    by (auto simp: prefix_contains_def prefix_new_def mask_ip_def is_ipv4_def same_prefix_def drop_bit_eq_iff)
qed (auto simp: prefix_contains_def prefix_new_def mask_ip_def is_ipv4_def same_prefix_def)

section \<open>Entries\<close>

lemma parse_entry_bounds:
  assumes "parse_entry e = Some (a, len)"
  shows "1 \<le> unat len" "unat len \<le> (if is_ipv4 a then 32 else 128)"
  using assms by (auto simp: parse_entry_def word_less_nat_alt unat_gt_0 not_less
      split: option.splits prod.splits if_splits) (metis One_nat_def Suc_leI unat_gt_0)+

lemma add_entry_simps [simp]:
  "prefixes (add_entry a len v) = prefixes v @ [prefix_new a len]"
  "listen (add_entry a len v) = (if listenable a \<and> a \<notin> set (listen v) then listen v @ [a] else listen v)"
  by (simp_all add: add_entry_def Let_def)

lemma add_entries_spec:
  "add_entries es v = (if list_ex (\<lambda>e. parse_entry e = None) es then Inl ()
     else Inr (fold (\<lambda>e. case_prod add_entry (the (parse_entry e))) es v))"
  by (induction es arbitrary: v) (auto split: option.splits)

lemma fold_entries:
  "set (prefixes (fold (\<lambda>e. case_prod add_entry (f e)) es v)) = set (prefixes v) \<union> (\<lambda>e. case_prod prefix_new (f e)) ` set es"
  "set (listen (fold (\<lambda>e. case_prod add_entry (f e)) es v)) = set (listen v) \<union> {a \<in> (\<lambda>e. fst (f e)) ` set es. listenable a}"
  "distinct (listen v) \<Longrightarrow> distinct (listen (fold (\<lambda>e. case_prod add_entry (f e)) es v))"
  by (induction es arbitrary: v) (auto simp: case_prod_unfold split: if_splits)

lemma parse_entry_printed:
  assumes "1 \<le> unat len" "unat len \<le> (if is_ipv4 a then 32 else 128)"
  shows "parse_entry (display_ip a @ ''/'' @ decimal (unat len)) = Some (a, len)"
proof -
  have "CHR ''/'' \<notin> set (display_ip a)" by (rule display_ip_notin) (simp_all add: to_digit_def)
  then have "split_once CHR ''/'' (display_ip a @ ''/'' @ decimal (unat len)) = Some (display_ip a, decimal (unat len))"
    by (simp add: split_once_Some)
  moreover have "len \<noteq> 0" using assms(1) by auto
  ultimately show ?thesis
    using assms(2) by (simp add: parse_entry_def ip_text.scan_print parse_u8_decimal word_less_nat_alt not_less split: if_splits)
qed

section \<open>Properties\<close>

definition status_entries :: "session_status \<Rightarrow> string list" where
  "status_entries st = (case primary_connection (network st) of None \<Rightarrow> [] | Some p \<Rightarrow> addresses p)"

lemma view_from_status_entries:
  "view_from_status from_str json =
     (case from_str json of
        None \<Rightarrow> Inl ()
      | Some st \<Rightarrow> if schema_version st = ''0.4'' then add_entries (status_entries st) default_view else Inl ())"
  by (simp add: view_from_status_def SESSION_SCHEMA_def status_entries_def split: option.splits)

lemma view_exact:
  assumes "view_from_status from_str json = Inr v" "from_str json = Some st"
  shows "distinct (listen v) \<and>
    set (listen v) = {a. listenable a \<and> (\<exists>e \<in> set (status_entries st). \<exists>len. parse_entry e = Some (a, len))} \<and>
    (on_link v src \<longleftrightarrow> (\<exists>e \<in> set (status_entries st). \<exists>a len. parse_entry e = Some (a, len) \<and> 1 \<le> unat len \<and>
       same_prefix (unat len) a (canonical src)))"
proof -
  have spec: "distinct (listen v) \<and>
      set (listen v) = {a. listenable a \<and> (\<exists>e \<in> set es. \<exists>len. parse_entry e = Some (a, len))} \<and>
      (\<forall>src. on_link v src \<longleftrightarrow> (\<exists>e \<in> set es. \<exists>a len. parse_entry e = Some (a, len) \<and> 1 \<le> unat len \<and>
         same_prefix (unat len) a (canonical src)))"
    if "add_entries es default_view = Inr v" and all: "\<forall>e \<in> set es. parse_entry e \<noteq> None" for es
  proof -
    let ?f = "\<lambda>e. the (parse_entry e)"
    have v: "set (prefixes v) = (\<lambda>e. case_prod prefix_new (?f e)) ` set es"
      "set (listen v) = {a \<in> (\<lambda>e. fst (?f e)) ` set es. listenable a}" "distinct (listen v)"
      using that fold_entries [where f = ?f and es = es and v = default_view]
      by (auto simp: add_entries_spec default_view_def list_ex_iff split: if_splits)
    have "set (listen v) = {a. listenable a \<and> (\<exists>e \<in> set es. \<exists>len. parse_entry e = Some (a, len))}"
      using all unfolding v(2) by force
    moreover have "on_link v src \<longleftrightarrow> (\<exists>e \<in> set es. prefix_contains (case_prod prefix_new (?f e)) (canonical src))" for src
      unfolding on_link_def list_ex_iff v(1) by auto
    moreover have "prefix_contains (case_prod prefix_new (?f e)) c \<longleftrightarrow> (\<exists>a len. parse_entry e = Some (a, len) \<and>
        1 \<le> unat len \<and> same_prefix (unat len) a c)" if "e \<in> set es" for e c
    proof -
      obtain a len where e: "parse_entry e = Some (a, len)" 
        using all \<open>e \<in> set es\<close> by (cases "parse_entry e") auto
      then show ?thesis using parse_entry_bounds [OF e] prefix_contains_iff by simp
    qed
    ultimately show ?thesis using v(3) by auto
  qed
  have "add_entries (status_entries st) default_view = Inr v"
    using assms by (simp add: view_from_status_entries split: if_splits)
  moreover from this have "\<forall>e \<in> set (status_entries st). parse_entry e \<noteq> None"
    by (auto simp: add_entries_spec list_ex_iff split: if_splits)
  ultimately show ?thesis using spec by blast
qed

text \<open>C27: the network view is exact.  A source is on-link just if it shares the leading bits of some listed
  address of its family, over at least one bit, and the listeners are the listed addresses, without
  repetition, that are neither loopback, unspecified, multicast nor link-local; without a primary
  connection there are none.\<close>

theorem network_view_exact:
  assumes "view_from_status from_str json = Inr v" "from_str json = Some st"
  shows "distinct (listen v) \<and>
    set (listen v) = {a. listenable a \<and> (\<exists>e \<in> set (status_entries st). \<exists>len. parse_entry e = Some (a, len))} \<and>
    (on_link v src \<longleftrightarrow> (\<exists>e \<in> set (status_entries st). \<exists>a len. parse_entry e = Some (a, len) \<and> 1 \<le> unat len \<and>
       same_prefix (unat len) a (canonical src)))"
  by (rule view_exact [OF assms])

definition demo_status :: "string \<Rightarrow> session_status option" where
  "demo_status json = Some \<lparr>schema_version = ''0.4'', network = \<lparr>primary_connection =
     Some \<lparr>addresses = [display_ip (V4 0xc0a80102) @ ''/'' @ decimal (unat (24 :: u8))]\<rparr>\<rparr>\<rparr>"

theorem network_view_exact_witness:
  "\<exists>v st. view_from_status demo_status [] = Inr v \<and> demo_status [] = Some st \<and> distinct (listen v) \<and>
    set (listen v) = {a. listenable a \<and> (\<exists>e \<in> set (status_entries st). \<exists>len. parse_entry e = Some (a, len))}"
proof -
  obtain st where st: "demo_status [] = Some st" by (simp add: demo_status_def)
  have "parse_entry (display_ip (V4 0xc0a80102) @ ''/'' @ decimal (unat (24 :: u8))) = Some (V4 0xc0a80102, 24)"
    by (rule parse_entry_printed) (simp_all add: is_ipv4_def)
  then obtain v where v: "view_from_status demo_status [] = Inr v"
    by (simp add: view_from_status_entries demo_status_def status_entries_def)
  from network_view_exact [OF v st] v st show ?thesis by blast
qed

text \<open>The network view fails closed: it is refused exactly if the status does not decode, has another schema,
  or has an address entry that is malformed or has a prefix of no bits.\<close>

theorem network_view_fails_closed:
  "view_from_status from_str json = Inl () \<longleftrightarrow>
     (case from_str json of
        None \<Rightarrow> True
      | Some st \<Rightarrow> if schema_version st = ''0.4'' then (\<exists>e \<in> set (status_entries st). parse_entry e = None) else True)"
  by (auto simp: view_from_status_entries add_entries_spec list_ex_iff split: option.splits)

text \<open>An address and prefix length, written the way the network observer writes them, is read back by the
  remote service as the same address and length.\<close>

theorem printed_entry_understood:
  assumes "1 \<le> unat len" "unat len \<le> (if is_ipv4 a then 32 else 128)"
  shows "parse_entry (display_ip a @ ''/'' @ decimal (unat len)) = Some (a, len)"
  by (rule parse_entry_printed [OF assms])

theorem printed_entry_understood_witness:
  "parse_entry (display_ip (V4 0xc0a80102) @ ''/'' @ decimal (unat (24 :: u8))) = Some (V4 0xc0a80102, 24)"
  by (rule printed_entry_understood) (simp_all add: is_ipv4_def)

text \<open>The endpoint text that requests must name determines the listener: different addresses or ports never
  have the same \<^verbatim>\<open>Host\<close> value.\<close>

theorem endpoint_determines_listener:
  "endpoint a = endpoint b \<longleftrightarrow> a = b"
proof
  have colon: "CHR '':'' \<notin> set (display_v4 x)" for x by (rule display_v4_notin) (simp_all add: to_digit_punct)
  have bracket: "CHR '']'' \<notin> set (display_v6 x)" for x by (rule display_v6_notin) (simp_all add: to_digit_def)
  have v4: "split_once CHR '':'' (endpoint s) = Some (display_v4 x, decimal (unat (port s)))" if "ip s = V4 x" for s x
    using colon that by (simp add: endpoint_def split_once_Some)
  have v6: "split_once CHR '']'' (endpoint s) = Some (CHR ''['' # display_v6 x, CHR '':'' # decimal (unat (port s)))"
    if "ip s = V6 x" for s x using bracket that by (simp add: endpoint_def split_once_Some)
  have first: "take 1 (endpoint s) = ''['' \<longleftrightarrow> \<not> is_ipv4 (ip s)" for s
  proof (cases "ip s")
    case (V4 x)
    have "CHR ''['' \<notin> set (display_v4 x)" by (rule display_v4_notin) (simp_all add: to_digit_def)
    then show ?thesis using V4 by (cases "display_v4 x") (auto simp: endpoint_def is_ipv4_def)
  qed (simp add: endpoint_def is_ipv4_def)
  assume eq: "endpoint a = endpoint b"
  then have "is_ipv4 (ip a) = is_ipv4 (ip b)" using first by metis
  moreover have "x = y" if "display_v4 x = display_v4 y" for x y using that ip_text.print_inj [of "V4 x" "V4 y"]
    by (simp add: display_ip_def)
  moreover have "x = y" if "display_v6 x = display_v6 y" for x y using that ip_text.print_inj [of "V6 x" "V6 y"]
    by (simp add: display_ip_def)
  ultimately have "ip a = ip b \<and> decimal (unat (port a)) = decimal (unat (port b))"
    using eq v4 [of a] v4 [of b] v6 [of a] v6 [of b]
    by (cases "ip a"; cases "ip b") (auto simp: is_ipv4_def)
  then show "a = b" by (intro socket_addr.equality) (simp_all add: decimal_inj word_unat_eq_iff)
qed simp

end
