(* ===== verification/Controller.thy ===== *)
theory Controller
  imports Network
begin

text \<open>
  Exposure of the remote service (\<^verbatim>\<open>src/remoted/src/controller.rs\<close>) and the admission of connections
  (\<^verbatim>\<open>src/remoted/src/server.rs\<close>): the published network view with its generation, the listeners, the marker
  file, and the loop that reconciles them with Session1.

  Operating-system outcomes (whether an address binds, whether the marker file can be created or removed)
  are fields of \<open>controller_env\<close>, indexed by a count of calls.  Instants are milliseconds.  The accept
  loops are tasks: aborting one does not stop a check that it is already making, so every loop ever
  started stays a possible source of admissions in \<open>remote_step\<close>.
\<close>

section \<open>The gate\<close>

definition DEBOUNCE :: nat where "DEBOUNCE = 500"
definition RECONCILE :: nat where "RECONCILE = 60000"
definition STALE_AFTER :: nat where "STALE_AFTER = 120000"
definition RETRY :: nat where "RETRY = 5000"

record published_view =
  pub_generation :: u64
  pub_view :: view

record gate =
  current :: "published_view option"
  generation :: u64
  gate_poisoned :: bool
  withdrawals :: nat  \<comment> \<open>only recorded: how often the generation was advanced\<close>

definition gate_new :: gate where
  "gate_new = \<lparr>current = None, generation = 0, gate_poisoned = False, withdrawals = 0\<rparr>"

definition gate_withdraw :: "gate \<Rightarrow> gate" where
  "gate_withdraw g =
     (let g = (if gate_poisoned g then g else g\<lparr>current := None\<rparr>) 
      in g\<lparr>generation := generation g + 1, withdrawals := withdrawals g + 1\<rparr>)"

definition publish :: "view \<Rightarrow> gate \<Rightarrow> u64 \<times> gate" where
  "publish v g =
     (let gen = generation g
      in (gen, if gate_poisoned g then g else g\<lparr>current := Some \<lparr>pub_generation = gen, pub_view = v\<rparr>\<rparr>))"

definition admits :: "gate \<Rightarrow> u64 \<Rightarrow> ip_addr \<Rightarrow> bool" where
  "admits g gen source \<longleftrightarrow>
     \<not> gate_poisoned g \<and>
     (case current g of None \<Rightarrow> False | Some p \<Rightarrow> pub_generation p = gen \<and> on_link (pub_view p) source)"

definition is_current :: "gate \<Rightarrow> u64 \<Rightarrow> bool" where
  "is_current g gen \<longleftrightarrow> generation g = gen"

section \<open>The controller\<close>

record controller_env =
  binds :: "nat \<Rightarrow> ip_addr \<Rightarrow> bool"
  creates_marker :: "nat \<Rightarrow> bool"
  removes_marker :: "nat \<Rightarrow> bool"

record controller =
  gate_of :: gate
  bound :: "socket_addr list"             \<comment> \<open>bound, not yet accepting\<close>
  tasks :: "(socket_addr \<times> u64) list"     \<comment> \<open>accept loops with their generation\<close>
  marker :: bool
  published :: "(view \<times> bool) option"
  confirmed_at :: "nat option"
  calls :: nat

definition called :: "controller \<Rightarrow> controller" where
  "called c = c\<lparr>calls := calls c + 1\<rparr>"

text \<open>\<^verbatim>\<open>Marker::create\<close> and \<^verbatim>\<open>Marker::remove\<close>.\<close>

definition marker_create :: "controller_env \<Rightarrow> controller \<Rightarrow> bool \<times> controller" where
  "marker_create env c =
     (if creates_marker env (calls c) then (True, (called c)\<lparr>marker := True\<rparr>) else (False, called c))"

definition marker_remove :: "controller_env \<Rightarrow> controller \<Rightarrow> controller" where
  "marker_remove env c = (if removes_marker env (calls c) then (called c)\<lparr>marker := False\<rparr> else called c)"

text \<open>The listeners of \<^verbatim>\<open>TcpListeners\<close>: one per address on the port, those that bind.\<close>

definition listeners_bind :: "controller_env \<Rightarrow> ip_addr list \<Rightarrow> controller \<Rightarrow> socket_addr list \<times> controller" where
  "listeners_bind env as c =
     (let b = bound c @ map (\<lambda>a. \<lparr>ip = a, port = PORT\<rparr>) (filter (binds env (calls c)) as)
      in (b, (called c)\<lparr>bound := b\<rparr>))"

definition listeners_serve :: "u64 \<Rightarrow> controller \<Rightarrow> controller" where
  "listeners_serve gen c = c\<lparr>tasks := tasks c @ map (\<lambda>l. (l, gen)) (bound c), bound := []\<rparr>"

definition listeners_close :: "controller \<Rightarrow> controller" where
  "listeners_close c = c\<lparr>tasks := [], bound := []\<rparr>"

definition controller_new :: "controller_env \<Rightarrow> gate \<Rightarrow> bool \<Rightarrow> controller" where
  "controller_new env g left_over =
     marker_remove env \<lparr>gate_of = g, bound = [], tasks = [], marker = left_over, published = None,
       confirmed_at = None, calls = 0\<rparr>"

definition withdraw :: "controller_env \<Rightarrow> controller \<Rightarrow> controller" where
  "withdraw env c =
     (let c = marker_remove env c;
          c = c\<lparr>gate_of := gate_withdraw (gate_of c)\<rparr>;
          c = listeners_close c
      in c\<lparr>published := None, confirmed_at := None\<rparr>)"

definition establish :: "controller_env \<Rightarrow> view \<Rightarrow> nat \<Rightarrow> controller \<Rightarrow> controller" where
  "establish env v now c =
     (let (b, c) = listeners_bind env (listen v) c;
          complete = (length b = length (listen v));
          c = c\<lparr>confirmed_at := Some now\<rparr>
      in if b = [] then (listeners_close c)\<lparr>published := Some (v, complete)\<rparr>
         else
           let (gen, g) = publish v (gate_of c);
               c = listeners_serve gen (c\<lparr>gate_of := g\<rparr>);
               (made, c) = marker_create env c
           in if \<not> made then withdraw env c else c\<lparr>published := Some (v, complete)\<rparr>)"

text \<open>The second component is the outcome: \<open>False\<close> is \<^verbatim>\<open>Err(())\<close>.\<close>

definition apply_refresh :: "controller_env \<Rightarrow> unit + view \<Rightarrow> nat \<Rightarrow> controller \<Rightarrow> controller \<times> bool" where
  "apply_refresh env r now c =
     (case r of
        Inr v \<Rightarrow>
          if (case published c of None \<Rightarrow> False | Some (w, complete) \<Rightarrow> complete \<and> w = v)
          then (c\<lparr>confirmed_at := Some now\<rparr>, True)
          else (establish env v now (withdraw env c), True)
      | Inl _ \<Rightarrow>
          if (case confirmed_at c of None \<Rightarrow> True | Some t \<Rightarrow> STALE_AFTER \<le> now - t)
          then (withdraw env c, False) else (c, False))"

section \<open>Runs\<close>

text \<open>At most this many connections are served at a time: each holds one permit.\<close>

definition MAX_CONNECTIONS :: nat where "MAX_CONNECTIONS = 64"

text \<open>The loop with its surroundings.  \<open>next_at\<close> is when the next refresh starts; \<open>clock\<close> is the present;
  \<open>loops\<close> are all accept loops ever started; \<open>connections\<close> are those being served, each with its source
  and the generation of its loop; \<open>fetched\<close>, only recorded, is the last view that a completed refresh
  delivered.  A notification withdraws at once; further ones within the debounce interval only extend it; a
  failed source of notifications ends the loop.  A refresh that a notification interrupts has no step of its
  own.  Each call of \<^verbatim>\<open>apply\<close> is one step: what is said of states holds between the steps of the loop.\<close>

record remote =
  ctl :: controller
  clock :: nat
  next_at :: nat
  debouncing :: bool
  running :: bool
  loops :: "(socket_addr \<times> u64) list"
  connections :: "(ip_addr \<times> u64) list"
  fetched :: "view option"

definition start_loops :: "remote \<Rightarrow> controller \<Rightarrow> remote" where
  "start_loops r c = r\<lparr>ctl := c, loops := loops r @ tasks c\<rparr>"

text \<open>An accept loop with a connection from \<open>source\<close>: it is dropped if the gate does not admit it, or if there
  is no permit left.\<close>

definition accept_connection :: "u64 \<Rightarrow> ip_addr \<Rightarrow> remote \<Rightarrow> remote" where
  "accept_connection gen source r =
     (if \<not> admits (gate_of (ctl r)) gen source then r
      else if \<not> length (connections r) < MAX_CONNECTIONS then r
      else r\<lparr>connections := (source, gen) # connections r\<rparr>)"

text \<open>The task of a connection: it ends when its generation is no longer the present one, or when its work is
  done.\<close>

definition serve_connection :: "ip_addr \<times> u64 \<Rightarrow> bool \<Rightarrow> remote \<Rightarrow> remote" where
  "serve_connection k over r =
     (if \<not> is_current (gate_of (ctl r)) (snd k) \<or> over then r\<lparr>connections := remove1 k (connections r)\<rparr> else r)"

inductive remote_step :: "controller_env \<Rightarrow> (string \<Rightarrow> session_status option) \<Rightarrow> remote \<Rightarrow> remote \<Rightarrow> bool"
  for env from_str where
  tick: "clock r \<le> t \<Longrightarrow> remote_step env from_str r (r\<lparr>clock := t\<rparr>)"
| invalidated: "running r \<Longrightarrow> \<not> debouncing r \<or> next_at r \<le> clock r \<Longrightarrow>
    remote_step env from_str r (r\<lparr>ctl := withdraw env (ctl r), debouncing := True, next_at := clock r + DEBOUNCE\<rparr>)"
| burst: "running r \<Longrightarrow> debouncing r \<Longrightarrow> clock r \<le> next_at r \<Longrightarrow>
    remote_step env from_str r (r\<lparr>next_at := clock r + DEBOUNCE\<rparr>)"
| source_failed: "running r \<Longrightarrow> \<not> debouncing r \<or> next_at r \<le> clock r \<Longrightarrow>
    remote_step env from_str r (r\<lparr>ctl := withdraw env (ctl r), running := False\<rparr>)"
| burst_failed: "running r \<Longrightarrow> debouncing r \<Longrightarrow> clock r \<le> next_at r \<Longrightarrow>
    remote_step env from_str r (r\<lparr>running := False\<rparr>)"
| refreshed: "running r \<Longrightarrow> next_at r \<le> clock r \<Longrightarrow> view_from_status from_str json = Inr v \<Longrightarrow>
    apply_refresh env (Inr v) (clock r) (ctl r) = (c, True) \<Longrightarrow>
    remote_step env from_str r ((start_loops r c)\<lparr>next_at := clock r + RECONCILE, debouncing := False, fetched := Some v\<rparr>)"
| refresh_failed: "running r \<Longrightarrow> next_at r \<le> clock r \<Longrightarrow>
    apply_refresh env (Inl ()) (clock r) (ctl r) = (c, False) \<Longrightarrow>
    remote_step env from_str r (r\<lparr>ctl := c, next_at := clock r + RETRY, debouncing := False\<rparr>)"
| accepted: "(l, gen) \<in> set (loops r) \<Longrightarrow> remote_step env from_str r (accept_connection gen source r)"
| served: "remote_step env from_str r (serve_connection k over r)"

definition remote_init :: "controller_env \<Rightarrow> bool \<Rightarrow> nat \<Rightarrow> remote" where
  "remote_init env left_over t =
     \<lparr>ctl = controller_new env gate_new left_over, clock = t, next_at = t, debouncing = False, running = True,
      loops = [], connections = [], fetched = None\<rparr>"

inductive remote_run :: "controller_env \<Rightarrow> (string \<Rightarrow> session_status option) \<Rightarrow> remote \<Rightarrow> bool"
  for env from_str where
  init: "remote_run env from_str (remote_init env left_over t)"
| step: "remote_run env from_str r \<Longrightarrow> remote_step env from_str r r' \<Longrightarrow> remote_run env from_str r'"

section \<open>The invariant\<close>

text \<open>On the controller alone: \<open>fetched\<close> is the view it may expose.\<close>

definition exposed :: "controller \<Rightarrow> bool" where
  "exposed c \<longleftrightarrow> current (gate_of c) \<noteq> None"

definition controller_inv :: "view option \<Rightarrow> controller \<Rightarrow> bool" where
  "controller_inv f c \<longleftrightarrow>
     \<not> gate_poisoned (gate_of c) \<and> bound c = [] \<and>
     generation (gate_of c) = word_of_nat (withdrawals (gate_of c)) \<and>
     (\<forall>v complete. published c = Some (v, complete) \<longrightarrow> f = Some v) \<and>
     (\<forall>p. current (gate_of c) = Some p \<longrightarrow>
        pub_generation p = generation (gate_of c) \<and> (\<exists>complete. published c = Some (pub_view p, complete)) \<and>
        (\<forall>(l, gen) \<in> set (tasks c). gen = generation (gate_of c) \<and> ip l \<in> set (listen (pub_view p)) \<and> port l = PORT)) \<and>
     (\<not> exposed c \<longrightarrow> tasks c = []) \<and> (exposed c \<longrightarrow> marker c) \<and>
     (confirmed_at c = None \<longleftrightarrow> published c = None)"

definition withdrawn :: "controller \<Rightarrow> bool" where
  "withdrawn c \<longleftrightarrow> \<not> exposed c \<and> published c = None \<and> confirmed_at c = None \<and> tasks c = [] \<and> bound c = []"

lemma gate_of_marker [simp]:
  "gate_of (marker_remove env c) = gate_of c" "tasks (marker_remove env c) = tasks c" "bound (marker_remove env c) = bound c"
  "published (marker_remove env c) = published c" "confirmed_at (marker_remove env c) = confirmed_at c"
  by (simp_all add: marker_remove_def called_def)

lemma withdraw_spec:
  assumes "\<not> gate_poisoned (gate_of c)" "generation (gate_of c) = word_of_nat (withdrawals (gate_of c))"
  shows "withdrawn (withdraw env c)" "controller_inv f (withdraw env c)"
    "withdrawals (gate_of (withdraw env c)) = Suc (withdrawals (gate_of c))"
  using assms by (simp_all add: withdraw_def withdrawn_def controller_inv_def exposed_def gate_withdraw_def
      listeners_close_def Let_def)

lemma establish_spec:
  assumes inv: "controller_inv f c" and w: "withdrawn c"
  shows "controller_inv (Some v) (establish env v now c)"
    "withdrawals (gate_of c) \<le> withdrawals (gate_of (establish env v now c))"
proof -
  let ?b = "map (\<lambda>a. \<lparr>ip = a, port = PORT\<rparr>) (filter (binds env (calls c)) (listen v))"
  let ?c1 = "(called c)\<lparr>bound := ?b, confirmed_at := Some now\<rparr>"
  let ?g = "(gate_of c)\<lparr>current := Some \<lparr>pub_generation = generation (gate_of c), pub_view = v\<rparr>\<rparr>"
  let ?c2 = "listeners_serve (generation (gate_of c)) (?c1\<lparr>gate_of := ?g\<rparr>)"
  have c: "\<not> gate_poisoned (gate_of c)" "bound c = []" "tasks c = []" "published c = None"
    "generation (gate_of c) = word_of_nat (withdrawals (gate_of c))" "current (gate_of c) = None"
    using inv w by (auto simp: controller_inv_def withdrawn_def exposed_def)
  have eq: "establish env v now c =
     (if ?b = [] then (listeners_close ?c1)\<lparr>published := Some (v, length ?b = length (listen v))\<rparr>
      else if creates_marker env (calls ?c2)
      then (called ?c2)\<lparr>marker := True, published := Some (v, length ?b = length (listen v))\<rparr>
      else withdraw env (called ?c2))"
    using c(1,2) by (simp add: establish_def listeners_bind_def publish_def marker_create_def called_def Let_def)
  have "controller_inv (Some v) ((called ?c2)\<lparr>marker := True, published := Some (v, x)\<rparr>)" for x
    using c by (auto simp: controller_inv_def exposed_def listeners_serve_def called_def)
  moreover have "controller_inv (Some v) ((listeners_close ?c1)\<lparr>published := Some (v, x)\<rparr>)" for x
    using c by (auto simp: controller_inv_def exposed_def listeners_close_def called_def)
  moreover have "controller_inv (Some v) (withdraw env (called ?c2))"
    using c by (intro withdraw_spec) (simp_all add: called_def listeners_serve_def)
  ultimately show "controller_inv (Some v) (establish env v now c)" unfolding eq by presburger
  have "withdrawals (gate_of (withdraw env (called ?c2))) = Suc (withdrawals (gate_of c))"
    using c withdraw_spec(3) [of "called ?c2" env] by (simp add: called_def listeners_serve_def)
  then show "withdrawals (gate_of c) \<le> withdrawals (gate_of (establish env v now c))"
    unfolding eq by (simp add: called_def listeners_serve_def listeners_close_def)
qed

lemma establish_tasks:
  assumes inv: "controller_inv f c" and w: "withdrawn c"
  shows "confirmed_at (establish env v now c) \<in> {None, Some now}"
  using w by (auto simp: establish_def Let_def listeners_bind_def publish_def marker_create_def
      withdraw_def listeners_close_def listeners_serve_def called_def split: prod.splits)

text \<open>What one applied refresh does, on every branch.\<close>

lemma apply_refresh_inv:
  assumes inv: "controller_inv f c" and app: "apply_refresh env r now c = (c', good)"
  shows "controller_inv (case r of Inr v \<Rightarrow> Some v | Inl _ \<Rightarrow> f) c'"
    "withdrawals (gate_of c) \<le> withdrawals (gate_of c')"
    "withdrawals (gate_of c') = withdrawals (gate_of c) \<Longrightarrow> tasks c' = tasks c \<and> gate_of c' = gate_of c"
    "confirmed_at c' \<in> {None, Some now} \<or> r = Inl () \<and> c' = c \<and> (\<exists>t. confirmed_at c = Some t \<and> now - t < STALE_AFTER)"
proof -
  have g: "\<not> gate_poisoned (gate_of c)" "generation (gate_of c) = word_of_nat (withdrawals (gate_of c))"
    using inv by (auto simp: controller_inv_def)
  note w = withdraw_spec [OF g]
  have e: "controller_inv (Some v) (establish env v now (withdraw env c))"
    "withdrawals (gate_of (withdraw env c)) \<le> withdrawals (gate_of (establish env v now (withdraw env c)))"
    "confirmed_at (establish env v now (withdraw env c)) \<in> {None, Some now}" for v
    by (rule establish_spec [OF w(2,1)] establish_tasks [OF w(2,1)])+
  have "controller_inv (case r of Inr v \<Rightarrow> Some v | Inl _ \<Rightarrow> f) c' \<and>
    withdrawals (gate_of c) \<le> withdrawals (gate_of c') \<and>
    (withdrawals (gate_of c') = withdrawals (gate_of c) \<longrightarrow> tasks c' = tasks c \<and> gate_of c' = gate_of c) \<and>
    (confirmed_at c' \<in> {None, Some now} \<or> r = Inl () \<and> c' = c \<and> (\<exists>t. confirmed_at c = Some t \<and> now - t < STALE_AFTER))"
  proof (cases r)
    case (Inl u)
    show ?thesis
      using app inv w(2) [of f] w(3) [of env] w(1) [of env]
      by (auto simp: apply_refresh_def Inl withdrawn_def split: option.splits if_splits)
  next
    case (Inr v)
    show ?thesis
    proof (cases "published c = Some (v, True)")
      case True
      then show ?thesis using app inv by (auto simp: apply_refresh_def Inr controller_inv_def exposed_def)
    next
      case False
      then have "c' = establish env v now (withdraw env c)"
        using app by (auto simp: apply_refresh_def Inr split: option.splits prod.splits if_splits)
      then show ?thesis using e [of v] w(3) [of env] by (auto simp: Inr)
    qed
  qed
  then show "controller_inv (case r of Inr v \<Rightarrow> Some v | Inl _ \<Rightarrow> f) c'"
    "withdrawals (gate_of c) \<le> withdrawals (gate_of c')"
    "withdrawals (gate_of c') = withdrawals (gate_of c) \<Longrightarrow> tasks c' = tasks c \<and> gate_of c' = gate_of c"
    "confirmed_at c' \<in> {None, Some now} \<or> r = Inl () \<and> c' = c \<and> (\<exists>t. confirmed_at c = Some t \<and> now - t < STALE_AFTER)"
    by auto
qed

text \<open>On runs: a loop of the present count of withdrawals is one that is still accepting, and an exposed
  view is due for confirmation soon enough.\<close>

definition loop_inv :: "controller \<Rightarrow> socket_addr \<times> u64 \<Rightarrow> bool" where
  "loop_inv c k \<longleftrightarrow>
     (\<exists>n. n \<le> withdrawals (gate_of c) \<and> snd k = word_of_nat n \<and> (n = withdrawals (gate_of c) \<longrightarrow> k \<in> set (tasks c)))"

definition connection_inv :: "controller \<Rightarrow> ip_addr \<times> u64 \<Rightarrow> bool" where
  "connection_inv c k \<longleftrightarrow>
     (\<exists>n. n \<le> withdrawals (gate_of c) \<and> snd k = word_of_nat n \<and>
        (n = withdrawals (gate_of c) \<longrightarrow> admits (gate_of c) (snd k) (fst k)))"

definition fresh :: "remote \<Rightarrow> bool" where
  "fresh r \<longleftrightarrow>
     (\<forall>t. confirmed_at (ctl r) = Some t \<longrightarrow> t \<le> clock r \<and> next_at r \<le> t + STALE_AFTER + RETRY)"

definition remote_inv :: "(string \<Rightarrow> session_status option) \<Rightarrow> remote \<Rightarrow> bool" where
  "remote_inv from_str r \<longleftrightarrow>
     controller_inv (fetched r) (ctl r) \<and> list_all (loop_inv (ctl r)) (loops r) \<and>
     list_all (connection_inv (ctl r)) (connections r) \<and> fresh r \<and>
     (debouncing r \<or> \<not> running r \<longrightarrow> withdrawn (ctl r)) \<and> length (connections r) \<le> MAX_CONNECTIONS \<and>
     (\<forall>v. fetched r = Some v \<longrightarrow> (\<exists>json. view_from_status from_str json = Inr v))"

lemma loop_inv_mono:
  assumes "loop_inv c k" "withdrawals (gate_of c) \<le> withdrawals (gate_of c')"
    "withdrawals (gate_of c') = withdrawals (gate_of c) \<Longrightarrow> tasks c' = tasks c \<and> gate_of c' = gate_of c"
  shows "loop_inv c' k"
  using assms unfolding loop_inv_def by (metis le_antisym le_trans)

lemma connection_inv_mono:
  assumes "connection_inv c k" "withdrawals (gate_of c) \<le> withdrawals (gate_of c')"
    "withdrawals (gate_of c') = withdrawals (gate_of c) \<Longrightarrow> tasks c' = tasks c \<and> gate_of c' = gate_of c"
  shows "connection_inv c' k"
  using assms unfolding connection_inv_def by (metis le_antisym le_trans)

lemma invs_mono:
  assumes "remote_inv from_str r" "withdrawals (gate_of (ctl r)) \<le> withdrawals (gate_of c)"
    "withdrawals (gate_of c) = withdrawals (gate_of (ctl r)) \<Longrightarrow> tasks c = tasks (ctl r) \<and> gate_of c = gate_of (ctl r)"
  shows "list_all (loop_inv c) (loops r)" "list_all (connection_inv c) (connections r)"
  using assms loop_inv_mono [OF _ assms(2,3)] connection_inv_mono [OF _ assms(2,3)]
  by (auto simp: remote_inv_def list_all_iff)

lemma loop_inv_tasks: "controller_inv f c \<Longrightarrow> k \<in> set (tasks c) \<Longrightarrow> loop_inv c k"
  unfolding controller_inv_def loop_inv_def exposed_def
  by (cases k; cases "current (gate_of c)") (auto intro!: exI [of _ "withdrawals (gate_of c)"])

lemma connection_inv_accepted:
  "controller_inv f c \<Longrightarrow> admits (gate_of c) gen source \<Longrightarrow> connection_inv c (source, gen)"
  unfolding controller_inv_def connection_inv_def admits_def
  by (auto split: option.splits intro!: exI [of _ "withdrawals (gate_of c)"])

lemma withdraw_remote:
  assumes "remote_inv from_str r"
  shows "controller_inv (fetched r) (withdraw env (ctl r))" "list_all (loop_inv (withdraw env (ctl r))) (loops r)"
    "list_all (connection_inv (withdraw env (ctl r))) (connections r)" "withdrawn (withdraw env (ctl r))"
proof -
  have g: "\<not> gate_poisoned (gate_of (ctl r))" "generation (gate_of (ctl r)) = word_of_nat (withdrawals (gate_of (ctl r)))"
    using assms by (auto simp: remote_inv_def controller_inv_def)
  note w = withdraw_spec [OF g]
  show "controller_inv (fetched r) (withdraw env (ctl r))" "withdrawn (withdraw env (ctl r))" by (rule w)+
  show "list_all (loop_inv (withdraw env (ctl r))) (loops r)" "list_all (connection_inv (withdraw env (ctl r))) (connections r)"
    using invs_mono [OF assms, of "withdraw env (ctl r)"] by (simp_all add: w(3))
qed

lemma apply_refresh_remote:
  assumes inv: "remote_inv from_str r" and app: "apply_refresh env rs (clock r) (ctl r) = (c, good)"
  shows "controller_inv (case rs of Inr v \<Rightarrow> Some v | Inl _ \<Rightarrow> fetched r) c"
    "list_all (loop_inv c) (loops r @ tasks c)" "list_all (connection_inv c) (connections r)"
    "fresh (r\<lparr>ctl := c, next_at := clock r + (if rs = Inl () then RETRY else RECONCILE)\<rparr>)"
proof -
  have i: "controller_inv (fetched r) (ctl r)" "fresh r" using inv by (auto simp: remote_inv_def)
  note a = apply_refresh_inv [OF i(1) app]
  show c: "controller_inv (case rs of Inr v \<Rightarrow> Some v | Inl _ \<Rightarrow> fetched r) c" by (rule a(1))
  show "list_all (loop_inv c) (loops r @ tasks c)" "list_all (connection_inv c) (connections r)"
    using invs_mono [OF inv a(2,3)] loop_inv_tasks [OF c] by (auto simp: list_all_iff)
  show "fresh (r\<lparr>ctl := c, next_at := clock r + (if rs = Inl () then RETRY else RECONCILE)\<rparr>)"
    using a(4) i(2) by (auto simp: fresh_def STALE_AFTER_def RETRY_def RECONCILE_def split: option.splits)
qed

lemma remote_step_inv:
  assumes "remote_step env from_str r r'" "remote_inv from_str r"
  shows "remote_inv from_str r'"
  using assms(1)
proof cases
  case (refreshed json v c)
  show ?thesis
    using assms(2) apply_refresh_remote [OF assms(2) refreshed(5)] refreshed
    by (auto simp: remote_inv_def start_loops_def fresh_def)
next
  case (refresh_failed c)
  show ?thesis
    using assms(2) apply_refresh_remote [OF assms(2) refresh_failed(4)] refresh_failed
    by (auto simp: remote_inv_def fresh_def)
next
  case (accepted l gen source)
  then show ?thesis
    using assms(2) by (auto simp: remote_inv_def fresh_def accept_connection_def intro: connection_inv_accepted)
next
  case (served k over)
  then show ?thesis
    using assms(2) set_remove1_subset [of k "connections r"]
    by (auto simp: remote_inv_def fresh_def list_all_iff length_remove1 serve_connection_def)
qed (use assms(2) withdraw_remote [OF assms(2), of env] in
  \<open>auto simp: remote_inv_def fresh_def withdrawn_def\<close>)

lemma remote_run_inv: "remote_run env from_str r \<Longrightarrow> remote_inv from_str r"
proof (induction rule: remote_run.induct)
  case (init left_over t)
  then show ?case
    by (simp add: remote_init_def remote_inv_def controller_new_def controller_inv_def gate_new_def exposed_def
        fresh_def)
next
  case (step r r')
  then show ?case by (blast intro: remote_step_inv)
qed

section \<open>The marker\<close>

lemma establish_marker:
  assumes "withdrawn c" "\<not> marker c" "\<And>n. removes_marker env n" "\<not> gate_poisoned (gate_of c)"
    "marker (establish env v now c)"
  shows "exposed (establish env v now c)"
  using assms by (auto simp: establish_def Let_def listeners_bind_def publish_def marker_create_def marker_remove_def
      withdraw_def listeners_close_def listeners_serve_def called_def exposed_def withdrawn_def
      split: prod.splits if_splits)

lemma establish_no_listeners:
  assumes "withdrawn c" "listen v = []"
  shows "\<not> exposed (establish env v now c)"
  using assms by (simp add: establish_def listeners_bind_def withdrawn_def exposed_def listeners_close_def called_def)

lemma withdraw_marker: "removes_marker env (calls c) \<Longrightarrow> \<not> marker (withdraw env c)"
  by (simp add: withdraw_def marker_remove_def listeners_close_def Let_def)

lemma apply_refresh_marker:
  assumes inv: "controller_inv f c" and all: "\<And>n. removes_marker env n" and m: "marker c \<Longrightarrow> exposed c"
    and app: "apply_refresh env rs now c = (c', good)" and m': "marker c'"
  shows "exposed c'"
proof -
  have g: "\<not> gate_poisoned (gate_of c)" "generation (gate_of c) = word_of_nat (withdrawals (gate_of c))"
    using inv by (auto simp: controller_inv_def)
  have p: "\<not> gate_poisoned (gate_of (withdraw env c))"
    using withdraw_spec(2) [OF g] by (auto simp: controller_inv_def)
  consider "c' = c" | t where "c' = c\<lparr>confirmed_at := t\<rparr>" | "c' = withdraw env c"
    | v where "c' = establish env v now (withdraw env c)"
    using app by (auto simp: apply_refresh_def split: sum.splits if_splits)
  then show ?thesis
  proof cases
    case 4
    then show ?thesis
      using establish_marker [OF withdraw_spec(1) [OF g] _ all p] withdraw_marker [OF all] m' by blast
  qed (use m m' withdraw_marker [OF all, of c] in \<open>auto simp: exposed_def\<close>)
qed

lemma remote_run_marker:
  assumes "remote_run env from_str r" "\<And>n. removes_marker env n" "marker (ctl r)"
  shows "exposed (ctl r)"
  using assms(1,3)
proof (induction rule: remote_run.induct)
  case (init left_over t)
  then show ?case using assms(2) by (simp add: remote_init_def controller_new_def marker_remove_def)
next
  case (step r r')
  have inv: "controller_inv (fetched r) (ctl r)" using remote_run_inv [OF step(1)] by (simp add: remote_inv_def)
  from step(2) show ?case
  proof cases
    case (refreshed json v c)
    then show ?thesis
      using apply_refresh_marker [OF inv assms(2) step.IH refreshed(5)] step.prems by (auto simp: start_loops_def)
  next
    case (refresh_failed c)
    then show ?thesis
      using apply_refresh_marker [OF inv assms(2) step.IH refresh_failed(4)] step.prems by auto
  qed (use step withdraw_marker [OF assms(2), of "ctl r"] in \<open>auto simp: accept_connection_def serve_connection_def split: if_splits\<close>)
qed

section \<open>Properties\<close>

subsection \<open>A run\<close>

text \<open>A device on 192.168.1.2/24 whose first refresh succeeds, and one neighbour that connects.\<close>

definition demo_env :: controller_env where
  "demo_env = \<lparr>binds = (\<lambda>_ _. True), creates_marker = (\<lambda>_. True), removes_marker = (\<lambda>_. True)\<rparr>"

definition demo_view :: view where
  "demo_view = \<lparr>listen = [V4 0xc0a80102], prefixes = [\<lparr>prefix_network = V4 0xc0a80100, prefix_length = 24\<rparr>]\<rparr>"

definition demo_listener :: socket_addr where "demo_listener = \<lparr>ip = V4 0xc0a80102, port = PORT\<rparr>"

definition demo_controller :: controller where
  "demo_controller = \<lparr>gate_of = \<lparr>current = Some \<lparr>pub_generation = 1, pub_view = demo_view\<rparr>, generation = 1,
     gate_poisoned = False, withdrawals = 1\<rparr>, bound = [], tasks = [(demo_listener, 1)], marker = True,
     published = Some (demo_view, True), confirmed_at = Some 0, calls = 4\<rparr>"

definition demo_remote :: remote where
  "demo_remote = \<lparr>ctl = demo_controller, clock = 0, next_at = 60000, debouncing = False, running = True,
     loops = [(demo_listener, 1)], connections = [], fetched = Some demo_view\<rparr>"

lemma demo_masks: "(0xc0a80102 :: u32) AND NOT (mask 8) = 0xc0a80100" "(0xc0a80103 :: u32) AND NOT (mask 8) = 0xc0a80100"
  by (simp_all add: mask_eq_exp_minus_1)

lemma demo_status_view: "view_from_status demo_status [] = Inr demo_view"
proof -
  have "parse_entry (display_ip (V4 0xc0a80102) @ ''/'' @ decimal (unat (24 :: u8))) = Some (V4 0xc0a80102, 24)"
    by (rule parse_entry_printed) (simp_all add: is_ipv4_def)
  moreover have "add_entry (V4 0xc0a80102) 24 default_view = demo_view"
    by (simp add: add_entry_def default_view_def demo_view_def prefix_new_def mask_ip_def mask_bits_def listenable_def
        v4_is_loopback_def v4_is_multicast_def v4_is_link_local_def Let_def demo_masks)
  ultimately show ?thesis
    by (simp add: view_from_status_def demo_status_def SESSION_SCHEMA_def)
qed

lemma demo_applied:
  "apply_refresh demo_env (Inr demo_view) 0 (controller_new demo_env gate_new False) = (demo_controller, True)"
  by (simp add: apply_refresh_def controller_new_def gate_new_def demo_env_def demo_controller_def demo_listener_def
      demo_view_def marker_remove_def called_def withdraw_def gate_withdraw_def listeners_close_def establish_def
      listeners_bind_def publish_def listeners_serve_def marker_create_def Let_def)

lemma demo_step: "remote_step demo_env demo_status (remote_init demo_env False 0) demo_remote"
proof -
  let ?r = "remote_init demo_env False 0"
  have "remote_step demo_env demo_status ?r
    ((start_loops ?r demo_controller)\<lparr>next_at := clock ?r + RECONCILE, debouncing := False, fetched := Some demo_view\<rparr>)"
    by (rule remote_step.refreshed [OF _ _ demo_status_view]) (simp_all add: remote_init_def demo_applied)
  also have "(start_loops ?r demo_controller)\<lparr>next_at := clock ?r + RECONCILE, debouncing := False, fetched := Some demo_view\<rparr>
    = demo_remote"
    by (simp add: remote_init_def start_loops_def demo_remote_def demo_controller_def RECONCILE_def)
  finally show ?thesis .
qed

lemma demo_remote_run: "remote_run demo_env demo_status demo_remote"
  by (rule remote_run.step [OF remote_run.init demo_step])

lemma demo_admits: "admits (gate_of demo_controller) 1 (V4 0xc0a80103)"
  by (simp add: admits_def demo_controller_def demo_view_def on_link_def prefix_contains_def canonical_def is_ipv4_def
      mask_ip_def mask_bits_def demo_masks)

lemma demo_run_connected: "remote_run demo_env demo_status (demo_remote\<lparr>connections := [(V4 0xc0a80103, 1)]\<rparr>)"
proof -
  have "remote_step demo_env demo_status demo_remote (accept_connection 1 (V4 0xc0a80103) demo_remote)"
    by (rule remote_step.accepted [of demo_listener]) (simp add: demo_remote_def)
  also have "accept_connection 1 (V4 0xc0a80103) demo_remote = demo_remote\<lparr>connections := [(V4 0xc0a80103, 1)]\<rparr>"
    using demo_admits by (simp add: accept_connection_def demo_remote_def MAX_CONNECTIONS_def)
  finally show ?thesis by (rule remote_run.step [OF demo_remote_run])
qed


lemma current_generation:
  assumes "n \<le> m" "m < 2 ^ 64" "(word_of_nat n :: u64) = word_of_nat m"
  shows "n = m"
proof -
  have "n < 2 ^ 64" using assms(1,2) by simp
  with assms(2,3) show ?thesis by (simp add: word_of_nat_eq_iff take_bit_nat_eq_self)
qed

text \<open>C5: whoever is let in was meant to be.  On every run of the remote service, if any accept loop ever started
  (also one already aborted) admits a source, then the loop is one of those accepting now, on an address that
  the last fetched Session1 status allows and on the port, the source is on-link in that same status, and the
  generation of the loop is the present one.\<close>

theorem admission_sound:
  assumes "remote_run env from_str r" "withdrawals (gate_of (ctl r)) < 2 ^ 64"
    "(l, gen) \<in> set (loops r)" "admits (gate_of (ctl r)) gen source"
  shows "is_current (gate_of (ctl r)) gen \<and> (l, gen) \<in> set (tasks (ctl r)) \<and>
    (\<exists>json v. view_from_status from_str json = Inr v \<and> fetched r = Some v \<and>
       ip l \<in> set (listen v) \<and> port l = PORT \<and> on_link v source)"
proof -
  have inv: "controller_inv (fetched r) (ctl r)" "loop_inv (ctl r) (l, gen)"
    "\<forall>v. fetched r = Some v \<longrightarrow> (\<exists>json. view_from_status from_str json = Inr v)"
    using remote_run_inv [OF assms(1)] assms(3) by (auto simp: remote_inv_def list_all_iff)
  obtain p where p: "current (gate_of (ctl r)) = Some p" "pub_generation p = gen" "on_link (pub_view p) source"
    using assms(4) by (auto simp: admits_def split: option.splits)
  have gen: "gen = generation (gate_of (ctl r))" "gen = word_of_nat (withdrawals (gate_of (ctl r)))"
    using inv(1) p by (auto simp: controller_inv_def)
  have "(l, gen) \<in> set (tasks (ctl r))"
    using inv(2) gen(2) current_generation [OF _ assms(2)] unfolding loop_inv_def by fastforce
  then have "ip l \<in> set (listen (pub_view p))" "port l = PORT" using inv(1) p(1) by (auto simp: controller_inv_def)
  moreover have "fetched r = Some (pub_view p)" using inv(1) p(1) by (auto simp: controller_inv_def)
  ultimately show ?thesis using inv(3) p gen(1) \<open>(l, gen) \<in> set (tasks (ctl r))\<close> by (auto simp: is_current_def)
qed

theorem admission_sound_witness:
  "\<exists>json v. view_from_status demo_status json = Inr v \<and> fetched demo_remote = Some v \<and>
     ip demo_listener \<in> set (listen v) \<and> port demo_listener = PORT \<and> on_link v (V4 0xc0a80103)"
  using admission_sound [OF demo_remote_run, of demo_listener 1 "V4 0xc0a80103"] demo_admits
  by (simp add: demo_remote_def demo_controller_def)

text \<open>An open connection is either about to end or on-link.  Every connection whose generation is still the
  present one comes from a source that is on-link in the last fetched Session1 status; all others are ended by
  their own task; and there are never more than 64.\<close>

theorem served_connections_on_link:
  assumes "remote_run env from_str r" "withdrawals (gate_of (ctl r)) < 2 ^ 64"
    "(source, gen) \<in> set (connections r)" "is_current (gate_of (ctl r)) gen"
  shows "length (connections r) \<le> 64 \<and> (\<exists>v. fetched r = Some v \<and> on_link v source \<and> admits (gate_of (ctl r)) gen source)"
proof -
  have inv: "controller_inv (fetched r) (ctl r)" "connection_inv (ctl r) (source, gen)" "length (connections r) \<le> 64"
    using remote_run_inv [OF assms(1)] assms(3) by (auto simp: remote_inv_def list_all_iff MAX_CONNECTIONS_def)
  have "gen = word_of_nat (withdrawals (gate_of (ctl r)))"
    using inv(1) assms(4) by (auto simp: controller_inv_def is_current_def)
  then have "admits (gate_of (ctl r)) gen source"
    using inv(2) current_generation [OF _ assms(2)] by (auto simp: connection_inv_def)
  then show ?thesis using inv(1,3) by (auto simp: controller_inv_def admits_def split: option.splits)
qed

theorem served_connections_on_link_witness:
  "\<exists>v. fetched demo_remote = Some v \<and> on_link v (V4 0xc0a80103)"
  using served_connections_on_link [OF demo_run_connected, of "V4 0xc0a80103" 1]
  by (auto simp: demo_remote_def demo_controller_def is_current_def)

text \<open>Only a completed refresh exposes the service, and a notification withdraws at once: while notifications
  are still being collected, and after the source of them has failed, no loop accepts and no source is
  admitted; a step that exposes the service is a refresh that was due, of a status that decodes, made while the
  loop is not collecting notifications.\<close>

theorem exposure_needs_refresh:
  assumes "remote_run env from_str r" "remote_step env from_str r r'"
  shows "(debouncing r \<or> \<not> running r \<longrightarrow> tasks (ctl r) = [] \<and> (\<forall>gen source. \<not> admits (gate_of (ctl r)) gen source)) \<and>
    (\<not> exposed (ctl r) \<and> exposed (ctl r') \<longrightarrow>
       running r \<and> next_at r \<le> clock r \<and> \<not> debouncing r' \<and>
       (\<exists>json v. view_from_status from_str json = Inr v \<and> fetched r' = Some v \<and> listen v \<noteq> []))"
proof -
  have inv: "remote_inv from_str r" "remote_inv from_str r'"
    using assms remote_run_inv remote_run.step by blast+
  have listen: "listen v \<noteq> []" if "exposed c" "\<not> exposed (ctl r)" "apply_refresh env (Inr v) now (ctl r) = (c, True)" for v c now
  proof
    assume "listen v = []"
    then have "\<not> exposed (establish env v now (withdraw env (ctl r)))"
      by (rule establish_no_listeners [OF withdraw_remote(4) [OF inv(1)]])
    moreover have "\<not> exposed ((ctl r)\<lparr>confirmed_at := Some now\<rparr>)" using that(2) by (simp add: exposed_def)
    ultimately show False using that(1,3) by (auto simp: apply_refresh_def split: if_splits)
  qed
  have away: "\<not> exposed (withdraw env (ctl r))"
    using withdraw_remote(4) [OF inv(1)] by (simp add: withdrawn_def)
  have failed: "\<not> exposed c" if "\<not> exposed (ctl r)" "apply_refresh env (Inl ()) now (ctl r) = (c, False)" for c now
    using that away by (auto simp: apply_refresh_def split: if_splits)
  from assms(2) have "\<not> exposed (ctl r) \<and> exposed (ctl r') \<longrightarrow>
       running r \<and> next_at r \<le> clock r \<and> \<not> debouncing r' \<and>
       (\<exists>json v. view_from_status from_str json = Inr v \<and> fetched r' = Some v \<and> listen v \<noteq> [])"
    by cases (use listen away failed in \<open>auto simp: start_loops_def accept_connection_def serve_connection_def split: if_splits\<close>)
  moreover have "debouncing r \<or> \<not> running r \<longrightarrow> tasks (ctl r) = [] \<and> \<not> admits (gate_of (ctl r)) gen source" for gen source
    using inv(1) by (auto simp: remote_inv_def withdrawn_def exposed_def admits_def)
  ultimately show ?thesis by blast
qed

theorem exposure_needs_refresh_witness:
  "\<not> exposed (ctl (remote_init demo_env False 0)) \<and> exposed (ctl demo_remote) \<and>
   (\<exists>json v. view_from_status demo_status json = Inr v \<and> fetched demo_remote = Some v \<and> listen v \<noteq> [])"
proof -
  have e: "\<not> exposed (ctl (remote_init demo_env False 0))" "exposed (ctl demo_remote)"
    by (simp_all add: exposed_def remote_init_def controller_new_def gate_new_def demo_remote_def demo_controller_def)
  show ?thesis
    using e exposure_needs_refresh [OF remote_run.init demo_step] by blast
qed



text \<open>C23: an exposed view stays confirmed: the next refresh is due at most 125 s after the last confirmation,
  and a refresh that fails 120 s or more after it withdraws the service.\<close>

theorem exposure_stays_fresh:
  assumes "remote_run env from_str r" "exposed (ctl r)"
  shows "\<exists>t. confirmed_at (ctl r) = Some t \<and> t \<le> clock r \<and> next_at r \<le> t + 125000 \<and>
    (t + 120000 \<le> clock r \<longrightarrow> withdrawn (fst (apply_refresh env (Inl ()) (clock r) (ctl r))))"
proof -
  have inv: "controller_inv (fetched r) (ctl r)" "fresh r" "\<And>env. withdrawn (withdraw env (ctl r))"
    using remote_run_inv [OF assms(1)] withdraw_remote(4) [OF remote_run_inv [OF assms(1)]] by (auto simp: remote_inv_def)
  obtain t where "confirmed_at (ctl r) = Some t"
    using inv(1) assms(2) by (auto simp: controller_inv_def exposed_def)
  then show ?thesis using inv(2,3)
    by (auto simp: fresh_def STALE_AFTER_def RETRY_def apply_refresh_def)
qed

theorem exposure_stays_fresh_witness:
  "\<exists>t. confirmed_at (ctl demo_remote) = Some t \<and> next_at demo_remote \<le> t + 125000"
proof -
  have "exposed (ctl demo_remote)" by (simp add: exposed_def demo_remote_def demo_controller_def)
  from exposure_stays_fresh [OF demo_remote_run this] show ?thesis by blast
qed

end
