(* ===== verification/Peers.thy ===== *)
theory Peers
  imports SL_Prelude
begin

text \<open>
  The D-Bus peers of sl-remoted (\<^verbatim>\<open>src/remoted/src/peers.rs\<close>): how the answers of Auth1 and Session1 become
  results.  What the bus does with a call is the type \<open>bus_reply\<close>; the traits \<^verbatim>\<open>Auth\<close> and \<^verbatim>\<open>StatusSource\<close> are
  the record \<open>peer\<close> of operations on a state that the caller does not see.
\<close>

datatype auth_failure =
  NotEnrolled | EnrollmentUnconfirmed | AlreadyEnrolled | NoPendingPairing | InvalidPairingCode
| PairingAttemptsExhausted | NoProvisionalEnrollment | ConfirmationExpired | InvalidCredential
| PasswordRejected | RateLimited | Busy | InvalidArgument | Unavailable

definition AUTH_ERROR_PREFIX :: string where
  "AUTH_ERROR_PREFIX = ''org.signallayer.Auth1.Error.''"

definition from_error_name :: "string \<Rightarrow> auth_failure" where
  "from_error_name name =
     (case strip_prefix AUTH_ERROR_PREFIX name of
        None \<Rightarrow> Unavailable
      | Some v \<Rightarrow>
          if v = ''NotEnrolled'' then NotEnrolled
          else if v = ''EnrollmentUnconfirmed'' then EnrollmentUnconfirmed
          else if v = ''AlreadyEnrolled'' then AlreadyEnrolled
          else if v = ''NoPendingPairing'' then NoPendingPairing
          else if v = ''InvalidPairingCode'' then InvalidPairingCode
          else if v = ''PairingAttemptsExhausted'' then PairingAttemptsExhausted
          else if v = ''NoProvisionalEnrollment'' then NoProvisionalEnrollment
          else if v = ''ConfirmationExpired'' then ConfirmationExpired
          else if v = ''InvalidCredential'' then InvalidCredential
          else if v = ''PasswordRejected'' then PasswordRejected
          else if v = ''RateLimited'' then RateLimited
          else if v = ''Busy'' then Busy
          else if v = ''InvalidArgument'' then InvalidArgument
          else Unavailable)"

text \<open>A call ends with a reply, with an error reply of some name, with another failure of the bus, or not
  within the timeout.\<close>

datatype 'r bus_reply = Reply 'r | MethodError string | BusFailure | TimedOut

definition bus_call :: "'r bus_reply \<Rightarrow> auth_failure + 'r" where
  "bus_call b =
     (case b of
        Reply r \<Rightarrow> Inr r
      | MethodError name \<Rightarrow> Inl (from_error_name name)
      | _ \<Rightarrow> Inl Unavailable)"

definition session_status_call :: "string bus_reply \<Rightarrow> unit + string" where
  "session_status_call b = (case b of Reply status \<Rightarrow> Inr status | _ \<Rightarrow> Inl ())"

record 'p peer =
  peer_verify_password :: "string \<Rightarrow> ('p, auth_failure, unit) op"
  peer_consume_pairing :: "string \<Rightarrow> string \<Rightarrow> ('p, auth_failure, string) op"
  peer_confirm_recovery_key :: "string \<Rightarrow> ('p, auth_failure, unit) op"
  peer_status :: "('p, unit, string) op"

text \<open>The bus behind the traits: each method is called under its member name with its arguments.\<close>

record 'p bus =
  auth_member :: "string \<Rightarrow> string list \<Rightarrow> 'p \<Rightarrow> string bus_reply \<times> 'p"
  session_member :: "string \<Rightarrow> 'p \<Rightarrow> string bus_reply \<times> 'p"

definition bus_peer :: "'p bus \<Rightarrow> 'p peer" where
  "bus_peer b = \<lparr>
     peer_verify_password = (\<lambda>password p.
       case auth_member b ''VerifyPassword'' [password] p of (r, p') \<Rightarrow> (map_sum (\<lambda>e. e) (\<lambda>_. ()) (bus_call r), p')),
     peer_consume_pairing = (\<lambda>code password p.
       case auth_member b ''ConsumePairing'' [code, password] p of (r, p') \<Rightarrow> (bus_call r, p')),
     peer_confirm_recovery_key = (\<lambda>key p.
       case auth_member b ''ConfirmRecoveryKey'' [key] p of (r, p') \<Rightarrow> (map_sum (\<lambda>e. e) (\<lambda>_. ()) (bus_call r), p')),
     peer_status = (\<lambda>p.
       case session_member b ''GetPlatformStatus'' p of (r, p') \<Rightarrow> (session_status_call r, p'))\<rparr>"

end
