(* ===== verification/Sessions.thy ===== *)
theory Sessions
  imports SL_Prelude "HOL-Library.Multiset"
begin

text \<open>
  The web sessions of sl-remoted (\<^verbatim>\<open>src/remoted/src/sessions.rs\<close>): identifiers from the random source, an idle
  and an absolute timeout, and at most 64 of them, the oldest making room.

  The hash map is an association list with distinct keys; the order in which the code iterates over it
  is unspecified and is the parameter \<open>iter\<close>.  Each reading of the clock and of the random source has
  its own index.  The interface \<open>session_store\<close> is what the HTTP layer relies on.
\<close>

section \<open>Definitions\<close>

definition COOKIE_NAME :: string where "COOKIE_NAME = ''__Host-sl_session''"
definition IDLE_TIMEOUT :: u64 where "IDLE_TIMEOUT = 900"
definition ABSOLUTE_TIMEOUT :: u64 where "ABSOLUTE_TIMEOUT = 28800"
definition MAX_SESSIONS :: nat where "MAX_SESSIONS = 64"
definition ID_BYTES :: nat where "ID_BYTES = 32"

record session =
  created :: u64
  last_used :: u64

type_synonym session_table = "(string \<times> session) list"

record sessions =
  table :: session_table
  readings :: nat
  lock_poisoned :: bool

record sessions_env =
  now_at :: "nat \<Rightarrow> u64 option"
  fill :: "nat \<Rightarrow> (nat \<Rightarrow> u8) option"
  iter :: "session_table \<Rightarrow> session_table"

definition well_formed :: "string \<Rightarrow> bool" where
  "well_formed sid \<longleftrightarrow> length sid = ID_BYTES * 2 \<and> list_all is_lower_hex sid"

definition expired :: "session \<Rightarrow> u64 \<Rightarrow> bool" where
  "expired s now \<longleftrightarrow>
     IDLE_TIMEOUT \<le> saturating_sub now (last_used s) \<or> ABSOLUTE_TIMEOUT \<le> saturating_sub now (created s)"

text \<open>\<^verbatim>\<open>Iterator::min_by_key\<close>: the first of the minimal elements.\<close>

fun min_by_created :: "session_table \<Rightarrow> (string \<times> session) option" where
  "min_by_created [] = None"
| "min_by_created (e # es) =
     (case min_by_created es of
        None \<Rightarrow> Some e
      | Some m \<Rightarrow> Some (if created (snd m) < created (snd e) then m else e))"

definition read_step :: "sessions \<Rightarrow> sessions" where
  "read_step s = s\<lparr>readings := readings s + 1\<rparr>"

definition retain_live :: "u64 \<Rightarrow> session_table \<Rightarrow> session_table" where
  "retain_live now t = filter (\<lambda>(_, s). \<not> expired s now) t"

definition make_room :: "sessions_env \<Rightarrow> session_table \<Rightarrow> session_table" where
  "make_room env t =
     (if MAX_SESSIONS \<le> length t
      then (case min_by_created (iter env t) of None \<Rightarrow> t | Some (oldest, _) \<Rightarrow> AList.delete oldest t)
      else t)"

definition create :: "sessions_env \<Rightarrow> (sessions, unit, string) op" where
  "create env s =
     (case now_at env (readings s) of
        None \<Rightarrow> (Inl (), read_step s)
      | Some now \<Rightarrow>
          (case fill env (readings s + 1) of
             None \<Rightarrow> (Inl (), read_step (read_step s))
           | Some bytes \<Rightarrow>
               let sid = hex_string (map bytes [0..<ID_BYTES]); s2 = read_step (read_step s)
               in if lock_poisoned s then (Inl (), s2)
                  else (Inr sid, s2\<lparr>table := AList.update sid \<lparr>created = now, last_used = now\<rparr>
                          (make_room env (retain_live now (table s)))\<rparr>)))"

definition validate :: "sessions_env \<Rightarrow> string \<Rightarrow> sessions \<Rightarrow> bool \<times> sessions" where
  "validate env sid s =
     (if \<not> well_formed sid then (False, s)
      else case now_at env (readings s) of
        None \<Rightarrow> (False, read_step s)
      | Some now \<Rightarrow>
          if lock_poisoned s then (False, read_step s)
          else (case map_of (table s) sid of
                  Some ses \<Rightarrow>
                    if \<not> expired ses now
                    then (True, (read_step s)\<lparr>table := AList.update sid (ses\<lparr>last_used := now\<rparr>) (table s)\<rparr>)
                    else (False, (read_step s)\<lparr>table := AList.delete sid (table s)\<rparr>)
                | None \<Rightarrow> (False, read_step s)))"

definition remove :: "string \<Rightarrow> sessions \<Rightarrow> sessions" where
  "remove sid s = (if lock_poisoned s then s else s\<lparr>table := AList.delete sid (table s)\<rparr>)"

section \<open>Interface\<close>

text \<open>Which identifiers are good: only those handed out, until they are removed.\<close>

locale session_store =
  fixes make :: "'s \<Rightarrow> (unit + string) \<times> 's"
    and check :: "string \<Rightarrow> 's \<Rightarrow> bool \<times> 's"
    and discard :: "string \<Rightarrow> 's \<Rightarrow> 's"
    and known :: "'s \<Rightarrow> string set"
    and usable :: "'s \<Rightarrow> bool"
  assumes make_known: "usable s \<Longrightarrow> make s = (r, s') \<Longrightarrow>
      known s' \<subseteq> known s \<union> (case r of Inr sid \<Rightarrow> {sid} | Inl _ \<Rightarrow> {})"
    and check_known: "check sid s = (b, s') \<Longrightarrow> known s' \<subseteq> known s \<and> (b \<longrightarrow> sid \<in> known s)"
    and discard_known: "usable s \<Longrightarrow> known (discard sid s) \<subseteq> known s - {sid}"
    and usable_make: "usable s \<Longrightarrow> usable (snd (make s))"
    and usable_check: "usable s \<Longrightarrow> usable (snd (check sid s))"
    and usable_discard: "usable s \<Longrightarrow> usable (discard sid s)"
begin

lemma discarded_fails: "usable s \<Longrightarrow> fst (check sid (discard sid s)) = False"
  using discard_known [of s sid] check_known [of sid "discard sid s"] by (cases "check sid (discard sid s)") auto

end

section \<open>The invariant\<close>

definition iter_ok :: "sessions_env \<Rightarrow> bool" where
  "iter_ok env \<longleftrightarrow> (\<forall>t. mset (iter env t) = mset t)"

definition table_ok :: "session_table \<Rightarrow> bool" where
  "table_ok t \<longleftrightarrow> distinct (map fst t) \<and> length t \<le> MAX_SESSIONS \<and> dom (map_of t) \<subseteq> {sid. well_formed sid}"

definition sessions_inv :: "sessions \<Rightarrow> bool" where
  "sessions_inv s \<longleftrightarrow> table_ok (table s)"

lemma well_formed_fresh: "well_formed (hex_string (map bytes [0..<ID_BYTES]))"
  by (simp add: well_formed_def ID_BYTES_def hex_string_lower_hex)

lemma min_by_created_Some:
  "t \<noteq> [] \<Longrightarrow> \<exists>m. min_by_created t = Some m \<and> m \<in> set t \<and> (\<forall>e \<in> set t. created (snd m) \<le> created (snd e))"
proof (induction t)
  case (Cons e t)
  show ?case
  proof (cases "t = []")
    case False
    then obtain m where "min_by_created t = Some m" "m \<in> set t" "\<forall>e \<in> set t. created (snd m) \<le> created (snd e)"
      using Cons.IH by blast
    then show ?thesis by (auto simp: not_less intro: order_trans)
  qed simp
qed simp

lemma make_room_spec:
  assumes "iter_ok env" "distinct (map fst t)" "length t \<le> MAX_SESSIONS"
  shows "length (make_room env t) < MAX_SESSIONS" "set (make_room env t) \<subseteq> set t" "distinct (map fst (make_room env t))"
    "\<And>e e'. e \<in> set t \<Longrightarrow> e \<notin> set (make_room env t) \<Longrightarrow> e' \<in> set (make_room env t) \<Longrightarrow> created (snd e) \<le> created (snd e')"
proof -
  have set_iter: "set (iter env t) = set t" using assms(1) by (metis iter_ok_def set_mset_mset)
  have "length (make_room env t) < MAX_SESSIONS \<and> set (make_room env t) \<subseteq> set t \<and> distinct (map fst (make_room env t)) \<and>
    (\<forall>e e'. e \<in> set t \<longrightarrow> e \<notin> set (make_room env t) \<longrightarrow> e' \<in> set (make_room env t) \<longrightarrow> created (snd e) \<le> created (snd e'))"
  proof (cases "MAX_SESSIONS \<le> length t")
    case False
    then show ?thesis using assms by (simp add: make_room_def)
  next
    case True
    then have "iter env t \<noteq> []" using set_iter by (auto simp: MAX_SESSIONS_def)
    from min_by_created_Some [OF this] obtain sid m where
      m: "min_by_created (iter env t) = Some (sid, m)" "(sid, m) \<in> set t" "\<forall>e \<in> set t. created m \<le> created (snd e)"
      unfolding set_iter by (metis prod.collapse snd_conv)
    have room: "make_room env t = AList.delete sid t" using True m(1) by (simp add: make_room_def)
    have "created (snd e) \<le> created (snd e')"
      if "e \<in> set t" "e \<notin> set (AList.delete sid t)" "e' \<in> set (AList.delete sid t)" for e e'
      using delete_present(2) [OF assms(2) m(2) that(1,2)] m(3) subsetD [OF set_delete_subset that(3)] by simp
    then show ?thesis
      using delete_present(1) [OF assms(2) m(2)] True assms set_delete_subset [of sid t]
        distinct_delete [OF assms(2), of sid] by (auto simp: room MAX_SESSIONS_def)
  qed
  then show "length (make_room env t) < MAX_SESSIONS" "set (make_room env t) \<subseteq> set t" "distinct (map fst (make_room env t))"
    "\<And>e e'. e \<in> set t \<Longrightarrow> e \<notin> set (make_room env t) \<Longrightarrow> e' \<in> set (make_room env t) \<Longrightarrow> created (snd e) \<le> created (snd e')"
    by blast+
qed

lemma dom_retain_live: "dom (map_of (retain_live now t)) \<subseteq> dom (map_of t)"
  by (auto simp: dom_map_of_conv_image_fst retain_live_def)

lemma dom_make_room: "dom (map_of (make_room env t)) \<subseteq> dom (map_of t)"
  by (auto simp: make_room_def split: option.splits)

lemma retain_live_ok: "table_ok t \<Longrightarrow> table_ok (retain_live now t)"
  using dom_retain_live [of now t]
  by (auto simp: table_ok_def retain_live_def distinct_map_filter intro: order_trans [OF length_filter_le])

lemma table_ok_delete: "table_ok t \<Longrightarrow> table_ok (AList.delete sid t)"
  using length_delete_le [of sid t] by (auto simp: table_ok_def distinct_delete)

lemma table_ok_touch:
  assumes "table_ok t" "map_of t sid = Some ses"
  shows "table_ok (AList.update sid v t)"
proof -
  have "sid \<in> fst ` set t" using map_of_SomeD [OF assms(2)] by force
  moreover have "well_formed sid" using assms unfolding table_ok_def by blast
  ultimately show ?thesis using assms(1) by (simp add: table_ok_def distinct_update length_update_present)
qed

lemma table_ok_insert:
  assumes "iter_ok env" "table_ok t" "well_formed sid"
  shows "table_ok (AList.update sid v (make_room env t))"
proof -
  have t: "distinct (map fst t)" "length t \<le> MAX_SESSIONS" using assms(2) by (simp_all add: table_ok_def)
  show ?thesis
    using make_room_spec(1,3) [OF assms(1) t] length_update_le [of sid v "make_room env t"] dom_make_room [of env t] assms(2,3)
    by (auto simp: table_ok_def distinct_update)
qed

lemma create_inv: "iter_ok env \<Longrightarrow> sessions_inv s \<Longrightarrow> sessions_inv (snd (create env s))"
  by (auto simp: create_def sessions_inv_def read_step_def Let_def well_formed_fresh
      intro!: table_ok_insert retain_live_ok split: option.splits)

lemma validate_inv: "sessions_inv s \<Longrightarrow> sessions_inv (snd (validate env sid s))"
  by (auto simp: validate_def sessions_inv_def read_step_def table_ok_delete table_ok_touch split: option.splits)

lemma remove_inv: "sessions_inv s \<Longrightarrow> sessions_inv (remove sid s)"
  by (simp add: remove_def sessions_inv_def table_ok_delete)

section \<open>The sessions meet their interface\<close>

definition known_ids :: "sessions \<Rightarrow> string set" where
  "known_ids s = dom (map_of (table s))"

interpretation web_sessions: session_store "create env" "validate env" remove known_ids "\<lambda>s. \<not> lock_poisoned s" for env
proof
  fix s r s' sid b
  show "known_ids s' \<subseteq> known_ids s \<union> (case r of Inr sid \<Rightarrow> {sid} | Inl _ \<Rightarrow> {})"
    if "\<not> lock_poisoned s" and run: "create env s = (r, s')"
  proof -
    have "\<exists>z. map_of (table s) sid = Some z" if "map_of (make_room env (retain_live now (table s))) sid = Some y" for now sid y
      using dom_make_room dom_retain_live that by blast
    then show ?thesis
      using run by (auto simp: create_def known_ids_def read_step_def Let_def split: option.splits if_splits)
  qed
  show "validate env sid s = (b, s') \<Longrightarrow> known_ids s' \<subseteq> known_ids s \<and> (b \<longrightarrow> sid \<in> known_ids s)"
    by (auto simp: validate_def known_ids_def read_step_def split: if_splits option.splits)
  show "\<not> lock_poisoned s \<Longrightarrow> known_ids (remove sid s) \<subseteq> known_ids s - {sid}"
    by (auto simp: remove_def known_ids_def)
  show "\<not> lock_poisoned s \<Longrightarrow> \<not> lock_poisoned (snd (create env s))"
    by (simp add: create_def read_step_def Let_def split: option.splits)
  show "\<not> lock_poisoned s \<Longrightarrow> \<not> lock_poisoned (snd (validate env sid s))"
    by (simp add: validate_def read_step_def split: option.splits)
  show "\<not> lock_poisoned s \<Longrightarrow> \<not> lock_poisoned (remove sid s)"
    by (simp add: remove_def)
qed

section \<open>Histories\<close>

text \<open>What happened, newest first.  The abstract specification reads off a history when an identifier was
  last issued and last used, unless it was removed since.\<close>

datatype session_event = Issued string u64 | Accepted string u64 | Removed string

fun issued_at :: "session_event list \<Rightarrow> string \<Rightarrow> u64 option" where
  "issued_at [] sid = None"
| "issued_at (Issued i t # h) sid = (if i = sid then Some t else issued_at h sid)"
| "issued_at (Removed i # h) sid = (if i = sid then None else issued_at h sid)"
| "issued_at (Accepted i t # h) sid = issued_at h sid"

fun used_at :: "session_event list \<Rightarrow> string \<Rightarrow> u64 option" where
  "used_at [] sid = None"
| "used_at (Issued i t # h) sid = (if i = sid then Some t else used_at h sid)"
| "used_at (Removed i # h) sid = (if i = sid then None else used_at h sid)"
| "used_at (Accepted i t # h) sid = (if i = sid then Some t else used_at h sid)"

text \<open>An identifier may be accepted: issued less than eight hours ago, used less than fifteen minutes ago.\<close>

definition authorised :: "session_event list \<Rightarrow> string \<Rightarrow> u64 \<Rightarrow> bool" where
  "authorised h sid now \<longleftrightarrow>
     (\<exists>c u. issued_at h sid = Some c \<and> used_at h sid = Some u \<and> unat now - unat c < 28800 \<and> unat now - unat u < 900)"

inductive session_run :: "sessions_env \<Rightarrow> sessions \<Rightarrow> session_event list \<Rightarrow> bool" for env where
  init: "session_run env \<lparr>table = [], readings = 0, lock_poisoned = False\<rparr> []"
| issue: "session_run env s h \<Longrightarrow> create env s = (Inr sid, s') \<Longrightarrow> now_at env (readings s) = Some t \<Longrightarrow>
    session_run env s' (Issued sid t # h)"
| issue_failed: "session_run env s h \<Longrightarrow> create env s = (Inl (), s') \<Longrightarrow> session_run env s' h"
| accept: "session_run env s h \<Longrightarrow> validate env sid s = (True, s') \<Longrightarrow> now_at env (readings s) = Some t \<Longrightarrow>
    session_run env s' (Accepted sid t # h)"
| refuse: "session_run env s h \<Longrightarrow> validate env sid s = (False, s') \<Longrightarrow> session_run env s' h"
| remove: "session_run env s h \<Longrightarrow> session_run env (remove sid s) (Removed sid # h)"

text \<open>The table holds nothing that the history does not account for.\<close>

definition accounted :: "session_event list \<Rightarrow> sessions \<Rightarrow> bool" where
  "accounted h s \<longleftrightarrow> (\<forall>sid ses. map_of (table s) sid = Some ses \<longrightarrow>
     issued_at h sid = Some (created ses) \<and> used_at h sid = Some (last_used ses))"

lemma map_of_retain_live:
  "distinct (map fst t) \<Longrightarrow> map_of (retain_live now t) sid = Some ses \<Longrightarrow> map_of t sid = Some ses"
  by (auto simp: retain_live_def dest: map_of_SomeD intro: map_of_is_SomeI)

lemma map_of_make_room: "map_of (make_room env t) sid = Some ses \<Longrightarrow> map_of t sid = Some ses"
  by (auto simp: make_room_def split: option.splits if_splits)

lemma live_iff: "\<not> expired ses now \<longleftrightarrow>
    unat now - unat (created ses) < 28800 \<and> unat now - unat (last_used ses) < 900"
  by (auto simp: expired_def IDLE_TIMEOUT_def ABSOLUTE_TIMEOUT_def word_le_nat_alt unat_saturating_sub)

lemma run_accounted:
  assumes "iter_ok env"
  shows "session_run env s h \<Longrightarrow> sessions_inv s \<and> \<not> lock_poisoned s \<and> accounted h s"
proof (induction rule: session_run.induct)
  case init
  then show ?case by (simp add: sessions_inv_def table_ok_def accounted_def)
next
  case (issue s h sid s' t)
  have "distinct (map fst (table s))" using issue.IH by (simp add: sessions_inv_def table_ok_def)
  then have old: "map_of (table s) k = Some ses"
    if "map_of (make_room env (retain_live now (table s))) k = Some ses" for now k ses
    using that by (metis map_of_make_room map_of_retain_live)
  have "sessions_inv s'" "\<not> lock_poisoned s'"
    using issue create_inv [OF assms, of s] web_sessions.usable_make [of s env] by auto
  moreover have "accounted (Issued sid t # h) s'"
    using issue.hyps issue.IH old
    by (auto simp: accounted_def create_def Let_def read_step_def split: option.splits if_splits)
  ultimately show ?case by blast
next
  case (issue_failed s h s')
  then have "sessions_inv s'" "\<not> lock_poisoned s'" "table s' = table s"
    using create_inv [OF assms, of s] web_sessions.usable_make [of s env]
    by (auto simp: create_def Let_def read_step_def split: option.splits if_splits)
  then show ?case using issue_failed by (simp add: accounted_def)
next
  case (accept s h sid s' t)
  then have "sessions_inv s'" "\<not> lock_poisoned s'"
    using validate_inv [of s env sid] web_sessions.usable_check [of s env sid] by auto
  moreover have "accounted (Accepted sid t # h) s'"
    using accept by (auto simp: accounted_def validate_def read_step_def split: option.splits if_splits)
  ultimately show ?case by blast
next
  case (refuse s h sid s')
  then have "sessions_inv s'" "\<not> lock_poisoned s'"
    using validate_inv [of s env sid] web_sessions.usable_check [of s env sid] by auto
  moreover have "accounted h s'"
    using refuse by (auto simp: accounted_def validate_def read_step_def split: option.splits if_splits)
  ultimately show ?case by blast
next
  case (remove s h sid)
  then show ?case
    using remove_inv [of s sid] by (auto simp: accounted_def remove_def)
qed

section \<open>Properties\<close>

text \<open>C13: in every run, an identifier is accepted only if the history authorises it: it was issued by the
  server less than eight hours ago, used less than fifteen minutes ago, and not removed since.\<close>

theorem accepted_sessions_authorised:
  assumes "iter_ok env" "session_run env s h" "validate env sid s = (True, s')"
  shows "\<exists>t. now_at env (readings s) = Some t \<and> authorised h sid t"
  using run_accounted [OF assms(1,2)] assms(3)
  by (auto simp: validate_def accounted_def authorised_def live_iff split: option.splits if_splits)

text \<open>In every run there are at most 64 sessions, one per identifier, and all identifiers are 64
  lower-case hexadecimal digits; when a new session needs room, the one that goes is among those created
  earliest.\<close>

theorem sessions_bounded:
  assumes "iter_ok env" "session_run env s h"
  shows "length (table s) \<le> 64 \<and> distinct (map fst (table s)) \<and> (\<forall>sid \<in> dom (map_of (table s)). well_formed sid) \<and>
    (\<forall>e \<in> set (table s). \<forall>e' \<in> set (make_room env (table s)). e \<in> set (make_room env (table s)) \<or> created (snd e) \<le> created (snd e'))"
proof -
  have t: "table_ok (table s)" using run_accounted [OF assms] by (simp add: sessions_inv_def)
  then have d: "distinct (map fst (table s))" "length (table s) \<le> MAX_SESSIONS" by (simp_all add: table_ok_def)
  show ?thesis using t make_room_spec(4) [OF assms(1) d] by (auto simp: table_ok_def MAX_SESSIONS_def)
qed

text \<open>A session that was just issued is accepted at the next reading of the clock within fifteen minutes,
  and not after it has been removed.\<close>

theorem issued_session_accepted:
  assumes "create env s = (Inr sid, s')" "now_at env (readings s) = Some t"
    and "now_at env (readings s') = Some t'" "unat t' - unat t < 900"
  shows "fst (validate env sid s') \<and> \<not> fst (validate env sid (remove sid s'))"
proof -
  have t: "map_of (table s') sid = Some \<lparr>created = t, last_used = t\<rparr>" "\<not> lock_poisoned s'" "well_formed sid"
    using assms(1,2) by (auto simp: create_def Let_def read_step_def well_formed_fresh split: option.splits if_splits)
  then show ?thesis
    using assms(3,4) web_sessions.discarded_fails [of s' env sid] by (simp add: validate_def live_iff)
qed

definition demo_sessions :: sessions_env where
  "demo_sessions = \<lparr>now_at = \<lambda>i. Some (word_of_nat (100 * i)), fill = \<lambda>i. Some (\<lambda>k. word_of_nat (i + k)), iter = rev\<rparr>"

definition no_sessions :: sessions where
  "no_sessions = \<lparr>table = [], readings = 0, lock_poisoned = False\<rparr>"

definition demo_sid :: string where
  "demo_sid = hex_string (map (\<lambda>k. word_of_nat (1 + k)) [0..<ID_BYTES])"

definition one_session :: sessions where
  "one_session = \<lparr>table = [(demo_sid, \<lparr>created = 0, last_used = 0\<rparr>)], readings = 2, lock_poisoned = False\<rparr>"

lemma demo_iter_ok: "iter_ok demo_sessions"
  by (simp add: iter_ok_def demo_sessions_def)

lemma demo_create: "create demo_sessions no_sessions = (Inr demo_sid, one_session)"
  by (simp add: create_def demo_sessions_def no_sessions_def one_session_def demo_sid_def Let_def read_step_def
      make_room_def retain_live_def MAX_SESSIONS_def)

lemma demo_run: "session_run demo_sessions one_session [Issued demo_sid 0]"
  using session_run.issue [OF session_run.init [of demo_sessions, folded no_sessions_def] demo_create, of 0]
  by (simp add: demo_sessions_def no_sessions_def)

theorem issued_session_accepted_witness:
  "create demo_sessions no_sessions = (Inr demo_sid, one_session) \<and> fst (validate demo_sessions demo_sid one_session) \<and>
   \<not> fst (validate demo_sessions demo_sid (remove demo_sid one_session))"
  using demo_create issued_session_accepted [OF demo_create, of 0 200]
  by (simp add: demo_sessions_def no_sessions_def one_session_def)

theorem accepted_sessions_authorised_witness:
  "fst (validate demo_sessions demo_sid one_session) \<and>
   (\<exists>t. now_at demo_sessions (readings one_session) = Some t \<and> authorised [Issued demo_sid 0] demo_sid t)"
proof -
  have "well_formed demo_sid" unfolding demo_sid_def by (rule well_formed_fresh)
  then have ok: "fst (validate demo_sessions demo_sid one_session)"
    by (simp add: validate_def one_session_def demo_sessions_def live_iff)
  then obtain s' where "validate demo_sessions demo_sid one_session = (True, s')"
    by (cases "validate demo_sessions demo_sid one_session") auto
  from accepted_sessions_authorised [OF demo_iter_ok demo_run this] ok show ?thesis by blast
qed

theorem sessions_bounded_witness:
  "length (table one_session) \<le> 64 \<and> distinct (map fst (table one_session)) \<and>
   demo_sid \<in> dom (map_of (table one_session)) \<and> well_formed demo_sid"
  using sessions_bounded [OF demo_iter_ok demo_run] by (simp add: one_session_def)

end
