(* ===== verification/Http.thy ===== *)
theory Http
  imports Peers Sessions Network
begin

text \<open>
  The HTTP interface (\<^verbatim>\<open>src/remoted/src/http.rs\<close>): the checks of host and origin, the bodies, the five API
  handlers, and the headers on every response.

  The HTTP library, the JSON decoder and the cookie library are crates: \<open>http_env\<close> has what the code uses of
  them.  A request carries its headers as a list with lower-case names; a response likewise.  A handler
  that panics has no response (\<open>None\<close>).  The journal is kept newest first.
\<close>

section \<open>Requests, responses and the environment\<close>

definition BODY_LIMIT :: nat where "BODY_LIMIT = 4096"
definition PASSWORD_MAX_BYTES :: nat where "PASSWORD_MAX_BYTES = 1024"
definition CODE_MAX_BYTES :: nat where "CODE_MAX_BYTES = 64"

definition CONTENT_SECURITY_POLICY :: string where
  "CONTENT_SECURITY_POLICY = ''default-src 'self'; script-src 'self'; style-src 'self'; img-src 'self'; connect-src 'self'; base-uri 'none'; form-action 'none'; frame-ancestors 'none'' @ [CHR 0x27]"

type_synonym header_map = "(string \<times> string) list"

definition get_all :: "string \<Rightarrow> header_map \<Rightarrow> string list" where
  "get_all n hs = map snd (filter (\<lambda>h. fst h = n) hs)"

definition insert_header :: "string \<Rightarrow> string \<Rightarrow> header_map \<Rightarrow> header_map" where
  "insert_header n v hs = filter (\<lambda>h. fst h \<noteq> n) hs @ [(n, v)]"

record conn_info =
  local :: socket_addr
  peer :: socket_addr

datatype meth = GET | POST | HEAD | OtherMethod

record request =
  req_method :: meth
  req_path :: string
  req_authority :: "string option"
  req_headers :: header_map
  req_body :: string
  req_conn :: "conn_info option"

record response =
  status_code :: nat
  resp_headers :: header_map
  resp_body :: string

record pair_request =
  pairing_code :: string
  pair_password :: string

record confirm_request =
  recovery_key :: string

record login_request =
  password :: string

text \<open>The cookie that is built, before the library prints it.\<close>

record cookie =
  cookie_name :: string
  cookie_value :: string
  cookie_path :: string
  cookie_secure :: bool
  cookie_http_only :: bool
  cookie_same_site_strict :: bool
  cookie_max_age :: int

datatype handler = Index | AppJs | AppCss | Pair | Confirm | Login | Logout | Status
datatype routed = Matched handler | NoRoute | WrongMethod

record http_env =
  to_str :: "string \<Rightarrow> string option"
  to_bytes :: "string \<Rightarrow> nat \<Rightarrow> string option"
  from_slice_pair :: "string \<Rightarrow> pair_request option"
  from_slice_confirm :: "string \<Rightarrow> confirm_request option"
  from_slice_login :: "string \<Rightarrow> login_request option"
  json_recovery_key :: "string \<Rightarrow> string"
  split_parse :: "string \<Rightarrow> (string \<times> string) option list"
  cookie_to_string :: "cookie \<Rightarrow> string"
  dispatch :: "(string \<times> meth \<times> handler) list \<Rightarrow> meth \<Rightarrow> string \<Rightarrow> routed"
  index_html :: string
  app_js_text :: string
  app_css_text :: string

record 'p app_state =
  sess :: sessions
  peer_state :: 'p
  journal :: "string list"

section \<open>Errors and the journal\<close>

definition error :: "nat \<Rightarrow> string \<Rightarrow> response" where
  "error st code = \<lparr>status_code = st, resp_headers = [(''content-type'', ''application/json'')],
     resp_body = ''{\"error\":\"'' @ code @ ''\"}''\<rparr>"

fun auth_error_code :: "auth_failure \<Rightarrow> nat \<times> string" where
  "auth_error_code NotEnrolled = (409, ''not_enrolled'')"
| "auth_error_code EnrollmentUnconfirmed = (409, ''enrollment_unconfirmed'')"
| "auth_error_code AlreadyEnrolled = (409, ''already_enrolled'')"
| "auth_error_code NoPendingPairing = (409, ''no_pending_pairing'')"
| "auth_error_code InvalidPairingCode = (403, ''invalid_pairing_code'')"
| "auth_error_code PairingAttemptsExhausted = (403, ''pairing_attempts_exhausted'')"
| "auth_error_code NoProvisionalEnrollment = (409, ''no_provisional_enrollment'')"
| "auth_error_code ConfirmationExpired = (409, ''confirmation_expired'')"
| "auth_error_code InvalidCredential = (401, ''invalid_credential'')"
| "auth_error_code PasswordRejected = (422, ''password_rejected'')"
| "auth_error_code RateLimited = (429, ''rate_limited'')"
| "auth_error_code Busy = (503, ''busy'')"
| "auth_error_code InvalidArgument = (400, ''invalid_argument'')"
| "auth_error_code Unavailable = (503, ''unavailable'')"

definition auth_error :: "auth_failure \<Rightarrow> response \<times> string" where
  "auth_error e = (case auth_error_code e of (st, code) \<Rightarrow> (error st code, code))"

definition event_line :: "string \<Rightarrow> ip_addr \<Rightarrow> string \<Rightarrow> string" where
  "event_line route source outcome = ''sl-remoted: '' @ route @ '' from '' @ display_ip source @ '': '' @ outcome"

definition log_event :: "string \<Rightarrow> conn_info \<Rightarrow> string \<Rightarrow> 'p app_state \<Rightarrow> 'p app_state" where
  "log_event route c outcome s = s\<lparr>journal := event_line route (ip (peer c)) outcome # journal s\<rparr>"

section \<open>Checks\<close>

definition host_ok :: "request \<Rightarrow> conn_info \<Rightarrow> bool" where
  "host_ok req c \<longleftrightarrow>
     (let expected = endpoint (local c)
      in get_all ''host'' (req_headers req) = [expected] \<and>
         (case req_authority req of None \<Rightarrow> True | Some a \<Rightarrow> a = expected))"

definition origin_ok :: "header_map \<Rightarrow> conn_info \<Rightarrow> bool" where
  "origin_ok hs c \<longleftrightarrow> get_all ''origin'' hs = [''https://'' @ endpoint (local c)]"

definition json_content_type :: "http_env \<Rightarrow> header_map \<Rightarrow> bool" where
  "json_content_type env hs =
     (case get_all ''content-type'' hs of
        [v] \<Rightarrow>
          (case to_str env v of
             None \<Rightarrow> False
           | Some v \<Rightarrow>
               let v = to_ascii_lowercase v
               in v = ''application/json'' \<or> v = ''application/json; charset=utf-8'')
      | _ \<Rightarrow> False)"

definition conn :: "request \<Rightarrow> conn_info option" where
  "conn req = req_conn req"

definition parse_body :: "http_env \<Rightarrow> (string \<Rightarrow> 't option) \<Rightarrow> request \<Rightarrow> response + 't" where
  "parse_body env from_slice req =
     (if \<not> json_content_type env (req_headers req) then Inl (error 415 ''unsupported_media_type'')
      else case to_bytes env (req_body req) BODY_LIMIT of
             None \<Rightarrow> Inl (error 413 ''payload_too_large'')
           | Some b \<Rightarrow> ok_or (error 400 ''bad_request'') (from_slice b))"

definition session_cookie :: "http_env \<Rightarrow> header_map \<Rightarrow> string option" where
  "session_cookie env hs =
     map_option snd (find (\<lambda>c. fst c = COOKIE_NAME)
       (List.map_filter (\<lambda>c. c) (concat (map (split_parse env) (List.map_filter (to_str env) (get_all ''cookie'' hs))))))"

definition set_cookie :: "http_env \<Rightarrow> string \<Rightarrow> int \<Rightarrow> string" where
  "set_cookie env v max_age =
     cookie_to_string env \<lparr>cookie_name = COOKIE_NAME, cookie_value = v, cookie_path = ''/'', cookie_secure = True,
       cookie_http_only = True, cookie_same_site_strict = True, cookie_max_age = max_age\<rparr>"

definition json_response :: "string \<Rightarrow> response" where
  "json_response b = \<lparr>status_code = 200, resp_headers = [(''content-type'', ''application/json'')], resp_body = b\<rparr>"

definition static_response :: "string \<Rightarrow> string \<Rightarrow> response" where
  "static_response content_type b = \<lparr>status_code = 200, resp_headers = [(''content-type'', content_type)], resp_body = b\<rparr>"

definition no_content :: response where
  "no_content = \<lparr>status_code = 204, resp_headers = [], resp_body = []\<rparr>"

definition with_cookie :: "string \<Rightarrow> response \<Rightarrow> response" where
  "with_cookie c r = r\<lparr>resp_headers := insert_header ''set-cookie'' c (resp_headers r)\<rparr>"

section \<open>Handlers\<close>

text \<open>A call of a peer keeps the sessions and the journal.\<close>

definition ask :: "('p, 'e, 'r) op \<Rightarrow> ('p app_state, 'e, 'r) op" where
  "ask m = on_part peer_state (\<lambda>p s. s\<lparr>peer_state := p\<rparr>) m"

definition refused :: "string \<Rightarrow> conn_info \<Rightarrow> auth_failure \<Rightarrow> 'p app_state \<Rightarrow> response option \<times> 'p app_state" where
  "refused route c e s = (case auth_error e of (resp, code) \<Rightarrow> (Some resp, log_event route c code s))"

text \<open>What \<^verbatim>\<open>pair\<close>, \<^verbatim>\<open>confirm\<close>, \<^verbatim>\<open>login\<close> and \<^verbatim>\<open>logout\<close> begin with.\<close>

definition with_origin :: "string \<Rightarrow> request \<Rightarrow> (conn_info \<Rightarrow> 'p app_state \<Rightarrow> response option \<times> 'p app_state) \<Rightarrow>
    'p app_state \<Rightarrow> response option \<times> 'p app_state" where
  "with_origin route req rest s =
     (case conn req of
        None \<Rightarrow> (None, s)
      | Some c \<Rightarrow>
          if \<not> origin_ok (req_headers req) c
          then (Some (error 403 ''forbidden_origin''), log_event route c ''forbidden_origin'' s)
          else rest c s)"

definition pair :: "http_env \<Rightarrow> 'p peer \<Rightarrow> request \<Rightarrow> 'p app_state \<Rightarrow> response option \<times> 'p app_state" where
  "pair env pr req = with_origin ''pair'' req (\<lambda>c s.
     case parse_body env (from_slice_pair env) req of
       Inl resp \<Rightarrow> (Some resp, s)
     | Inr r \<Rightarrow>
         if PASSWORD_MAX_BYTES < length (pair_password r) \<or> CODE_MAX_BYTES < length (pairing_code r)
         then (Some (error 400 ''invalid_argument''), s)
         else case ask (peer_consume_pairing pr (pairing_code r) (pair_password r)) s of
                (Inr key, s) \<Rightarrow> (Some (json_response (json_recovery_key env key)), log_event ''pair'' c ''ok'' s)
              | (Inl e, s) \<Rightarrow> refused ''pair'' c e s)"

definition confirm :: "http_env \<Rightarrow> 'p peer \<Rightarrow> request \<Rightarrow> 'p app_state \<Rightarrow> response option \<times> 'p app_state" where
  "confirm env pr req = with_origin ''confirm'' req (\<lambda>c s.
     case parse_body env (from_slice_confirm env) req of
       Inl resp \<Rightarrow> (Some resp, s)
     | Inr r \<Rightarrow>
         if CODE_MAX_BYTES < length (recovery_key r) then (Some (error 400 ''invalid_argument''), s)
         else case ask (peer_confirm_recovery_key pr (recovery_key r)) s of
                (Inr _, s) \<Rightarrow> (Some no_content, log_event ''confirm'' c ''ok'' s)
              | (Inl e, s) \<Rightarrow> refused ''confirm'' c e s)"

definition login :: "http_env \<Rightarrow> sessions_env \<Rightarrow> 'p peer \<Rightarrow> request \<Rightarrow> 'p app_state \<Rightarrow> response option \<times> 'p app_state" where
  "login env senv pr req = with_origin ''login'' req (\<lambda>c s.
     case parse_body env (from_slice_login env) req of
       Inl resp \<Rightarrow> (Some resp, s)
     | Inr r \<Rightarrow>
         if PASSWORD_MAX_BYTES < length (password r) then (Some (error 400 ''invalid_argument''), s)
         else case ask (peer_verify_password pr (password r)) s of
                (Inl e, s) \<Rightarrow> refused ''login'' c e s
              | (Inr _, s) \<Rightarrow>
                  (case on_part sess (\<lambda>t s. s\<lparr>sess := t\<rparr>) (create senv) s of
                     (Inl _, s) \<Rightarrow> (Some (error 503 ''unavailable''), log_event ''login'' c ''unavailable'' s)
                   | (Inr sid, s) \<Rightarrow>
                       (Some (with_cookie (set_cookie env sid (uint ABSOLUTE_TIMEOUT)) no_content),
                        log_event ''login'' c ''ok'' s)))"

definition logout :: "http_env \<Rightarrow> request \<Rightarrow> 'p app_state \<Rightarrow> response option \<times> 'p app_state" where
  "logout env req = with_origin ''logout'' req (\<lambda>c s.
     case to_bytes env (req_body req) BODY_LIMIT of
       Some [] \<Rightarrow>
         let s = (case session_cookie env (req_headers req) of
                    Some sid \<Rightarrow> s\<lparr>sess := remove sid (sess s)\<rparr>
                  | None \<Rightarrow> s)
         in (Some (with_cookie (set_cookie env [] 0) no_content), log_event ''logout'' c ''ok'' s)
     | _ \<Rightarrow> (Some (error 400 ''bad_request''), s))"

definition status :: "http_env \<Rightarrow> sessions_env \<Rightarrow> 'p peer \<Rightarrow> request \<Rightarrow> 'p app_state \<Rightarrow> response option \<times> 'p app_state" where
  "status env senv pr req s =
     (let (authenticated, s) =
            (case session_cookie env (req_headers req) of
               None \<Rightarrow> (False, s)
             | Some sid \<Rightarrow> (case validate senv sid (sess s) of (b, t) \<Rightarrow> (b, s\<lparr>sess := t\<rparr>)))
      in if \<not> authenticated then (Some (error 401 ''unauthenticated''), s)
         else case ask (peer_status pr) s of
                (Inr st, s) \<Rightarrow> (Some (json_response st), s)
              | (Inl _, s) \<Rightarrow> (Some (error 503 ''unavailable''), s))"

section \<open>The router\<close>

definition routes :: "(string \<times> meth \<times> handler) list" where
  "routes = [(''/'', GET, Index), (''/app.js'', GET, AppJs), (''/app.css'', GET, AppCss),
     (''/api/v1/pair'', POST, Pair), (''/api/v1/confirm'', POST, Confirm), (''/api/v1/login'', POST, Login),
     (''/api/v1/logout'', POST, Logout), (''/api/v1/status'', GET, Status)]"

fun handle :: "http_env \<Rightarrow> sessions_env \<Rightarrow> 'p peer \<Rightarrow> routed \<Rightarrow> request \<Rightarrow> 'p app_state \<Rightarrow> response option \<times> 'p app_state" where
  "handle env senv pr (Matched Index) req s = (Some (static_response ''text/html; charset=utf-8'' (index_html env)), s)"
| "handle env senv pr (Matched AppJs) req s = (Some (static_response ''text/javascript; charset=utf-8'' (app_js_text env)), s)"
| "handle env senv pr (Matched AppCss) req s = (Some (static_response ''text/css; charset=utf-8'' (app_css_text env)), s)"
| "handle env senv pr (Matched Pair) req s = pair env pr req s"
| "handle env senv pr (Matched Confirm) req s = confirm env pr req s"
| "handle env senv pr (Matched Login) req s = login env senv pr req s"
| "handle env senv pr (Matched Logout) req s = logout env req s"
| "handle env senv pr (Matched Status) req s = status env senv pr req s"
| "handle env senv pr NoRoute req s = (Some (error 404 ''not_found''), s)"
| "handle env senv pr WrongMethod req s = (Some (error 405 ''method_not_allowed''), s)"

definition host_check :: "request \<Rightarrow> ('p app_state \<Rightarrow> response option \<times> 'p app_state) \<Rightarrow>
    'p app_state \<Rightarrow> response option \<times> 'p app_state" where
  "host_check req rest s =
     (case req_conn req of
        None \<Rightarrow> (Some (error 421 ''misdirected''), s)
      | Some c \<Rightarrow> if \<not> host_ok req c then (Some (error 421 ''misdirected''), s) else rest s)"

definition SECURITY_HEADERS :: header_map where
  "SECURITY_HEADERS = [(''cache-control'', ''no-store''), (''x-content-type-options'', ''nosniff''),
     (''referrer-policy'', ''no-referrer''), (''x-frame-options'', ''DENY''),
     (''content-security-policy'', CONTENT_SECURITY_POLICY)]"

definition security_headers :: "response \<Rightarrow> response" where
  "security_headers r = r\<lparr>resp_headers := fold (\<lambda>(n, v). insert_header n v) SECURITY_HEADERS (resp_headers r)\<rparr>"

definition router :: "http_env \<Rightarrow> sessions_env \<Rightarrow> 'p peer \<Rightarrow> request \<Rightarrow> 'p app_state \<Rightarrow> response option \<times> 'p app_state" where
  "router env senv pr req s =
     (case host_check req (handle env senv pr (dispatch env routes (req_method req) (req_path req)) req) s of
        (resp, s') \<Rightarrow> (map_option security_headers resp, s'))"

section \<open>What a request does\<close>

text \<open>The router of the HTTP library: exact paths, and a GET route also takes HEAD requests.\<close>

definition dispatch_ok :: "http_env \<Rightarrow> bool" where
  "dispatch_ok env \<longleftrightarrow>
     (\<forall>m p h. dispatch env routes m p = Matched h \<longrightarrow>
        (\<exists>m'. (p, m', h) \<in> set routes \<and> (m' = m \<or> m' = GET \<and> m = HEAD)))"

abbreviation routed_to :: "http_env \<Rightarrow> request \<Rightarrow> routed" where
  "routed_to env req \<equiv> dispatch env routes (req_method req) (req_path req)"

definition addressed :: "request \<Rightarrow> bool" where
  "addressed req \<longleftrightarrow> (\<exists>c. req_conn req = Some c \<and> host_ok req c)"

definition same_origin :: "request \<Rightarrow> bool" where
  "same_origin req \<longleftrightarrow> (\<exists>c. req_conn req = Some c \<and> origin_ok (req_headers req) c)"

text \<open>A request that logs in, and is given the identifier; a request that logs the identifier out.\<close>

definition login_granted :: "http_env \<Rightarrow> sessions_env \<Rightarrow> 'p peer \<Rightarrow> request \<Rightarrow> 'p app_state \<Rightarrow> string \<Rightarrow> bool" where
  "login_granted env senv pr req s sid \<longleftrightarrow>
     routed_to env req = Matched Login \<and> addressed req \<and> same_origin req \<and>
     fst (create senv (sess s)) = Inr sid \<and>
     (case parse_body env (from_slice_login env) req of
        Inl _ \<Rightarrow> False
      | Inr r \<Rightarrow> length (password r) \<le> 1024 \<and> fst (peer_verify_password pr (password r) (peer_state s)) = Inr ())"

definition logged_out :: "http_env \<Rightarrow> request \<Rightarrow> string \<Rightarrow> bool" where
  "logged_out env req sid \<longleftrightarrow>
     routed_to env req = Matched Logout \<and> addressed req \<and> same_origin req \<and>
     to_bytes env (req_body req) BODY_LIMIT = Some [] \<and> session_cookie env (req_headers req) = Some sid"

lemmas handler_defs = pair_def confirm_def login_def logout_def status_def with_origin_def refused_def auth_error_def
  ask_def on_part_def log_event_def conn_def Let_def

lemma host_check_cases:
  "host_check req rest s = (if addressed req then rest s else (Some (error 421 ''misdirected''), s))"
  by (auto simp: host_check_def addressed_def split: option.splits)

lemma with_origin_cases:
  "with_origin route req rest s =
     (case req_conn req of
        None \<Rightarrow> (None, s)
      | Some c \<Rightarrow>
          if same_origin req then rest c s
          else (Some (error 403 ''forbidden_origin''), log_event route c ''forbidden_origin'' s))"
  by (auto simp: with_origin_def same_origin_def conn_def split: option.splits)

lemma router_cases:
  "router env senv pr req s =
     (if addressed req
      then (case handle env senv pr (routed_to env req) req s of (resp, s') \<Rightarrow> (map_option security_headers resp, s'))
      else (Some (security_headers (error 421 ''misdirected'')), s))"
  by (simp add: router_def host_check_cases)

subsection \<open>Responses\<close>

lemma handle_answers: "addressed req \<Longrightarrow> fst (handle env senv pr rt req s) \<noteq> None"
  by (cases "(env, senv, pr, rt, req, s)" rule: handle.cases)
    (auto simp: handler_defs addressed_def split: option.splits sum.splits prod.splits if_splits list.splits)

lemma get_all_insert: "get_all n (insert_header m v hs) = (if n = m then [v] else get_all n hs)"
  by (auto simp: get_all_def insert_header_def intro: arg_cong [where f = "map snd"] filter_cong)

lemma security_headers_present:
  "list_all (\<lambda>(n, v). get_all n (resp_headers (security_headers r)) = [v]) SECURITY_HEADERS"
  by (simp add: security_headers_def SECURITY_HEADERS_def get_all_insert)

subsection \<open>Sessions\<close>

text \<open>Every request has at most one effect on the sessions.\<close>

lemma login_sess:
  assumes "login env senv pr req s = (resp, s')" "routed_to env req = Matched Login" "addressed req"
  shows "(\<exists>sid. login_granted env senv pr req s sid \<and> create senv (sess s) = (Inr sid, sess s') \<and>
      resp = Some (with_cookie (set_cookie env sid 28800) no_content)) \<or>
    create senv (sess s) = (Inl (), sess s') \<or> sess s' = sess s"
  using assms
  by (auto simp: login_def with_origin_cases refused_def auth_error_def ask_def on_part_def log_event_def login_granted_def
      PASSWORD_MAX_BYTES_def ABSOLUTE_TIMEOUT_def split: option.splits sum.splits prod.splits if_splits)

lemma logout_sess:
  assumes "logout env req s = (resp, s')" "routed_to env req = Matched Logout" "addressed req"
  shows "if \<exists>sid. logged_out env req sid
    then (\<exists>sid. session_cookie env (req_headers req) = Some sid \<and> sess s' = remove sid (sess s)) else sess s' = sess s"
  using assms
  by (auto simp: logout_def with_origin_cases log_event_def logged_out_def addressed_def Let_def
      split: option.splits list.splits if_splits)

lemma status_sess:
  assumes "status env senv pr req s = (resp, s')"
  shows "(\<exists>sid b. session_cookie env (req_headers req) = Some sid \<and> validate senv sid (sess s) = (b, sess s')) \<or> sess s' = sess s"
  using assms by (auto simp: handler_defs split: option.splits sum.splits prod.splits if_splits)

lemma pair_sess: "pair env pr req s = (resp, s') \<Longrightarrow> sess s' = sess s"
  by (auto simp: handler_defs split: option.splits sum.splits prod.splits if_splits)

lemma confirm_sess: "confirm env pr req s = (resp, s') \<Longrightarrow> sess s' = sess s"
  by (auto simp: handler_defs split: option.splits sum.splits prod.splits if_splits)

lemma router_sess:
  assumes "router env senv pr req s = (resp, s')"
  obtains (granted) sid where "login_granted env senv pr req s sid" "create senv (sess s) = (Inr sid, sess s')"
      "resp = Some (security_headers (with_cookie (set_cookie env sid 28800) no_content))"
  | (not_granted) "\<And>sid. \<not> logged_out env req sid" "create senv (sess s) = (Inl (), sess s')"
  | (checked) sid b where "\<And>sid. \<not> logged_out env req sid" "validate senv sid (sess s) = (b, sess s')"
  | (discarded) sid where "logged_out env req sid" "sess s' = remove sid (sess s)"
  | (unchanged) "\<And>sid. \<not> logged_out env req sid" "sess s' = sess s"
proof (cases "addressed req")
  case False
  then show ?thesis using assms unchanged by (auto simp: router_cases logged_out_def)
next
  case True
  then obtain resp' where h: "handle env senv pr (routed_to env req) req s = (resp', s')"
    and resp: "resp = map_option security_headers resp'"
    using assms by (auto simp: router_cases split: prod.splits)
  have other: "\<not> logged_out env req sid" if "routed_to env req \<noteq> Matched Logout" for sid
    using that by (simp add: logged_out_def)
  show ?thesis
  proof (cases "routed_to env req")
    case (Matched x)
    show ?thesis
    proof (cases x)
      case Login
      then show ?thesis
        using login_sess [of env senv pr req s resp' s'] h resp True Matched other granted not_granted unchanged by auto
    next
      case Logout
      then show ?thesis
        using logout_sess [of env req s resp' s'] h True Matched discarded unchanged
        by (auto simp: logged_out_def split: if_splits)
    next
      case Status
      then show ?thesis using status_sess [of env senv pr req s] h Matched other checked unchanged by auto
    qed (use h Matched other unchanged in \<open>auto dest: pair_sess confirm_sess\<close>)
  qed (use h other unchanged in auto)
qed

subsection \<open>The journal\<close>

definition outcomes :: "string set" where
  "outcomes = {''ok'', ''forbidden_origin'', ''unavailable''} \<union> range (snd \<circ> auth_error_code)"

definition logged :: "string \<Rightarrow> request \<Rightarrow> 'p app_state \<Rightarrow> 'p app_state \<Rightarrow> bool" where
  "logged route req s s' \<longleftrightarrow>
     journal s' = journal s \<or>
     (\<exists>c outcome. req_conn req = Some c \<and> outcome \<in> outcomes \<and>
        journal s' = event_line route (ip (peer c)) outcome # journal s)"

lemma logged_refl [simp]: "logged route req s s"
  by (simp add: logged_def)

lemma logged_event:
  "req_conn req = Some c \<Longrightarrow> outcome \<in> outcomes \<Longrightarrow> journal t = journal s \<Longrightarrow> logged route req s (log_event route c outcome t)"
  by (auto simp: logged_def log_event_def)

lemma outcome_fixed [simp]: "''ok'' \<in> outcomes" "''forbidden_origin'' \<in> outcomes" "''unavailable'' \<in> outcomes"
  by (simp_all add: outcomes_def)

lemma refused_logged:
  assumes "refused route c e t = (resp, s')" "req_conn req = Some c" "journal t = journal s"
  shows "logged route req s s'"
proof -
  have "snd (auth_error_code e) \<in> outcomes" by (simp add: outcomes_def)
  then show ?thesis
    using assms logged_event [OF assms(2) _ assms(3)] by (auto simp: refused_def auth_error_def split: prod.splits)
qed

lemma ask_journal: "ask m s = (r, s') \<Longrightarrow> journal s' = journal s"
  by (auto simp: ask_def on_part_def split: prod.splits)

lemma with_origin_logged:
  assumes "with_origin route req rest s = (resp, s')"
    "\<And>c. req_conn req = Some c \<Longrightarrow> rest c s = (resp, s') \<Longrightarrow> logged route req s s'"
  shows "logged route req s s'"
proof (cases "req_conn req")
  case None
  then show ?thesis using assms(1) by (simp add: with_origin_cases logged_def)
next
  case (Some c)
  then show ?thesis using assms by (auto simp: with_origin_cases intro: logged_event split: if_splits)
qed

lemma pair_logged: "pair env pr req s = (resp, s') \<Longrightarrow> logged ''pair'' req s s'"
  unfolding pair_def
  by (erule with_origin_logged)
    (auto intro: logged_event refused_logged dest!: ask_journal
      split: sum.splits if_splits prod.splits)

lemma confirm_logged: "confirm env pr req s = (resp, s') \<Longrightarrow> logged ''confirm'' req s s'"
  unfolding confirm_def
  by (erule with_origin_logged)
    (auto intro: logged_event refused_logged dest!: ask_journal
      split: sum.splits if_splits prod.splits)

lemma create_journal: "on_part sess (\<lambda>t s. s\<lparr>sess := t\<rparr>) m s = (r, s') \<Longrightarrow> journal s' = journal s"
  by (auto simp: on_part_def split: prod.splits)

lemma login_logged: "login env senv pr req s = (resp, s') \<Longrightarrow> logged ''login'' req s s'"
  unfolding login_def
  by (erule with_origin_logged)
    (auto intro: logged_event refused_logged dest!: ask_journal create_journal
      split: sum.splits if_splits prod.splits)

lemma logout_logged: "logout env req s = (resp, s') \<Longrightarrow> logged ''logout'' req s s'"
  unfolding logout_def
  by (erule with_origin_logged)
    (auto simp: Let_def intro: logged_event split: option.splits list.splits)

lemma status_logged: "status env senv pr req s = (resp, s') \<Longrightarrow> journal s' = journal s"
  by (auto simp: status_def Let_def dest!: ask_journal split: option.splits sum.splits prod.splits if_splits)

subsection \<open>Runs\<close>

text \<open>Requests are served one after another on the sessions (they are behind a lock); the trace records each
  request with the state it found, newest first.\<close>

inductive http_run :: "http_env \<Rightarrow> sessions_env \<Rightarrow> 'p peer \<Rightarrow> 'p app_state \<Rightarrow> (request \<times> 'p app_state) list \<Rightarrow> bool"
  for env senv pr where
  init: "http_run env senv pr \<lparr>sess = no_sessions, peer_state = p, journal = []\<rparr> []"
| step: "http_run env senv pr s tr \<Longrightarrow> router env senv pr req s = (resp, s') \<Longrightarrow> http_run env senv pr s' ((req, s) # tr)"
| elsewhere: "http_run env senv pr s tr \<Longrightarrow> http_run env senv pr (s\<lparr>peer_state := p\<rparr>) tr"

text \<open>The trace has a login that was granted the identifier at that time, and no logout of it since.\<close>

fun granted_in :: "http_env \<Rightarrow> sessions_env \<Rightarrow> 'p peer \<Rightarrow> (request \<times> 'p app_state) list \<Rightarrow> string \<Rightarrow> u64 \<Rightarrow> bool" where
  "granted_in env senv pr [] sid t = False"
| "granted_in env senv pr ((req, s) # tr) sid t =
     (login_granted env senv pr req s sid \<and> now_at senv (readings (sess s)) = Some t \<or>
      \<not> logged_out env req sid \<and> granted_in env senv pr tr sid t)"

lemma create_time: "create senv s = (Inr sid, s') \<Longrightarrow> \<exists>t. now_at senv (readings s) = Some t"
  by (auto simp: create_def split: option.splits)

lemma validate_time: "validate senv sid s = (True, s') \<Longrightarrow> \<exists>t. now_at senv (readings s) = Some t"
  by (auto simp: validate_def split: option.splits if_splits)

text \<open>A run of the HTTP interface is a run of the sessions, whose issues are logins.\<close>

definition http_refines :: "http_env \<Rightarrow> sessions_env \<Rightarrow> 'p peer \<Rightarrow> 'p app_state \<Rightarrow> (request \<times> 'p app_state) list \<Rightarrow>
    session_event list \<Rightarrow> bool" where
  "http_refines env senv pr s tr h \<longleftrightarrow>
     session_run senv (sess s) h \<and> (\<forall>sid t. issued_at h sid = Some t \<longrightarrow> granted_in env senv pr tr sid t)"

lemma http_run_refines: "http_run env senv pr s tr \<Longrightarrow> \<exists>h. http_refines env senv pr s tr h"
proof (induction rule: http_run.induct)
  case (init p)
  then show ?case using session_run.init [of senv] by (auto simp: http_refines_def no_sessions_def)
next
  case (step s tr req resp s')
  then obtain h where run: "session_run senv (sess s) h"
    and g: "\<And>sid t. issued_at h sid = Some t \<Longrightarrow> granted_in env senv pr tr sid t"
    by (auto simp: http_refines_def)
  from step.hyps(2) show ?case
  proof (cases rule: router_sess)
    case (granted sid)
    then obtain t where t: "now_at senv (readings (sess s)) = Some t" using create_time by blast
    then have "http_refines env senv pr s' ((req, s) # tr) (Issued sid t # h)"
      using granted session_run.issue [OF run granted(2) t] g
      by (auto simp: http_refines_def login_granted_def logged_out_def)
    then show ?thesis by blast
  next
    case not_granted
    then show ?thesis
      using session_run.issue_failed [OF run not_granted(2)] g by (auto simp: http_refines_def)
  next
    case (checked sid b)
    show ?thesis
    proof (cases b)
      case True
      then obtain t where t: "now_at senv (readings (sess s)) = Some t" using validate_time [of senv sid "sess s" "sess s'"] checked by auto
      then have "http_refines env senv pr s' ((req, s) # tr) (Accepted sid t # h)"
        using checked True session_run.accept [OF run, of sid "sess s'"] g by (auto simp: http_refines_def)
      then show ?thesis by blast
    next
      case False
      then show ?thesis using checked session_run.refuse [OF run, of sid "sess s'"] g by (auto simp: http_refines_def)
    qed
  next
    case (discarded sid)
    then have "http_refines env senv pr s' ((req, s) # tr) (Removed sid # h)"
      using session_run.remove [OF run, of sid] g by (auto simp: http_refines_def logged_out_def split: if_splits)
    then show ?thesis by blast
  next
    case unchanged
    then show ?thesis using run g by (auto simp: http_refines_def)
  qed
next
  case (elsewhere s tr p)
  then show ?case by (auto simp: http_refines_def)
qed

text \<open>An identifier that becomes known was granted to a login.\<close>

lemma new_id_granted:
  assumes "router env senv pr req s = (resp, s')" "\<not> lock_poisoned (sess s)" "sid \<in> known_ids (sess s')" "sid \<notin> known_ids (sess s)"
  shows "login_granted env senv pr req s sid \<and>
    resp = Some (security_headers (with_cookie (set_cookie env sid 28800) no_content))"
  using assms(1)
proof (cases rule: router_sess)
  case (granted sid')
  then have "sid = sid'" using web_sessions.make_known [OF assms(2) granted(2)] assms(3,4) by auto
  then show ?thesis using granted by simp
next
  case not_granted
  then show ?thesis using web_sessions.make_known [OF assms(2) not_granted(2)] assms(3,4) by auto
next
  case (checked sid' b)
  then show ?thesis using web_sessions.check_known [OF checked(2)] assms(3,4) by auto
next
  case (discarded sid')
  then show ?thesis using web_sessions.discard_known [OF assms(2), of sid'] assms(3,4) by auto
qed (use assms(3,4) in simp)

section \<open>Properties\<close>

subsection \<open>A concrete exchange\<close>

definition demo_http :: http_env where
  "demo_http = \<lparr>to_str = Some, to_bytes = (\<lambda>b n. if length b \<le> n then Some b else None),
     from_slice_pair = (\<lambda>_. None), from_slice_confirm = (\<lambda>_. None), from_slice_login = (\<lambda>b. Some \<lparr>password = b\<rparr>),
     json_recovery_key = (\<lambda>k. k), split_parse = (\<lambda>v. [split_once CHR ''='' v]), cookie_to_string = cookie_value,
     dispatch = (\<lambda>rs m p. case find (\<lambda>(q, _, _). q = p) rs of
                   None \<Rightarrow> NoRoute | Some (_, m', h) \<Rightarrow> if m' = m then Matched h else WrongMethod),
     index_html = [], app_js_text = [], app_css_text = []\<rparr>"

definition demo_peer :: "unit peer" where
  "demo_peer = \<lparr>peer_verify_password = (\<lambda>pw p. (if pw = ''correct'' then Inr () else Inl InvalidCredential, p)),
     peer_consume_pairing = (\<lambda>_ _ p. (Inl NoPendingPairing, p)), peer_confirm_recovery_key = (\<lambda>_ p. (Inl NoProvisionalEnrollment, p)),
     peer_status = (\<lambda>p. (Inr ''{}'', p))\<rparr>"

definition demo_conn :: conn_info where
  "demo_conn = \<lparr>local = \<lparr>ip = V4 0xc0a80102, port = PORT\<rparr>, peer = \<lparr>ip = V4 0xc0a80103, port = 40000\<rparr>\<rparr>"

definition demo_login :: request where
  "demo_login = \<lparr>req_method = POST, req_path = ''/api/v1/login'', req_authority = None,
     req_headers = [(''host'', endpoint (local demo_conn)), (''origin'', ''https://'' @ endpoint (local demo_conn)),
       (''content-type'', ''application/json'')], req_body = ''correct'', req_conn = Some demo_conn\<rparr>"

definition demo_status_request :: request where
  "demo_status_request = \<lparr>req_method = GET, req_path = ''/api/v1/status'', req_authority = None,
     req_headers = [(''host'', endpoint (local demo_conn)), (''cookie'', COOKIE_NAME @ ''='' @ demo_sid)],
     req_body = [], req_conn = Some demo_conn\<rparr>"

definition demo_app :: "unit app_state" where
  "demo_app = \<lparr>sess = no_sessions, peer_state = (), journal = []\<rparr>"

definition logged_in_app :: "unit app_state" where
  "logged_in_app = \<lparr>sess = one_session, peer_state = (), journal = [event_line ''login'' (ip (peer demo_conn)) ''ok'']\<rparr>"

lemma demo_dispatch:
  "routed_to demo_http demo_login = Matched Login" "routed_to demo_http demo_status_request = Matched Status"
  by (simp_all add: demo_http_def demo_login_def demo_status_request_def routes_def)

lemma demo_dispatch_ok: "dispatch_ok demo_http"
  unfolding dispatch_ok_def demo_http_def
  by (auto simp: find_Some_iff in_set_conv_nth split: option.splits if_splits) blast

lemma demo_addressed: "addressed demo_login" "same_origin demo_login" "addressed demo_status_request"
  by (simp_all add: addressed_def same_origin_def demo_login_def demo_status_request_def host_ok_def origin_ok_def get_all_def Let_def)

lemma demo_body: "parse_body demo_http (from_slice_login demo_http) demo_login = Inr \<lparr>password = ''correct''\<rparr>"
proof -
  have "to_ascii_lowercase ''application/json'' = ''application/json''"
    by (simp add: to_ascii_lowercase_def to_ascii_lowercase_char_def Let_def)
  then show ?thesis
    by (simp add: parse_body_def json_content_type_def demo_http_def demo_login_def get_all_def BODY_LIMIT_def ok_or_def)
qed

lemma demo_login_served:
  "router demo_http demo_sessions demo_peer demo_login demo_app =
     (Some (security_headers (with_cookie (set_cookie demo_http demo_sid 28800) no_content)), logged_in_app)"
  using demo_create
  by (simp add: router_cases demo_addressed demo_dispatch login_def with_origin_cases demo_body demo_login_def [THEN arg_cong, of req_conn, simplified]
      PASSWORD_MAX_BYTES_def ask_def on_part_def demo_peer_def log_event_def demo_app_def logged_in_app_def ABSOLUTE_TIMEOUT_def)

lemma demo_cookie: "session_cookie demo_http (req_headers demo_status_request) = Some demo_sid"
  by (simp add: session_cookie_def demo_http_def demo_status_request_def get_all_def COOKIE_NAME_def map_filter_simps)

lemma demo_http_run: "http_run demo_http demo_sessions demo_peer logged_in_app [(demo_login, demo_app)]"
  by (rule http_run.step [OF http_run.init [of demo_http demo_sessions demo_peer "()", folded demo_app_def] demo_login_served])

text \<open>Every request is answered, without a panic, and every response, errors and refusals included, has each
  of the five security headers exactly once with its fixed value.\<close>

theorem responses_hardened:
  "\<exists>resp. fst (router env senv pr req s) = Some resp \<and>
     list_all (\<lambda>(n, v). get_all n (resp_headers resp) = [v])
       [(''cache-control'', ''no-store''), (''x-content-type-options'', ''nosniff''), (''referrer-policy'', ''no-referrer''),
        (''x-frame-options'', ''DENY''), (''content-security-policy'', CONTENT_SECURITY_POLICY)]"
proof (cases "addressed req")
  case True
  then obtain resp s' where "handle env senv pr (routed_to env req) req s = (Some resp, s')"
    using handle_answers by (metis not_None_eq prod.collapse)
  then show ?thesis
    using True security_headers_present [of resp] by (simp add: router_cases SECURITY_HEADERS_def)
next
  case False
  then show ?thesis
    using security_headers_present [of "error 421 ''misdirected''"] by (simp add: router_cases SECURITY_HEADERS_def)
qed

text \<open>C3: no cross-site effects.  A request that does not name the accepting listener as its host changes nothing
  at all and is answered 421; and a request that changes the sessions or the state behind the peers is
  either the status query, or a POST to one of the four API actions with exactly one Origin header, that of
  the listener itself.\<close>

theorem effects_need_host_and_origin:
  assumes "dispatch_ok env" "router env senv pr req s = (resp, s')"
  shows "(addressed req \<or> s' = s \<and> map_option status_code resp = Some 421) \<and>
    (sess s' = sess s \<and> peer_state s' = peer_state s \<or>
     routed_to env req = Matched Status \<or> req_method req = POST \<and> same_origin req)"
proof -
  have post: "req_method req = POST" if "routed_to env req = Matched h" "h \<in> {Pair, Confirm, Login, Logout}" for h
    using assms(1) that by (fastforce simp: dispatch_ok_def routes_def)
  show ?thesis
  proof (cases "addressed req")
    case True
    then obtain resp' where h: "handle env senv pr (routed_to env req) req s = (resp', s')"
      using assms(2) by (auto simp: router_cases split: prod.splits)
    then have "sess s' = sess s \<and> peer_state s' = peer_state s \<or> routed_to env req = Matched Status \<or>
      (\<exists>h \<in> {Pair, Confirm, Login, Logout}. routed_to env req = Matched h) \<and> same_origin req"
      by (cases "(env, senv, pr, routed_to env req, req, s)" rule: handle.cases)
        (auto simp: pair_def confirm_def login_def logout_def with_origin_cases log_event_def split: option.splits if_splits)
    then show ?thesis using True post by blast
  next
    case False
    then show ?thesis using assms(2) by (auto simp: router_cases error_def security_headers_def)
  qed
qed

theorem effects_need_host_and_origin_witness:
  "sess logged_in_app \<noteq> sess demo_app \<and> req_method demo_login = POST \<and> same_origin demo_login"
proof -
  have "sess logged_in_app \<noteq> sess demo_app"
    by (simp add: logged_in_app_def demo_app_def one_session_def no_sessions_def)
  moreover have "routed_to demo_http demo_login \<noteq> Matched Status" by (simp add: demo_dispatch)
  ultimately show ?thesis
    using effects_need_host_and_origin [OF demo_dispatch_ok demo_login_served] by blast
qed

text \<open>Only a correct password opens a session: if a request makes an identifier known that was not known
  before, it was a well-addressed login from the listener's own origin whose password, of at most 1024
  bytes, sl-authd accepted, and its response sets exactly that identifier as the cookie.\<close>

theorem sessions_open_by_password:
  assumes "router env senv pr req s = (resp, s')" "\<not> lock_poisoned (sess s)" "sid \<in> known_ids (sess s')" "sid \<notin> known_ids (sess s)"
  shows "login_granted env senv pr req s sid \<and>
    resp = Some (security_headers (with_cookie (set_cookie env sid 28800) no_content))"
  by (rule new_id_granted [OF assms])

theorem sessions_open_by_password_witness:
  "demo_sid \<in> known_ids (sess logged_in_app) \<and> login_granted demo_http demo_sessions demo_peer demo_login demo_app demo_sid"
proof -
  have k: "demo_sid \<in> known_ids (sess logged_in_app)" "demo_sid \<notin> known_ids (sess demo_app)" "\<not> lock_poisoned (sess demo_app)"
    by (simp_all add: known_ids_def logged_in_app_def demo_app_def one_session_def no_sessions_def)
  show ?thesis using k(1) sessions_open_by_password [OF demo_login_served k(3,1,2)] by blast
qed



text \<open>The journal holds no secrets: whatever is in a request, the line it adds, if any, is made of a route name,
  the address of the peer, and an outcome, each of a fixed finite choice but for the address.\<close>

theorem journal_discloses_no_credential:
  assumes "router env senv pr req s = (resp, s')"
  shows "journal s' = journal s \<or>
    (\<exists>c route outcome. req_conn req = Some c \<and> route \<in> {''pair'', ''confirm'', ''login'', ''logout''} \<and>
       outcome \<in> {''ok'', ''forbidden_origin'', ''unavailable''} \<union> range (snd \<circ> auth_error_code) \<and>
       journal s' = event_line route (ip (peer c)) outcome # journal s)"
proof (cases "addressed req")
  case True
  then obtain resp' where "handle env senv pr (routed_to env req) req s = (resp', s')"
    using assms by (auto simp: router_cases split: prod.splits)
  then have "journal s' = journal s \<or> (\<exists>route \<in> {''pair'', ''confirm'', ''login'', ''logout''}. logged route req s s')"
    by (cases "(env, senv, pr, routed_to env req, req, s)" rule: handle.cases)
      (auto dest: pair_logged confirm_logged login_logged logout_logged status_logged)
  then show ?thesis unfolding logged_def outcomes_def by blast
next
  case False
  then show ?thesis using assms by (auto simp: router_cases)
qed

theorem journal_discloses_no_credential_witness:
  "\<exists>c route outcome. req_conn demo_login = Some c \<and> journal logged_in_app = [event_line route (ip (peer c)) outcome]"
  using journal_discloses_no_credential [OF demo_login_served]
  by (auto simp: logged_in_app_def demo_app_def)

end
