(* ===== verification/Protocol.thy ===== *)
theory Protocol
  imports SL_Prelude
begin

text \<open>
  The status documents and the errors of the platform interface (\<^verbatim>\<open>src/crates/protocol/src/lib.rs\<close>).  Two structures
  or enumerations of the source that share a field or a variant name get a prefix here (\<^verbatim>\<open>state\<close>, \<^verbatim>\<open>failure\<close>, \<^verbatim>\<open>Idle\<close>).
  The end of the theory has what \<^verbatim>\<open>str\<close> offers for texts in UTF-8 and the types of a D-Bus call.
\<close>

section \<open>Status documents\<close>

definition SCHEMA_VERSION :: string where "SCHEMA_VERSION = ''0.3''"
definition SESSION_SCHEMA_VERSION :: string where "SESSION_SCHEMA_VERSION = ''0.4''"

record machine_status =
  machine_id :: string
  architecture :: string
  boot_id :: string

datatype network_state = Unknown | Disconnected | Connecting | ConnectedLocal | ConnectedSite | ConnectedGlobal

record primary_connection =
  interface :: string
  addresses :: "string list"
  default_gateways :: "string list"

record network_status =
  network_status_state :: network_state
  primary_connection :: "primary_connection option"

record deployment =
  deployment_id :: string
  image_reference :: "string option"
  image_digest :: "string option"

datatype update_state = UpdateIdle | UpdateRunning | UpdateStaged | UpdateFailed

record update_failure =
  update_failure_code :: string
  update_failure_message :: string

record update_status =
  update_status_state :: update_state
  staged :: "deployment option"
  update_reboot_required :: bool
  update_status_failure :: "update_failure option"

datatype rollback_state = RollbackIdle | RollbackRunning | RollbackQueued | RollbackFailed

record rollback_failure =
  rollback_failure_code :: string
  rollback_failure_message :: string

record rollback_status =
  rollback_status_state :: rollback_state
  rollback_reboot_required :: bool
  rollback_status_failure :: "rollback_failure option"

datatype health_state = Healthy | Degraded

record health =
  health_state :: health_state
  system_state :: string
  failed_units :: u32

record status =
  schema_version :: string
  product :: string
  version :: string
  platform_api_version :: string
  source_revision :: "string option"
  build_id :: "string option"
  machine :: machine_status
  network :: network_status
  booted :: deployment
  retained_rollback :: "deployment option"
  update :: update_status
  rollback :: rollback_status
  health :: health

record remote_management_status =
  enabled :: bool
  listening :: bool
  enrolled :: bool

record session_status = status +
  remote_management :: remote_management_status

definition from_platform :: "status \<Rightarrow> remote_management_status \<Rightarrow> session_status" where
  "from_platform st rm =
     \<lparr>schema_version = SESSION_SCHEMA_VERSION, product = product st, version = version st,
      platform_api_version = platform_api_version st, source_revision = source_revision st,
      build_id = build_id st, machine = machine st, network = network st, booted = booted st,
      retained_rollback = retained_rollback st, update = update st, rollback = rollback st,
      health = health st, remote_management = rm\<rparr>"

section \<open>Errors and calls\<close>

text \<open>What the code can tell apart of an error of the bus: an error reply with its name and text, a failure of
  the connection with its kind, anything else.\<close>

datatype io_kind = BrokenPipe | UnexpectedEof | ConnectionReset | ConnectionAborted | TimedOutKind | OtherKind

datatype zbus_error = ErrorReply string "string option" | InputOutput io_kind | Failure string

datatype platform_error =
  BackendUnavailable string | BackendTimeout string | InvalidBackendData string | MetadataUnavailable string
| HealthUnavailable string | MachineUnavailable string | NetworkUnavailable string | UpdateUnavailable string
| RollbackUnavailable string | RebootUnavailable string | Conflict string | Busy string
| RemoteManagementUnavailable string | AuthUnavailable string | ResetIncomplete string | ZBus zbus_error

definition PLATFORM_ERROR_PREFIX :: string where
  "PLATFORM_ERROR_PREFIX = ''org.signallayer.Platform1.Error.''"

text \<open>What \<^verbatim>\<open>zbus::DBusError\<close> derives: the name of the error reply and its text.\<close>

fun platform_error_name :: "platform_error \<Rightarrow> string" where
  "platform_error_name (BackendUnavailable _) = PLATFORM_ERROR_PREFIX @ ''BackendUnavailable''"
| "platform_error_name (BackendTimeout _) = PLATFORM_ERROR_PREFIX @ ''BackendTimeout''"
| "platform_error_name (InvalidBackendData _) = PLATFORM_ERROR_PREFIX @ ''InvalidBackendData''"
| "platform_error_name (MetadataUnavailable _) = PLATFORM_ERROR_PREFIX @ ''MetadataUnavailable''"
| "platform_error_name (HealthUnavailable _) = PLATFORM_ERROR_PREFIX @ ''HealthUnavailable''"
| "platform_error_name (MachineUnavailable _) = PLATFORM_ERROR_PREFIX @ ''MachineUnavailable''"
| "platform_error_name (NetworkUnavailable _) = PLATFORM_ERROR_PREFIX @ ''NetworkUnavailable''"
| "platform_error_name (UpdateUnavailable _) = PLATFORM_ERROR_PREFIX @ ''UpdateUnavailable''"
| "platform_error_name (RollbackUnavailable _) = PLATFORM_ERROR_PREFIX @ ''RollbackUnavailable''"
| "platform_error_name (RebootUnavailable _) = PLATFORM_ERROR_PREFIX @ ''RebootUnavailable''"
| "platform_error_name (Conflict _) = PLATFORM_ERROR_PREFIX @ ''Conflict''"
| "platform_error_name (Busy _) = PLATFORM_ERROR_PREFIX @ ''Busy''"
| "platform_error_name (RemoteManagementUnavailable _) = PLATFORM_ERROR_PREFIX @ ''RemoteManagementUnavailable''"
| "platform_error_name (AuthUnavailable _) = PLATFORM_ERROR_PREFIX @ ''AuthUnavailable''"
| "platform_error_name (ResetIncomplete _) = PLATFORM_ERROR_PREFIX @ ''ResetIncomplete''"
| "platform_error_name (ZBus _) = ''org.freedesktop.zbus.Error''"

fun platform_error_text :: "platform_error \<Rightarrow> string option" where
  "platform_error_text (BackendUnavailable m) = Some m"
| "platform_error_text (BackendTimeout m) = Some m"
| "platform_error_text (InvalidBackendData m) = Some m"
| "platform_error_text (MetadataUnavailable m) = Some m"
| "platform_error_text (HealthUnavailable m) = Some m"
| "platform_error_text (MachineUnavailable m) = Some m"
| "platform_error_text (NetworkUnavailable m) = Some m"
| "platform_error_text (UpdateUnavailable m) = Some m"
| "platform_error_text (RollbackUnavailable m) = Some m"
| "platform_error_text (RebootUnavailable m) = Some m"
| "platform_error_text (Conflict m) = Some m"
| "platform_error_text (Busy m) = Some m"
| "platform_error_text (RemoteManagementUnavailable m) = Some m"
| "platform_error_text (AuthUnavailable m) = Some m"
| "platform_error_text (ResetIncomplete m) = Some m"
| "platform_error_text (ZBus _) = None"

definition platform_reply :: "platform_error \<Rightarrow> zbus_error" where
  "platform_reply e = ErrorReply (platform_error_name e) (platform_error_text e)"

section \<open>Texts\<close>

text \<open>\<^verbatim>\<open>str::chars\<close>: a text in UTF-8, which every \<^verbatim>\<open>str\<close> is, falls into the encodings of its code points.\<close>

definition utf8_tail :: "char \<Rightarrow> nat" where
  "utf8_tail c = (let b = of_char c :: nat in if b < 0xc0 then 0 else if b < 0xe0 then 1 else if b < 0xf0 then 2 else 3)"

fun utf8_chars :: "string \<Rightarrow> string list" where
  "utf8_chars [] = []"
| "utf8_chars (c # cs) = (c # take (utf8_tail c) cs) # utf8_chars (drop (utf8_tail c) cs)"

definition low6 :: "char \<Rightarrow> nat" where "low6 c = of_char c mod 64"

definition code_point :: "string \<Rightarrow> nat" where
  "code_point u =
     (case u of
        [a] \<Rightarrow> of_char a
      | [a, b] \<Rightarrow> of_char a mod 32 * 64 + low6 b
      | [a, b, c] \<Rightarrow> of_char a mod 16 * 4096 + low6 b * 64 + low6 c
      | [a, b, c, d] \<Rightarrow> of_char a mod 8 * 262144 + low6 b * 4096 + low6 c * 64 + low6 d
      | _ \<Rightarrow> 0)"

definition code_points :: "string \<Rightarrow> nat list" where
  "code_points s = map code_point (utf8_chars s)"

text \<open>\<^verbatim>\<open>char::is_control\<close> and \<^verbatim>\<open>char::is_whitespace\<close>: the Unicode category Cc and the property \<^verbatim>\<open>White_Space\<close>.\<close>

definition is_control :: "nat \<Rightarrow> bool" where
  "is_control c \<longleftrightarrow> c < 0x20 \<or> 0x7f \<le> c \<and> c < 0xa0"

definition is_whitespace :: "nat \<Rightarrow> bool" where
  "is_whitespace c \<longleftrightarrow> 9 \<le> c \<and> c \<le> 13 \<or> 0x2000 \<le> c \<and> c \<le> 0x200a \<or>
     c \<in> {0x20, 0x85, 0xa0, 0x1680, 0x2028, 0x2029, 0x202f, 0x205f, 0x3000}"

definition trim :: "string \<Rightarrow> string" where
  "trim s =
     (let ws = \<lambda>u. is_whitespace (code_point u)
      in concat (rev (dropWhile ws (rev (dropWhile ws (utf8_chars s))))))"

text \<open>\<^verbatim>\<open>str::lines\<close>: a line ends at a newline, which is dropped with a carriage return before it; no line follows the
  last newline.\<close>

fun split_lines :: "string \<Rightarrow> string \<Rightarrow> string list" where
  "split_lines acc [] = (if acc = [] then [] else [acc])"
| "split_lines acc (c # cs) =
     (if c = CHR 0x0A then (if acc \<noteq> [] \<and> last acc = CHR 0x0D then butlast acc else acc) # split_lines [] cs
      else split_lines (acc @ [c]) cs)"

definition lines :: "string \<Rightarrow> string list" where "lines s = split_lines [] s"

text \<open>\<^verbatim>\<open>str\<close> is ordered by its bytes.\<close>

fun str_less :: "string \<Rightarrow> string \<Rightarrow> bool" where
  "str_less _ [] = False"
| "str_less [] (_ # _) = True"
| "str_less (a # as) (b # bs) =
     ((of_char a :: nat) < of_char b \<or> a = b \<and> str_less as bs)"

lemma str_less_irrefl [simp]: "\<not> str_less s s"
  by (induction s) auto

lemma str_less_trans [trans]: "str_less a b \<Longrightarrow> str_less b c \<Longrightarrow> str_less a c"
proof (induction a b arbitrary: c rule: str_less.induct)
  case (2 b bs) then show ?case by (cases c) auto
next
  case (3 a as b bs) then show ?case by (cases c) auto
qed simp

lemma str_less_linear: "a \<noteq> b \<Longrightarrow> str_less a b \<or> str_less b a"
proof (induction a b rule: str_less.induct)
  case (1 a) then show ?case by (cases a) auto
next
  case (3 a as b bs)
  then show ?case by (cases "(of_char a :: nat)" "(of_char b :: nat)" rule: linorder_cases) auto
qed simp

text \<open>\<^verbatim>\<open>BTreeSet<String>\<close> as the list of its elements in order.\<close>

fun set_insert :: "string \<Rightarrow> string list \<Rightarrow> string list" where
  "set_insert x [] = [x]"
| "set_insert x (y # ys) = (if str_less x y then x # y # ys else if x = y then y # ys else y # set_insert x ys)"

definition set_extend :: "string list \<Rightarrow> string list \<Rightarrow> string list" where
  "set_extend acc xs = fold set_insert xs acc"

lemma set_set_insert [simp]: "set (set_insert x ys) = insert x (set ys)"
  by (induction ys) auto

lemma set_set_extend [simp]: "set (set_extend acc xs) = set acc \<union> set xs"
  by (induction xs arbitrary: acc) (auto simp: set_extend_def)

lemma sorted_set_insert: "sorted_wrt str_less ys \<Longrightarrow> sorted_wrt str_less (set_insert x ys)"
  by (induction ys) (auto dest: str_less_linear intro: str_less_trans)

lemma sorted_set_extend: "sorted_wrt str_less acc \<Longrightarrow> sorted_wrt str_less (set_extend acc xs)"
  by (induction xs arbitrary: acc) (auto simp: set_extend_def sorted_set_insert)

end
