(* ===== verification/Observer.thy ===== *)
theory Observer
  imports Protocol Ip_Addr
begin

text \<open>
  The network observer (\<^verbatim>\<open>src/network-observer/src/main.rs\<close>): it reads the properties of NetworkManager one after
  the other and writes a status document.  NetworkManager is the parameter \<open>get\<close>: each property read is an
  operation on a state of its own, so that the answers may change between two reads; a read that fails, has another
  type or comes after the deadline is an error, and all errors are the same to the code.
\<close>

section \<open>Definitions\<close>

datatype variant = Str string | U32 u32 | OtherVariant

type_synonym address_data = "(string \<rightharpoonup> variant) list"

datatype property_value =
  PU32 u32 | PPath string | PPaths "string list" | PString string | PBool bool | PData address_data

type_synonym 's nm = "string \<Rightarrow> string \<Rightarrow> string \<Rightarrow> ('s, unit, property_value) op"

definition NETWORK_MANAGER_PATH :: string where "NETWORK_MANAGER_PATH = ''/org/freedesktop/NetworkManager''"
definition NETWORK_MANAGER_INTERFACE :: string where "NETWORK_MANAGER_INTERFACE = ''org.freedesktop.NetworkManager''"
definition ACTIVE_CONNECTION_INTERFACE :: string where
  "ACTIVE_CONNECTION_INTERFACE = ''org.freedesktop.NetworkManager.Connection.Active''"
definition DEVICE_INTERFACE :: string where "DEVICE_INTERFACE = ''org.freedesktop.NetworkManager.Device''"
definition IP4_CONFIG_INTERFACE :: string where
  "IP4_CONFIG_INTERFACE = ''org.freedesktop.NetworkManager.IP4Config''"
definition IP6_CONFIG_INTERFACE :: string where
  "IP6_CONFIG_INTERFACE = ''org.freedesktop.NetworkManager.IP6Config''"

datatype observer_error = Busy string | Unavailable string

definition unavailable :: observer_error where
  "unavailable = Unavailable ''NetworkManager status could not be observed or was invalid''"

definition network_state :: "u32 \<Rightarrow> network_state" where
  "network_state value =
     (if value = 10 \<or> value = 20 \<or> value = 30 then Disconnected
      else if value = 40 then Connecting
      else if value = 50 then ConnectedLocal
      else if value = 60 then ConnectedSite
      else if value = 70 then ConnectedGlobal
      else Unknown)"

definition parse_address_entry :: "nat \<Rightarrow> (string \<rightharpoonup> variant) \<Rightarrow> unit + string" where
  "parse_address_entry family entry =
     (case entry ''address'' of
        Some (Str address) \<Rightarrow>
          (case entry ''prefix'' of
             Some (U32 prefix) \<Rightarrow>
               (case parse_ip address of
                  None \<Rightarrow> Inl ()
                | Some parsed \<Rightarrow>
                    if family = 4 \<and> (\<not> is_ipv4 parsed \<or> prefix > 32) \<or> family = 6 \<and> (is_ipv4 parsed \<or> prefix > 128)
                    then Inl ()
                    else Inr (display_ip parsed @ ''/'' @ decimal (unat prefix)))
           | _ \<Rightarrow> Inl ())
      | _ \<Rightarrow> Inl ())"

text \<open>Collecting into a \<^verbatim>\<open>Result<BTreeSet<_>, _>\<close> stops at the first error.\<close>

fun collect_entries :: "nat \<Rightarrow> address_data \<Rightarrow> string list \<Rightarrow> unit + string list" where
  "collect_entries family [] acc = Inr acc"
| "collect_entries family (e # es) acc =
     (case parse_address_entry family e of
        Inl _ \<Rightarrow> Inl ()
      | Inr x \<Rightarrow> collect_entries family es (set_insert x acc))"

definition parse_address_data :: "address_data \<Rightarrow> nat \<Rightarrow> unit + string list" where
  "parse_address_data entries family = collect_entries family entries []"

definition parse_gateway :: "string \<Rightarrow> nat \<Rightarrow> unit + string option" where
  "parse_gateway value family =
     (if value = [] then Inr None
      else case parse_ip value of
             None \<Rightarrow> Inl ()
           | Some parsed \<Rightarrow>
               if family = 4 \<and> \<not> is_ipv4 parsed \<or> family = 6 \<and> is_ipv4 parsed then Inl ()
               else Inr (Some (display_ip parsed)))"

definition valid_interface :: "string \<Rightarrow> bool" where
  "valid_interface name \<longleftrightarrow>
     \<not> (name = [] \<or> length name > 64 \<or> list_ex (\<lambda>c. is_control c \<or> is_whitespace c) (code_points name))"

definition read_property ::
  "'s nm \<Rightarrow> (property_value \<Rightarrow> 'a option) \<Rightarrow> string \<Rightarrow> string \<Rightarrow> string \<Rightarrow> ('s, unit, 'a) op" where
  "read_property get conv path face name =
     and_then (get path face name) (\<lambda>v. lift_res (ok_or () (conv v)))"

definition as_u32 :: "property_value \<Rightarrow> u32 option" where
  "as_u32 v = (case v of PU32 x \<Rightarrow> Some x | _ \<Rightarrow> None)"
definition as_path :: "property_value \<Rightarrow> string option" where
  "as_path v = (case v of PPath x \<Rightarrow> Some x | _ \<Rightarrow> None)"
definition as_paths :: "property_value \<Rightarrow> string list option" where
  "as_paths v = (case v of PPaths x \<Rightarrow> Some x | _ \<Rightarrow> None)"
definition as_string :: "property_value \<Rightarrow> string option" where
  "as_string v = (case v of PString x \<Rightarrow> Some x | _ \<Rightarrow> None)"
definition as_bool :: "property_value \<Rightarrow> bool option" where
  "as_bool v = (case v of PBool x \<Rightarrow> Some x | _ \<Rightarrow> None)"
definition as_data :: "property_value \<Rightarrow> address_data option" where
  "as_data v = (case v of PData x \<Rightarrow> Some x | _ \<Rightarrow> None)"

definition FAMILIES :: "(string \<times> string \<times> string \<times> nat) list" where
  "FAMILIES = [(''Ip4Config'', ''Default'', IP4_CONFIG_INTERFACE, 4), (''Ip6Config'', ''Default6'', IP6_CONFIG_INTERFACE, 6)]"

text \<open>One round of the loop over the two address families; \<^verbatim>\<open>active\<close> is the path of the primary connection.\<close>

definition observe_family ::
  "'s nm \<Rightarrow> string \<Rightarrow> string \<times> string \<times> string \<times> nat \<Rightarrow> string list \<times> string list \<Rightarrow> ('s, unit, string list \<times> string list) op"
  where
  "observe_family get active f acc =
     (case f of (path_property, default_property, config_interface, family) \<Rightarrow>
        and_then (read_property get as_path active ACTIVE_CONNECTION_INTERFACE path_property) (\<lambda>path.
        if path = ''/'' then ok acc
        else
          and_then (read_property get as_data path config_interface ''AddressData'') (\<lambda>data.
          and_then (lift_res (parse_address_data data family)) (\<lambda>found.
          let addrs = set_extend (fst acc) found in
          and_then (read_property get as_bool active ACTIVE_CONNECTION_INTERFACE default_property) (\<lambda>is_default.
          if \<not> is_default then ok (addrs, snd acc)
          else
            and_then (read_property get as_string path config_interface ''Gateway'') (\<lambda>gateway.
            and_then (lift_res (parse_gateway gateway family)) (\<lambda>g.
            ok (addrs, case g of None \<Rightarrow> snd acc | Some g \<Rightarrow> set_insert g (snd acc)))))))))"

fun observe_families ::
  "'s nm \<Rightarrow> string \<Rightarrow> (string \<times> string \<times> string \<times> nat) list \<Rightarrow> string list \<times> string list \<Rightarrow> ('s, unit, string list \<times> string list) op"
  where
  "observe_families get active [] acc = ok acc"
| "observe_families get active (f # fs) acc = and_then (observe_family get active f acc) (observe_families get active fs)"

definition observe_network :: "'s nm \<Rightarrow> ('s, unit, network_status) op" where
  "observe_network get =
     and_then (read_property get as_u32 NETWORK_MANAGER_PATH NETWORK_MANAGER_INTERFACE ''State'') (\<lambda>st.
     and_then (read_property get as_path NETWORK_MANAGER_PATH NETWORK_MANAGER_INTERFACE ''PrimaryConnection'') (\<lambda>primary.
     if primary = ''/'' then ok \<lparr>network_status_state = network_state st, primary_connection = None\<rparr>
     else
       and_then (read_property get as_paths primary ACTIVE_CONNECTION_INTERFACE ''Devices'') (\<lambda>devices.
       if length devices \<noteq> 1 then err ()
       else
         and_then (read_property get as_string (devices ! 0) DEVICE_INTERFACE ''Interface'') (\<lambda>name.
         if \<not> valid_interface name then err ()
         else
           and_then (observe_families get primary FAMILIES ([], [])) (\<lambda>(addrs, gateways).
           ok \<lparr>network_status_state = network_state st,
               primary_connection = Some \<lparr>interface = name, addresses = addrs, default_gateways = gateways\<rparr>\<rparr>)))))"

text \<open>The method; \<open>idle\<close> says that the single permit is free, \<open>to_string\<close> is the JSON encoder.\<close>

definition get_network_status ::
  "'s nm \<Rightarrow> (network_status \<Rightarrow> string option) \<Rightarrow> bool \<Rightarrow> ('s, observer_error, string) op" where
  "get_network_status get to_string idle =
     (if \<not> idle then err (Busy ''A network observation is already in progress'')
      else and_then (map_err (\<lambda>_. unavailable) (observe_network get)) (\<lambda>st.
           lift_res (ok_or unavailable (to_string st))))"

section \<open>What an observation contains\<close>

text \<open>The texts that the observer writes: an address of the right family with a length in its range.\<close>

definition address_text :: "string \<Rightarrow> bool" where
  "address_text e \<longleftrightarrow>
     (\<exists>a n. e = display_ip a @ ''/'' @ decimal n \<and> n \<le> (if is_ipv4 a then 32 else 128))"

definition gateway_text :: "string \<Rightarrow> bool" where
  "gateway_text g \<longleftrightarrow> (\<exists>a. g = display_ip a)"

definition observed :: "string list \<times> string list \<Rightarrow> bool" where
  "observed acc \<longleftrightarrow> sorted_wrt str_less (fst acc) \<and> sorted_wrt str_less (snd acc) \<and>
     Ball (set (fst acc)) address_text \<and> Ball (set (snd acc)) gateway_text"

lemma parse_address_entry_text:
  "parse_address_entry family e = Inr x \<Longrightarrow> family = 4 \<or> family = 6 \<Longrightarrow> address_text x"
  by (auto simp: parse_address_entry_def address_text_def word_less_nat_alt not_less
      split: option.splits variant.splits if_splits intro!: exI)

lemma collect_entries_text:
  "collect_entries family es acc = Inr xs \<Longrightarrow> family = 4 \<or> family = 6 \<Longrightarrow> Ball (set acc) address_text \<Longrightarrow> Ball (set xs) address_text"
  by (induction family es acc rule: collect_entries.induct)
    (auto split: sum.splits dest: parse_address_entry_text)

lemma parse_gateway_text: "parse_gateway v family = Inr (Some g) \<Longrightarrow> gateway_text g"
  by (auto simp: parse_gateway_def gateway_text_def split: option.splits if_splits)

lemma length_set_insert: "length (set_insert x ys) \<le> Suc (length ys)"
  by (induction ys) auto

lemma observe_family_spec:
  assumes "observed acc" "snd (snd (snd f)) = 4 \<or> snd (snd (snd f)) = 6"
  shows "wp (observe_family get active f acc)
    (\<lambda>acc' _. observed acc' \<and> length (snd acc') \<le> Suc (length (snd acc))) (\<lambda>_ _. True) s"
proof -
  have addrs: "observed (set_extend (fst acc) xs, snd acc)"
    if "parse_address_data data (snd (snd (snd f))) = Inr xs" for data xs
    using assms that collect_entries_text [of _ data "[]" xs]
    by (auto simp: observed_def sorted_set_extend parse_address_data_def)
  then have "observed (set_extend (fst acc) xs, set_insert g (snd acc))"
    if "parse_address_data data (snd (snd (snd f))) = Inr xs" "parse_gateway v fam = Inr (Some g)" for data xs v fam g
    using that parse_gateway_text by (fastforce simp: observed_def sorted_set_insert)
  with addrs assms(1) show ?thesis
    by (auto simp: observe_family_def wp_def and_then_def ok_def lift_res_def Let_def length_set_insert
        split: prod.splits sum.splits if_splits option.splits)
qed

lemma observe_families_spec:
  assumes "observed acc" "\<forall>f \<in> set fs. snd (snd (snd f)) = 4 \<or> snd (snd (snd f)) = 6"
  shows "wp (observe_families get active fs acc)
    (\<lambda>acc' _. observed acc' \<and> length (snd acc') \<le> length fs + length (snd acc)) (\<lambda>_ _. True) s"
  using assms
proof (induction fs arbitrary: acc s)
  case (Cons f fs)
  show ?case unfolding observe_families.simps
  proof (rule wp_bind [OF observe_family_spec])
    fix acc' s' assume "observed acc' \<and> length (snd acc') \<le> Suc (length (snd acc))"
    then show "wp (observe_families get active fs acc')
      (\<lambda>acc' _. observed acc' \<and> length (snd acc') \<le> length (f # fs) + length (snd acc)) (\<lambda>_ _. True) s'"
      using Cons.prems by (intro wp_mono [OF Cons.IH]) auto
  qed (use Cons.prems in auto)
qed (simp add: wp_def ok_def)

text \<open>An observed primary connection has a valid interface, sorted address texts and at most two sorted gateways.\<close>

definition observed_primary :: "primary_connection \<Rightarrow> bool" where
  "observed_primary p \<longleftrightarrow> valid_interface (interface p) \<and> observed (addresses p, default_gateways p) \<and>
     length (default_gateways p) \<le> 2"

lemma observe_network_spec:
  "wp (observe_network get) (\<lambda>st _. \<forall>p. primary_connection st = Some p \<longrightarrow> observed_primary p) (\<lambda>_ _. True) s"
proof -
  have fam: "wp (observe_families get active FAMILIES ([], []))
      (\<lambda>acc' _. observed acc' \<and> length (snd acc') \<le> 2) (\<lambda>_ _. True) s" for active s
    by (rule wp_mono [OF observe_families_spec]) (auto simp: observed_def FAMILIES_def)
  have t: "wp m (\<lambda>_ _. True) (\<lambda>_ _. True) s" for m :: "('a, unit, 'c) op" and s
    by (simp add: wp_def split: prod.splits sum.splits)
  have branch: "(c \<Longrightarrow> wp m Q E s) \<Longrightarrow> (\<not> c \<Longrightarrow> wp m' Q E s) \<Longrightarrow> wp (if c then m else m') Q E s"
    for c Q E s and m m' :: "('a, unit, 'c) op"
    by simp
  show ?thesis
    unfolding observe_network_def
    by (intro wp_bind [OF fam] wp_bind [OF t] branch) (auto simp: observed_primary_def wp_def ok_def err_def)
qed

end
