(* ===== verification/Platform_Status.thy ===== *)
theory Platform_Status
  imports Protocol Ip_Addr
begin

text \<open>
  What sl-platformd makes of its observations (\<^verbatim>\<open>src/platformd/src/main.rs\<close>): the machine's identifiers, the
  network status, bootc's document, the release file and the two workers become a status document.  The JSON decoder
  is the parameter \<open>from_slice\<close>, which delivers \<^verbatim>\<open>serde_json::Value\<close>.
\<close>

section \<open>Error texts\<close>

definition invalid :: "string \<Rightarrow> platform_error" where
  "invalid message = InvalidBackendData message"
definition machine_error :: "string \<Rightarrow> platform_error" where
  "machine_error message = MachineUnavailable message"
definition network_error :: platform_error where
  "network_error = NetworkUnavailable ''NetworkManager status could not be observed or was invalid''"
definition update_unavailable :: platform_error where
  "update_unavailable = UpdateUnavailable ''The fixed update worker could not be controlled''"
definition rollback_unavailable :: platform_error where
  "rollback_unavailable = RollbackUnavailable ''The fixed rollback worker could not be controlled''"
definition reboot_unavailable :: platform_error where
  "reboot_unavailable = RebootUnavailable ''The fixed reboot worker could not be controlled''"
definition health_error :: platform_error where
  "health_error = HealthUnavailable ''Systemd health properties could not be observed''"

section \<open>Machine identifiers\<close>

definition validated_hex_id :: "string \<Rightarrow> nat \<Rightarrow> string option" where
  "validated_hex_id input len =
     (let value = trim input
      in if length value = len \<and> list_all is_lower_hex value \<and> list_ex (\<lambda>c. c \<noteq> CHR ''0'') value
         then Some value else None)"

definition validated_boot_id :: "string \<Rightarrow> string option" where
  "validated_boot_id input =
     (let value = trim input
      in if length value = 36 \<and>
            list_all (\<lambda>(i, c). if i \<in> {8, 13, 18, 23} then c = CHR ''-'' else is_lower_hex c) (enumerate 0 value) \<and>
            list_ex (\<lambda>c. c \<noteq> CHR ''0'' \<and> c \<noteq> CHR ''-'') value
         then Some value else None)"

definition is_ascii_alphanumeric :: "char \<Rightarrow> bool" where
  "is_ascii_alphanumeric c \<longleftrightarrow>
     (let b = of_char c :: nat in 48 \<le> b \<and> b \<le> 57 \<or> 65 \<le> b \<and> b \<le> 90 \<or> 97 \<le> b \<and> b \<le> 122)"

definition normalize_architecture :: "string \<Rightarrow> string option" where
  "normalize_architecture input =
     (let value = to_ascii_lowercase (trim input)
      in if value = [] \<or> length value > 64 \<or>
            \<not> list_all (\<lambda>c. is_ascii_alphanumeric c \<or> c = CHR ''_'' \<or> c = CHR ''-'') value
         then None
         else Some (if value = ''amd64'' then ''x86_64'' else if value = ''arm64'' then ''aarch64'' else value))"

text \<open>The three sources as texts; \<open>None\<close> if the file or the call fails (the architecture also if it is not UTF-8:
  \<open>Some None\<close>).\<close>

definition observe_machine :: "string option \<Rightarrow> string option \<Rightarrow> string option option \<Rightarrow> platform_error + machine_status" where
  "observe_machine machine_file boot_file uname =
     (case Option.bind machine_file (\<lambda>v. validated_hex_id v 32) of
        None \<Rightarrow> Inl (machine_error ''The system machine ID is unavailable or invalid'')
      | Some mid \<Rightarrow>
          (case Option.bind boot_file validated_boot_id of
             None \<Rightarrow> Inl (machine_error ''The kernel boot ID is unavailable or invalid'')
           | Some bid \<Rightarrow>
               (case uname of
                  None \<Rightarrow> Inl (machine_error ''The running kernel architecture is unavailable'')
                | Some name \<Rightarrow>
                    (case Option.bind name normalize_architecture of
                       None \<Rightarrow> Inl (machine_error ''The running kernel architecture is invalid'')
                     | Some arch \<Rightarrow> Inr \<lparr>machine_id = mid, architecture = arch, boot_id = bid\<rparr>))))"

section \<open>Network status\<close>

fun strictly_sorted_unique :: "string list \<Rightarrow> bool" where
  "strictly_sorted_unique (a # b # xs) \<longleftrightarrow> str_less a b \<and> strictly_sorted_unique (b # xs)"
| "strictly_sorted_unique _ \<longleftrightarrow> True"

definition valid_address :: "string \<Rightarrow> bool" where
  "valid_address value =
     (case split_once CHR ''/'' value of
        None \<Rightarrow> False
      | Some (address, prefix) \<Rightarrow>
          if CHR ''/'' \<in> set prefix then False
          else case parse_ip address of
                 None \<Rightarrow> False
               | Some address \<Rightarrow>
                   (case parse_u8 prefix of
                      None \<Rightarrow> False
                    | Some prefix \<Rightarrow>
                        (if is_ipv4 address then prefix \<le> 32 else prefix \<le> 128) \<and>
                        display_ip address @ ''/'' @ decimal (unat prefix) = value))"

definition validate_network_status :: "network_status \<Rightarrow> network_status option" where
  "validate_network_status status =
     (case primary_connection status of
        None \<Rightarrow> Some status
      | Some primary \<Rightarrow>
          if interface primary = [] \<or> length (interface primary) > 64 \<or>
             list_ex (\<lambda>c. is_control c \<or> is_whitespace c) (code_points (interface primary)) \<or>
             length (addresses primary) > 256 \<or> length (default_gateways primary) > 32 \<or>
             \<not> strictly_sorted_unique (addresses primary) \<or> \<not> strictly_sorted_unique (default_gateways primary) \<or>
             \<not> list_all valid_address (addresses primary) \<or>
             \<not> list_all (\<lambda>v. case parse_ip v of None \<Rightarrow> False | Some parsed \<Rightarrow> display_ip parsed = v) (default_gateways primary)
          then None else Some status)"

text \<open>The answer of the observer is the parameter \<open>reply\<close>: \<open>None\<close> if the call fails or is late.\<close>

definition observe_network :: "(string \<Rightarrow> network_status option) \<Rightarrow> string option \<Rightarrow> platform_error + network_status" where
  "observe_network from_str reply =
     ok_or network_error (Option.bind reply (\<lambda>json. Option.bind (from_str json) validate_network_status))"

section \<open>Workers and health\<close>

record worker_observation =
  active_state :: string
  result :: string
  exit_status :: "32 word"  \<comment> \<open>\<^verbatim>\<open>i32\<close>\<close>

definition worker_running :: "worker_observation \<Rightarrow> bool" where
  "worker_running w \<longleftrightarrow> \<not> (active_state w = ''inactive'' \<or> active_state w = ''failed'')"

definition observed_health :: "string \<Rightarrow> u32 \<Rightarrow> health" where
  "observed_health st failed =
     \<lparr>health_state = (if st = ''running'' \<and> failed = 0 then Healthy else Degraded), system_state = st, failed_units = failed\<rparr>"

definition display_i32 :: "32 word \<Rightarrow> string" where
  "display_i32 w = (if sint w < 0 then ''-'' @ decimal (nat (- sint w)) else decimal (nat (sint w)))"

definition printable_result :: "worker_observation \<Rightarrow> string" where
  "printable_result w =
     (if list_all (\<lambda>c. is_ascii_alphanumeric c \<or> c = CHR ''-'') (result w) then result w else ''failed'')"

text \<open>The text of both failures, up to the name of the worker.\<close>

definition failure_message :: "string \<Rightarrow> worker_observation \<Rightarrow> string" where
  "failure_message who w =
     ''The '' @ who @ '' worker failed ('' @ printable_result w @ '', status '' @ display_i32 (exit_status w) @ '')''"

definition rollback_from_observations :: "bool \<Rightarrow> worker_observation \<Rightarrow> rollback_status" where
  "rollback_from_observations rollback_queued w =
     (let running = worker_running w;
          failed = (active_state w = ''failed'' \<or> result w \<noteq> ''success'');
          (st, failure) =
            (if running then (RollbackRunning, None)
             else if failed then
               (RollbackFailed,
                Some \<lparr>rollback_failure_code = ''WorkerFailed'',
                      rollback_failure_message =
                        failure_message ''rollback'' w\<rparr>)
             else if rollback_queued then (RollbackQueued, None)
             else (RollbackIdle, None))
      in \<lparr>rollback_status_state = st, rollback_reboot_required = rollback_queued, rollback_status_failure = failure\<rparr>)"

definition update_from_observations ::
  "deployment \<Rightarrow> deployment option \<Rightarrow> bool \<Rightarrow> worker_observation \<Rightarrow> update_status" where
  "update_from_observations booted_dep staged_dep staged_queued w =
     (let staged_differs = (case staged_dep of None \<Rightarrow> False | Some d \<Rightarrow> deployment_id d \<noteq> deployment_id booted_dep);
          running = worker_running w;
          failed = (active_state w = ''failed'' \<or> result w \<noteq> ''success'');
          (st, failure) =
            (if running then (UpdateRunning, None)
             else if failed then
               (UpdateFailed,
                Some \<lparr>update_failure_code = ''WorkerFailed'',
                      update_failure_message =
                        failure_message ''update'' w\<rparr>)
             else if staged_differs \<and> staged_queued then (UpdateStaged, None)
             else (UpdateIdle, None))
      in \<lparr>update_status_state = st, staged = staged_dep,
          update_reboot_required = (staged_differs \<and> staged_queued), update_status_failure = failure\<rparr>)"

section \<open>The bootc document\<close>

datatype json = Null | Bool bool | UInt u64 | OtherNumber | Text string | Array "json list" | Object "(string \<times> json) list"

definition get :: "string \<Rightarrow> json \<Rightarrow> json option" where
  "get key v = (case v of Object members \<Rightarrow> map_of members key | _ \<Rightarrow> None)"

text \<open>\<^verbatim>\<open>Value::pointer\<close> for a path of names none of which is an array index.\<close>

fun pointer :: "string list \<Rightarrow> json \<Rightarrow> json option" where
  "pointer [] v = Some v"
| "pointer (k # ks) v = Option.bind (get k v) (pointer ks)"

definition as_str :: "json \<Rightarrow> string option" where
  "as_str v = (case v of Text s \<Rightarrow> Some s | _ \<Rightarrow> None)"
definition as_u64 :: "json \<Rightarrow> u64 option" where
  "as_u64 v = (case v of UInt n \<Rightarrow> Some n | _ \<Rightarrow> None)"
definition as_boolean :: "json \<Rightarrow> bool option" where
  "as_boolean v = (case v of Bool b \<Rightarrow> Some b | _ \<Rightarrow> None)"
definition is_object :: "json \<Rightarrow> bool" where
  "is_object v = (case v of Object _ \<Rightarrow> True | _ \<Rightarrow> False)"

definition hex_digest :: "string \<Rightarrow> bool" where
  "hex_digest t \<longleftrightarrow> length t = 64 \<and> list_all (\<lambda>c. is_lower_hex c \<or> is_upper_hex c) t"

definition keep :: "('a \<Rightarrow> bool) \<Rightarrow> 'a option \<Rightarrow> 'a option" where
  "keep p v = (case v of None \<Rightarrow> None | Some x \<Rightarrow> if p x then Some x else None)"

definition image_of :: "json \<Rightarrow> platform_error + string option \<times> string option" where
  "image_of img =
     (if img = Null then Inr (None, None)
      else case keep (\<lambda>v. v \<noteq> [] \<and> \<not> list_ex is_control (code_points v))
                  (Option.bind (pointer [''image'', ''image''] img) as_str) of
             None \<Rightarrow> Inl (invalid ''Image reference is missing or invalid'')
           | Some reference \<Rightarrow>
               (case get ''imageDigest'' img of
                  None \<Rightarrow> Inl (invalid ''Image digest observation is missing'')
                | Some digest \<Rightarrow>
                    if digest = Null then Inr (Some reference, None)
                    else (case keep (\<lambda>v. case strip_prefix ''sha256:'' v of None \<Rightarrow> False | Some d \<Rightarrow> hex_digest d) (as_str digest) of
                           None \<Rightarrow> Inl (invalid ''Image digest is invalid'')
                         | Some d \<Rightarrow> Inr (Some reference, Some d))))"

definition deployment :: "json \<Rightarrow> platform_error + deployment" where
  "deployment value =
     (case keep hex_digest (Option.bind (pointer [''ostree'', ''checksum''] value) as_str) of
        None \<Rightarrow> Inl (invalid ''Deployment identity is missing or invalid'')
      | Some checksum \<Rightarrow>
          (case Option.bind (pointer [''ostree'', ''deploySerial''] value) as_u64 of
             None \<Rightarrow> Inl (invalid ''Deployment serial is missing or invalid'')
           | Some serial \<Rightarrow>
               (case get ''image'' value of
                  None \<Rightarrow> Inl (invalid ''Deployment image observation is missing'')
                | Some img \<Rightarrow>
                    (case image_of img of
                       Inl e \<Rightarrow> Inl e
                     | Inr (reference, digest) \<Rightarrow>
                         Inr \<lparr>deployment_id = checksum @ ''.'' @ decimal (unat serial),
                              image_reference = reference, image_digest = digest\<rparr>))))"

record mutation_state =
  mutation_staged :: bool
  mutation_retained_rollback :: bool
  mutation_rollback_queued :: bool

definition supported_schema :: "json \<Rightarrow> bool" where
  "supported_schema value \<longleftrightarrow>
     \<not> (Option.bind (get ''apiVersion'' value) as_str \<noteq> Some ''org.containers.bootc/v1'' \<or>
        Option.bind (get ''kind'' value) as_str \<noteq> Some ''BootcHost'')"

definition mutation_state_from_backend :: "(string \<Rightarrow> json option) \<Rightarrow> string \<Rightarrow> platform_error + mutation_state" where
  "mutation_state_from_backend from_slice backend =
     (case from_slice backend of
        None \<Rightarrow> Inl (invalid ''bootc status is not valid JSON'')
      | Some value \<Rightarrow>
          if \<not> supported_schema value then Inl (invalid ''Unsupported bootc status schema'')
          else case keep is_object (get ''status'' value) of
                 None \<Rightarrow> Inl (invalid ''Bootc deployment status is missing'')
               | Some status \<Rightarrow>
                   (case get ''staged'' status of
                      None \<Rightarrow> Inl (invalid ''Staged deployment observation is missing'')
                    | Some st \<Rightarrow>
                        (case get ''rollback'' status of
                           None \<Rightarrow> Inl (invalid ''Rollback observation is missing'')
                         | Some rb \<Rightarrow>
                             (case Option.bind (get ''rollbackQueued'' status) as_boolean of
                                None \<Rightarrow> Inl (invalid ''Rollback queue observation is missing or invalid'')
                              | Some queued \<Rightarrow>
                                  Inr \<lparr>mutation_staged = (st \<noteq> Null), mutation_retained_rollback = (rb \<noteq> Null),
                                       mutation_rollback_queued = queued\<rparr>))))"

section \<open>The status document\<close>

definition release_value :: "string \<Rightarrow> string option" where
  "release_value value =
     keep (\<lambda>v. v \<noteq> [] \<and> CHR 0x22 \<notin> set v \<and> \<not> list_ex is_control (code_points v))
       (Option.bind (strip_prefix [CHR 0x22] value) (strip_suffix [CHR 0x22]))"

fun release_fields :: "string list \<Rightarrow> (string \<rightharpoonup> string) \<Rightarrow> platform_error + (string \<rightharpoonup> string)" where
  "release_fields [] known = Inr known"
| "release_fields (line # rest) known =
     (case split_once CHR ''='' line of
        None \<Rightarrow> Inl (MetadataUnavailable ''Invalid image release metadata'')
      | Some (key, value) \<Rightarrow>
          (case release_value value of
             None \<Rightarrow> Inl (MetadataUnavailable ''Invalid image release metadata value'')
           | Some v \<Rightarrow>
               if known key \<noteq> None then Inl (MetadataUnavailable ''Duplicate image release metadata field'')
               else release_fields rest (known(key \<mapsto> v))))"

definition required :: "(string \<rightharpoonup> string) \<Rightarrow> string \<Rightarrow> platform_error + string" where
  "required known key = ok_or (MetadataUnavailable (''Image release field '' @ key @ '' is missing'')) (known key)"

definition optional :: "(string \<rightharpoonup> string) \<Rightarrow> string \<Rightarrow> string option" where
  "optional known key = keep (\<lambda>v. v \<noteq> ''unknown'') (known key)"

definition staged_of :: "json \<Rightarrow> platform_error + deployment option \<times> bool" where
  "staged_of value =
     (if value = Null then Inr (None, False)
      else case Option.bind (get ''downloadOnly'' value) as_boolean of
             None \<Rightarrow> Inl (invalid ''Staged deployment mode is missing or invalid'')
           | Some download_only \<Rightarrow> map_sum (\<lambda>e. e) (\<lambda>d. (Some d, \<not> download_only)) (deployment value))"

definition rollback_of :: "json \<Rightarrow> platform_error + deployment option" where
  "rollback_of value = (if value = Null then Inr None else map_sum (\<lambda>e. e) Some (deployment value))"

text \<open>The results of a block of fallible steps, each of which ends it with an error (\<^verbatim>\<open>?\<close>).\<close>

definition bind_res :: "'e + 'a \<Rightarrow> ('a \<Rightarrow> 'e + 'b) \<Rightarrow> 'e + 'b" where
  "bind_res r f = (case r of Inl e \<Rightarrow> Inl e | Inr x \<Rightarrow> f x)"

lemma bind_res_Inr [simp]: "bind_res r f = Inr y \<longleftrightarrow> (\<exists>x. r = Inr x \<and> f x = Inr y)"
  by (auto simp: bind_res_def split: sum.splits)

definition status_from_observations ::
  "(string \<Rightarrow> json option) \<Rightarrow> string \<Rightarrow> string \<Rightarrow> machine_status \<Rightarrow> network_status \<Rightarrow> health \<Rightarrow>
   worker_observation \<Rightarrow> worker_observation \<Rightarrow> platform_error + status" where
  "status_from_observations from_slice release backend mach net hlth update_worker rollback_worker =
     bind_res (release_fields (filter (\<lambda>line. trim line \<noteq> []) (lines release)) Map.empty) (\<lambda>known.
     bind_res (ok_or (invalid ''bootc status is not valid JSON'') (from_slice backend)) (\<lambda>value.
     if \<not> supported_schema value then Inl (invalid ''Unsupported bootc status schema'')
     else
       bind_res (ok_or (invalid ''No booted deployment was observed'') (keep is_object (pointer [''status'', ''booted''] value))) (\<lambda>b.
       bind_res (deployment b) (\<lambda>booted.
       bind_res (ok_or (invalid ''Staged deployment observation is missing'') (pointer [''status'', ''staged''] value)) (\<lambda>sv.
       bind_res (staged_of sv) (\<lambda>(staged_dep, staged_queued).
       bind_res (ok_or (invalid ''Rollback observation is missing'') (pointer [''status'', ''rollback''] value)) (\<lambda>rv.
       bind_res (rollback_of rv) (\<lambda>retained.
       bind_res (ok_or (invalid ''Rollback queue observation is missing or invalid'')
                   (Option.bind (pointer [''status'', ''rollbackQueued''] value) as_boolean)) (\<lambda>queued.
       bind_res (required known ''NAME'') (\<lambda>name.
       bind_res (required known ''VERSION'') (\<lambda>vers.
       bind_res (required known ''PLATFORM_API_VERSION'') (\<lambda>api.
       Inr \<lparr>schema_version = SCHEMA_VERSION, product = name, version = vers, platform_api_version = api,
            source_revision = optional known ''SOURCE_REVISION'', build_id = optional known ''BUILD_ID'',
            machine = mach, network = net, booted = booted, retained_rollback = retained,
            update = update_from_observations booted staged_dep staged_queued update_worker,
            rollback = rollback_from_observations queued rollback_worker, health = hlth\<rparr>))))))))))))"

section \<open>Agreement and well-formedness\<close>

lemma keep_Some [simp]: "keep p v = Some x \<longleftrightarrow> v = Some x \<and> p x"
  by (auto simp: keep_def split: option.splits)

lemma ok_or_Inr [simp]: "ok_or e v = Inr x \<longleftrightarrow> v = Some x"
  by (auto simp: ok_or_def split: option.splits)

lemma pointer_status: "pointer [''status'', k] v = Some x \<longleftrightarrow> (\<exists>st. get ''status'' v = Some st \<and> get k st = Some x)"
  by (auto simp: bind_eq_Some_conv)

lemma get_object: "get k v = Some x \<Longrightarrow> is_object v"
  by (auto simp: get_def is_object_def split: json.splits)

lemma map_sum_Inr: "map_sum (\<lambda>e. e) f r = Inr y \<longleftrightarrow> (\<exists>x. r = Inr x \<and> y = f x)"
  by (cases r) auto

lemma staged_of_Inr:
  "staged_of v = Inr (d, q) \<Longrightarrow> (d = None \<longleftrightarrow> v = Null) \<and> (d = None \<longrightarrow> \<not> q) \<and> (\<forall>x. d = Some x \<longrightarrow> deployment v = Inr x)"
  by (auto simp: staged_of_def map_sum_Inr split: if_splits option.splits)

lemma rollback_of_Inr:
  "rollback_of v = Inr d \<Longrightarrow> (d = None \<longleftrightarrow> v = Null) \<and> (\<forall>x. d = Some x \<longrightarrow> deployment v = Inr x)"
  by (auto simp: rollback_of_def map_sum_Inr split: if_splits)

text \<open>A deployment as the interface promises it: an identifier of a digest and a serial number, a printable image
  reference, and a digest only with a reference.\<close>

definition deployment_ok :: "deployment \<Rightarrow> bool" where
  "deployment_ok d \<longleftrightarrow>
     (\<exists>checksum serial. hex_digest checksum \<and> deployment_id d = checksum @ ''.'' @ decimal (unat (serial :: u64))) \<and>
     (case image_reference d of
        None \<Rightarrow> image_digest d = None
      | Some r \<Rightarrow> r \<noteq> [] \<and> \<not> list_ex is_control (code_points r) \<and>
          (case image_digest d of None \<Rightarrow> True | Some g \<Rightarrow> (\<exists>h. g = ''sha256:'' @ h \<and> hex_digest h)))"

lemma image_of_ok:
  "image_of v = Inr (r, g) \<Longrightarrow>
     (case r of None \<Rightarrow> g = None
      | Some r \<Rightarrow> r \<noteq> [] \<and> \<not> list_ex is_control (code_points r) \<and>
          (case g of None \<Rightarrow> True | Some g \<Rightarrow> (\<exists>h. g = ''sha256:'' @ h \<and> hex_digest h)))"
  by (auto simp: image_of_def strip_prefix_Some split: if_splits option.splits dest: sym)

lemma deployment_Inr: "deployment v = Inr d \<Longrightarrow> deployment_ok d"
  by (auto simp: deployment_def deployment_ok_def dest!: image_of_ok split: option.splits sum.splits; blast)

text \<open>The values of the release file: not empty, on one line, without a quote.\<close>

definition printable :: "string \<Rightarrow> bool" where
  "printable v \<longleftrightarrow> v \<noteq> [] \<and> CHR 0x22 \<notin> set v \<and> \<not> list_ex is_control (code_points v)"

lemma release_fields_printable:
  "release_fields ls known = Inr fs \<Longrightarrow> \<forall>k v. known k = Some v \<longrightarrow> printable v \<Longrightarrow> fs k = Some v \<Longrightarrow> printable v"
  by (induction ls known rule: release_fields.induct)
    (auto simp: release_value_def printable_def split: option.splits if_splits prod.splits)

definition failure_text :: "string \<Rightarrow> string \<Rightarrow> bool" where
  "failure_text who message \<longleftrightarrow>
     (\<exists>r n. list_all (\<lambda>c. is_ascii_alphanumeric c \<or> c = CHR ''-'') r \<and>
        message = ''The '' @ who @ '' worker failed ('' @ r @ '', status '' @ display_i32 n @ '')'')"

lemma failure_message_text: "failure_text who (failure_message who w)"
  unfolding failure_text_def failure_message_def
  by (rule exI [of _ "printable_result w"]) (auto simp: printable_result_def is_ascii_alphanumeric_def)

lemma update_consistent:
  fixes b d q w
  defines "u \<equiv> update_from_observations b d q w"
  shows "staged u = d"
    and "update_reboot_required u \<longleftrightarrow> q \<and> (\<exists>x. d = Some x \<and> deployment_id x \<noteq> deployment_id b)"
    and "update_status_state u = UpdateStaged \<Longrightarrow> update_reboot_required u"
    and "update_status_failure u \<noteq> None \<longleftrightarrow> update_status_state u = UpdateFailed"
    and "update_status_failure u = Some f \<Longrightarrow> failure_text ''update'' (update_failure_message f)"
  by (auto simp: u_def update_from_observations_def failure_message_text Let_def split: if_splits option.splits)

lemma rollback_consistent:
  fixes q w
  defines "u \<equiv> rollback_from_observations q w"
  shows "rollback_reboot_required u = q"
    and "rollback_status_state u = RollbackQueued \<Longrightarrow> q"
    and "rollback_status_failure u \<noteq> None \<longleftrightarrow> rollback_status_state u = RollbackFailed"
    and "rollback_status_failure u = Some f \<Longrightarrow> failure_text ''rollback'' (rollback_failure_message f)"
  by (auto simp: u_def rollback_from_observations_def failure_message_text Let_def split: if_splits)

text \<open>A status as the interface promises it.\<close>

definition status_ok :: "status \<Rightarrow> bool" where
  "status_ok st \<longleftrightarrow>
     schema_version st = ''0.3'' \<and>
     list_all printable ([product st, version st, platform_api_version st]) \<and>
     pred_option printable (source_revision st) \<and> pred_option printable (build_id st) \<and>
     deployment_ok (booted st) \<and> pred_option deployment_ok (retained_rollback st) \<and>
     pred_option deployment_ok (staged (update st)) \<and>
     (update_reboot_required (update st) \<longrightarrow>
        (\<exists>d. staged (update st) = Some d \<and> deployment_id d \<noteq> deployment_id (booted st))) \<and>
     (update_status_state (update st) = UpdateStaged \<longrightarrow> update_reboot_required (update st)) \<and>
     (rollback_status_state (rollback st) = RollbackQueued \<longrightarrow> rollback_reboot_required (rollback st)) \<and>
     (case update_status_failure (update st) of
        None \<Rightarrow> update_status_state (update st) \<noteq> UpdateFailed
      | Some f \<Rightarrow> update_status_state (update st) = UpdateFailed \<and> failure_text ''update'' (update_failure_message f)) \<and>
     (case rollback_status_failure (rollback st) of
        None \<Rightarrow> rollback_status_state (rollback st) \<noteq> RollbackFailed
      | Some f \<Rightarrow> rollback_status_state (rollback st) = RollbackFailed \<and> failure_text ''rollback'' (rollback_failure_message f))"

lemma optional_printable: "(\<And>v. known k = Some v \<Longrightarrow> printable v) \<Longrightarrow> pred_option printable (optional known k)"
  by (auto simp: optional_def keep_def split: option.splits)

text \<open>The parts of a successful evaluation.\<close>

lemma status_from_observations_Inr:
  assumes "status_from_observations from_slice release backend mach net hlth uw rw = Inr st"
  obtains known v s b d sv q rv rd rq where
    "release_fields (filter (\<lambda>line. trim line \<noteq> []) (lines release)) Map.empty = Inr known"
    "from_slice backend = Some v" "supported_schema v" "get ''status'' v = Some s" "deployment b = Inr (booted st)"
    "get ''staged'' s = Some sv" "staged_of sv = Inr (d, q)" "get ''rollback'' s = Some rv"
    "rollback_of rv = Inr rd" "Option.bind (get ''rollbackQueued'' s) as_boolean = Some rq"
    "known ''NAME'' = Some (product st)" "known ''VERSION'' = Some (version st)"
    "known ''PLATFORM_API_VERSION'' = Some (platform_api_version st)"
    "st = \<lparr>schema_version = SCHEMA_VERSION, product = product st, version = version st,
        platform_api_version = platform_api_version st, source_revision = optional known ''SOURCE_REVISION'',
        build_id = optional known ''BUILD_ID'', machine = mach, network = net, booted = booted st,
        retained_rollback = rd, update = update_from_observations (booted st) d q uw,
        rollback = rollback_from_observations rq rw, health = hlth\<rparr>"
proof -
  obtain known v b bd sv sd rv rd rq n ver api where
    k: "release_fields (filter (\<lambda>line. trim line \<noteq> []) (lines release)) Map.empty = Inr known"
    and v: "from_slice backend = Some v" "supported_schema v"
    and b: "pointer [''status'', ''booted''] v = Some b" "deployment b = Inr bd"
    and s: "pointer [''status'', ''staged''] v = Some sv" "staged_of sv = Inr sd"
    and r: "pointer [''status'', ''rollback''] v = Some rv" "rollback_of rv = Inr rd"
    and q: "Option.bind (pointer [''status'', ''rollbackQueued''] v) as_boolean = Some rq"
    and m: "known ''NAME'' = Some n" "known ''VERSION'' = Some ver" "known ''PLATFORM_API_VERSION'' = Some api"
    and st: "st = \<lparr>schema_version = SCHEMA_VERSION, product = n, version = ver, platform_api_version = api,
        source_revision = optional known ''SOURCE_REVISION'', build_id = optional known ''BUILD_ID'',
        machine = mach, network = net, booted = bd, retained_rollback = rd,
        update = update_from_observations bd (fst sd) (snd sd) uw,
        rollback = rollback_from_observations rq rw, health = hlth\<rparr>"
    using assms unfolding status_from_observations_def required_def
    by (auto simp del: pointer.simps split: if_splits prod.splits)
  obtain s' where s': "get ''status'' v = Some s'" "get ''staged'' s' = Some sv" using s(1) unfolding pointer_status by blast
  have "get ''rollback'' s' = Some rv" using r(1) s'(1) unfolding pointer_status by simp
  moreover have "Option.bind (get ''rollbackQueued'' s') as_boolean = Some rq" using q s'(1) by simp
  ultimately show thesis
    using that [of known v s' b sv "fst sd" "snd sd" rv rd rq] k v b s s' r m st by simp
qed

lemma status_sound:
  assumes "status_from_observations from_slice release backend mach net hlth uw rw = Inr st"
  shows "status_ok st \<and> machine st = mach \<and> network st = net \<and> health st = hlth"
proof (rule status_from_observations_Inr [OF assms])
  fix known v s b d sv q rv rd rq
  assume k: "release_fields (filter (\<lambda>line. trim line \<noteq> []) (lines release)) Map.empty = Inr known"
    and b: "deployment b = Inr (booted st)" and s: "staged_of sv = Inr (d, q)" and r: "rollback_of rv = Inr rd"
    and m: "known ''NAME'' = Some (product st)" "known ''VERSION'' = Some (version st)"
      "known ''PLATFORM_API_VERSION'' = Some (platform_api_version st)"
    and st: "st = \<lparr>schema_version = SCHEMA_VERSION, product = product st, version = version st,
        platform_api_version = platform_api_version st, source_revision = optional known ''SOURCE_REVISION'',
        build_id = optional known ''BUILD_ID'', machine = mach, network = net, booted = booted st,
        retained_rollback = rd, update = update_from_observations (booted st) d q uw,
        rollback = rollback_from_observations rq rw, health = hlth\<rparr>"
  have p: "known key = Some val \<Longrightarrow> printable val" for key val using release_fields_printable [OF k] by simp
  have fs: "schema_version st = SCHEMA_VERSION" "source_revision st = optional known ''SOURCE_REVISION''"
      "build_id st = optional known ''BUILD_ID''" "machine st = mach" "network st = net" "health st = hlth"
      "retained_rollback st = rd" "update st = update_from_observations (booted st) d q uw"
      "rollback st = rollback_from_observations rq rw"
    by (subst st, simp)+
  have "pred_option deployment_ok d" "pred_option deployment_ok rd"
    using staged_of_Inr [OF s] rollback_of_Inr [OF r] deployment_Inr by (auto simp: pred_option_def)
  then have "status_ok st"
    using p [OF m(1)] p [OF m(2)] p [OF m(3)] optional_printable [OF p] deployment_Inr [OF b]
      update_consistent [of "booted st" d q uw] rollback_consistent [of rq rw]
    unfolding status_ok_def fs SCHEMA_VERSION_def by (auto split: option.splits)
  then show ?thesis using fs by simp
qed

section \<open>Properties\<close>

text \<open>C24: the status that platformd reports is well formed, whatever bootc, systemd and the release file say: the
  schema is 0.3, texts are printable, deployments have a digest and a serial number, a reboot is only called for by a
  staged deployment other than the booted one, and a failure has a bounded message exactly in the failed state.\<close>

theorem reported_status_well_formed:
  assumes "status_from_observations from_slice release backend mach net hlth uw rw = Inr st"
  shows "status_ok st \<and> machine st = mach \<and> network st = net \<and> health st = hlth"
  by (rule status_sound [OF assms])

text \<open>C25: the guard of the mutations and the reported status read the same document alike: whenever a status is
  reported, the guard understands the document, and it sees a staged deployment, a retained rollback and a queued
  rollback exactly if the status shows them.\<close>

theorem mutation_guard_agrees_with_status:
  assumes "status_from_observations from_slice release backend mach net hlth uw rw = Inr st"
  shows "mutation_state_from_backend from_slice backend =
    Inr \<lparr>mutation_staged = (staged (update st) \<noteq> None), mutation_retained_rollback = (retained_rollback st \<noteq> None),
         mutation_rollback_queued = rollback_reboot_required (rollback st)\<rparr>"
proof (rule status_from_observations_Inr [OF assms])
  fix known v s b d sv q rv rd rq
  assume v: "from_slice backend = Some v" "supported_schema v" "get ''status'' v = Some s"
    and s: "get ''staged'' s = Some sv" "staged_of sv = Inr (d, q)" and r: "get ''rollback'' s = Some rv" "rollback_of rv = Inr rd"
    and rq: "Option.bind (get ''rollbackQueued'' s) as_boolean = Some rq"
    and st: "st = \<lparr>schema_version = SCHEMA_VERSION, product = product st, version = version st,
        platform_api_version = platform_api_version st, source_revision = optional known ''SOURCE_REVISION'',
        build_id = optional known ''BUILD_ID'', machine = mach, network = net, booted = booted st,
        retained_rollback = rd, update = update_from_observations (booted st) d q uw,
        rollback = rollback_from_observations rq rw, health = hlth\<rparr>"
  have "staged (update st) = d" "retained_rollback st = rd" "rollback_reboot_required (rollback st) = rq"
    by (subst st, simp add: update_consistent(1) rollback_consistent(1))+
  moreover have "keep is_object (get ''status'' v) = Some s" using v(3) get_object [OF s(1)] by simp
  ultimately show ?thesis
    using v(1,2) s r(1) rq staged_of_Inr [OF s(2)] rollback_of_Inr [OF r(2)]
    by (simp add: mutation_state_from_backend_def keep_def)
qed

section \<open>A concrete device\<close>

definition demo_deployment :: "char \<Rightarrow> json" where
  "demo_deployment c = Object [(''ostree'', Object [(''checksum'', Text (replicate 64 c)), (''deploySerial'', UInt 0)]),
     (''image'', Null), (''downloadOnly'', Bool False)]"

definition demo_document :: json where
  "demo_document = Object [(''apiVersion'', Text ''org.containers.bootc/v1''), (''kind'', Text ''BootcHost''),
     (''status'', Object [(''booted'', demo_deployment CHR ''a''), (''staged'', demo_deployment CHR ''b''),
        (''rollback'', Null), (''rollbackQueued'', Bool False)])]"

definition demo_release :: string where
  "demo_release = ''NAME='' @ [CHR 0x22] @ ''a'' @ [CHR 0x22, CHR 0x0A] @ ''VERSION='' @ [CHR 0x22] @ ''1'' @ [CHR 0x22, CHR 0x0A] @
     ''PLATFORM_API_VERSION='' @ [CHR 0x22] @ ''0.3'' @ [CHR 0x22, CHR 0x0A]"

definition demo_worker :: worker_observation where
  "demo_worker = \<lparr>active_state = ''inactive'', result = ''success'', exit_status = 0\<rparr>"

definition demo_report :: "platform_error + status" where
  "demo_report = status_from_observations (\<lambda>_. Some demo_document) demo_release []
     \<lparr>machine_id = ''1'', architecture = ''x'', boot_id = ''2''\<rparr>
     \<lparr>network_status_state = Disconnected, primary_connection = None\<rparr>
     \<lparr>health_state = Healthy, system_state = ''running'', failed_units = 0\<rparr> demo_worker demo_worker"

lemma demo_lines:
  "lines demo_release = [''NAME='' @ [CHR 0x22] @ ''a'' @ [CHR 0x22], ''VERSION='' @ [CHR 0x22] @ ''1'' @ [CHR 0x22],
     ''PLATFORM_API_VERSION='' @ [CHR 0x22] @ ''0.3'' @ [CHR 0x22]]"
  by (simp add: lines_def demo_release_def)

lemma trim_ascii: "c # cs = s \<Longrightarrow> of_char c < (0xc0 :: nat) \<Longrightarrow> \<not> is_whitespace (of_char c) \<Longrightarrow> trim s \<noteq> []"
  by (auto simp: trim_def utf8_tail_def Let_def code_point_def dropWhile_append)

lemma demo_fields:
  "release_fields (filter (\<lambda>line. trim line \<noteq> []) (lines demo_release)) Map.empty =
     Inr [''NAME'' \<mapsto> ''a'', ''VERSION'' \<mapsto> ''1'', ''PLATFORM_API_VERSION'' \<mapsto> ''0.3'']"
proof -
  have "filter (\<lambda>line. trim line \<noteq> []) (lines demo_release) = lines demo_release"
    by (simp add: demo_lines trim_ascii [OF refl] is_whitespace_def)
  then show ?thesis
    by (simp add: demo_lines release_value_def strip_prefix_def strip_suffix_def keep_def code_points_def utf8_tail_def
        code_point_def is_control_def)
qed

lemma decimal_0: "decimal 0 = ''0''"
  by code_simp

lemma demo_deployment_ok:
  "is_lower_hex c \<Longrightarrow> deployment (demo_deployment c) =
     Inr \<lparr>deployment_id = replicate 64 c @ ''.0'', image_reference = None, image_digest = None\<rparr>"
  by (simp add: deployment_def demo_deployment_def get_def as_str_def as_u64_def keep_def hex_digest_def image_of_def
      list_all_iff decimal_0)

lemma demo_deployment_simps:
  "is_object (demo_deployment c)" "demo_deployment c \<noteq> Null" "get ''downloadOnly'' (demo_deployment c) = Some (Bool False)"
  by (simp_all add: demo_deployment_def is_object_def get_def)

lemma demo_document_simps:
  "supported_schema demo_document"
  "pointer [''status'', ''booted''] demo_document = Some (demo_deployment CHR ''a'')"
  "pointer [''status'', ''staged''] demo_document = Some (demo_deployment CHR ''b'')"
  "pointer [''status'', ''rollback''] demo_document = Some Null"
  "pointer [''status'', ''rollbackQueued''] demo_document = Some (Bool False)"
  by (simp_all add: demo_document_def supported_schema_def get_def as_str_def)

lemma demo_reported: "\<exists>st. demo_report = Inr st \<and> update_reboot_required (update st)"
  by (simp add: demo_report_def status_from_observations_def demo_fields bind_res_def ok_or_def demo_document_simps keep_def
      demo_deployment_simps demo_deployment_ok is_lower_hex_def staged_of_def rollback_of_def as_boolean_def required_def
      update_from_observations_def demo_worker_def worker_running_def
      del: bind_res_Inr pointer.simps)

theorem reported_status_well_formed_witness:
  "\<exists>st. demo_report = Inr st \<and> update_reboot_required (update st) \<and> status_ok st"
  using demo_reported reported_status_well_formed unfolding demo_report_def by blast

theorem mutation_guard_agrees_with_status_witness:
  "\<exists>st. demo_report = Inr st \<and> update_reboot_required (update st) \<and>
     mutation_state_from_backend (\<lambda>_. Some demo_document) [] =
       Inr \<lparr>mutation_staged = (staged (update st) \<noteq> None), mutation_retained_rollback = (retained_rollback st \<noteq> None),
            mutation_rollback_queued = rollback_reboot_required (rollback st)\<rparr>"
  using demo_reported mutation_guard_agrees_with_status unfolding demo_report_def by blast

end
