(* ===== verification/Network_Chain.thy ===== *)
theory Network_Chain
  imports Observer Platform_Status Network
begin

text \<open>
  The network status on its way through three daemons: the observer writes it, platformd validates it and puts it into
  its status, sessiond passes that on, and sl-remoted decides from it where to listen and who is on-link.  The theory
  shows what each of them accepts of what the one before it writes.
\<close>

section \<open>Validation\<close>

lemma strictly_sorted_unique_iff: "strictly_sorted_unique xs \<longleftrightarrow> sorted_wrt str_less xs"
  by (induction xs rule: strictly_sorted_unique.induct) (auto intro: str_less_trans)

lemma decimal_no_slash: "CHR ''/'' \<notin> set (decimal n)"
  by (rule decimal_notin) (simp add: to_digit_def)

lemma ip_no_slash: "CHR ''/'' \<notin> set (display_ip a)"
  by (rule display_ip_notin) (simp_all add: to_digit_def)

lemma split_printed: "split_once CHR ''/'' (display_ip a @ ''/'' @ rest) = Some (display_ip a, rest)"
  using ip_no_slash by (simp add: split_once_Some)

lemma parse_u8_printed: "n < 256 \<Longrightarrow> parse_u8 (decimal n) = Some (word_of_nat n)"
  using parse_u8_decimal [of "word_of_nat n"] by (simp add: unat_of_nat)

lemma small_word_le:
  "n < 256 \<Longrightarrow> (word_of_nat n :: u8) \<le> 32 \<longleftrightarrow> n \<le> 32" "n < 256 \<Longrightarrow> (word_of_nat n :: u8) \<le> 128 \<longleftrightarrow> n \<le> 128"
  by (simp_all add: word_le_nat_alt unat_of_nat)

lemma valid_address_exact: "valid_address v \<longleftrightarrow> address_text v"
proof
  assume v: "valid_address v"
  then obtain x y where s: "split_once CHR ''/'' v = Some (x, y)"
    by (cases "split_once CHR ''/'' v") (auto simp: valid_address_def)
  then obtain a where a: "parse_ip x = Some a" using v by (cases "parse_ip x") (auto simp: valid_address_def split: if_splits)
  then obtain p where "parse_u8 y = Some p" using v s by (cases "parse_u8 y") (auto simp: valid_address_def split: if_splits)
  then have "display_ip a @ ''/'' @ decimal (unat p) = v" "if is_ipv4 a then p \<le> 32 else p \<le> 128"
    using v s a by (auto simp: valid_address_def split: if_splits)
  then show "address_text v"
    unfolding address_text_def by (intro exI [of _ a] exI [of _ "unat p"]) (auto simp: word_le_nat_alt)
next
  assume "address_text v"
  then obtain a n where v: "v = display_ip a @ ''/'' @ decimal n" and n: "n \<le> (if is_ipv4 a then 32 else 128)"
    by (auto simp: address_text_def)
  then have small: "n < 256" by (auto split: if_splits)
  show "valid_address v"
    unfolding valid_address_def v split_printed
    using n decimal_no_slash [of n] parse_u8_printed [OF small] small_word_le [OF small] small
    by (simp add: ip_text.scan_print unat_of_nat split: if_splits)
qed

lemma gateway_exact:
  "(case parse_ip v of None \<Rightarrow> False | Some parsed \<Rightarrow> display_ip parsed = v) \<longleftrightarrow> gateway_text v"
  by (auto simp: gateway_text_def ip_text.scan_print split: option.splits)

lemma validate_observed:
  assumes "Protocol.network_status.primary_connection st = Some p" "observed_primary p"
  shows "validate_network_status st = (if length (primary_connection.addresses p) \<le> 256 then Some st else None)"
  using assms
  by (auto simp: validate_network_status_def observed_primary_def observed_def valid_interface_def
      strictly_sorted_unique_iff valid_address_exact gateway_exact list_all_iff)

section \<open>The view of the remote service\<close>

lemma parse_entry_text:
  assumes "n \<le> (if is_ipv4 a then 32 else 128)"
  shows "parse_entry (display_ip a @ ''/'' @ decimal n) = (if n = 0 then None else Some (a, word_of_nat n))"
proof -
  have small: "n < 256" using assms by (auto split: if_splits)
  have z: "(word_of_nat n :: u8) = 0 \<longleftrightarrow> n = 0" using small by (auto simp: word_of_nat_eq_0_iff dest: nat_dvd_not_less)
  have b: "(if is_ipv4 a then 32 else 128) < (word_of_nat n :: u8) \<longleftrightarrow> False"
    using assms small_word_le [OF small] by (auto simp: not_less [symmetric] split: if_splits)
  show ?thesis
    unfolding parse_entry_def split_printed using z b parse_u8_printed [OF small] by (simp add: ip_text.scan_print)
qed

lemma decimal_0_iff: "decimal n = ''0'' \<longleftrightarrow> n = 0"
  using decimal_inj [of n 0] by (simp add: decimal_0)

lemma parse_entry_observed:
  assumes "address_text e"
  shows "parse_entry e = None \<longleftrightarrow> (\<exists>a. e = display_ip a @ ''/0'')"
proof -
  obtain a n where e: "e = display_ip a @ ''/'' @ decimal n" and n: "n \<le> (if is_ipv4 a then 32 else 128)"
    using assms by (auto simp: address_text_def)
  have "(\<exists>b. e = display_ip b @ ''/0'') \<longleftrightarrow> n = 0"
  proof
    assume "\<exists>b. e = display_ip b @ ''/0''"
    then obtain b where "display_ip a @ ''/'' @ decimal n = display_ip b @ ''/'' @ ''0''" using e by auto
    then have "split_once CHR ''/'' (display_ip a @ ''/'' @ decimal n) = split_once CHR ''/'' (display_ip b @ ''/'' @ ''0'')"
      by simp
    then show "n = 0" unfolding split_printed by (simp add: decimal_0_iff)
  qed (use e decimal_0 in auto)
  then show ?thesis using parse_entry_text [OF n] e by simp
qed

lemma printed_entries:
  assumes "\<And>e. e \<in> E \<Longrightarrow> address_text e" "\<forall>a. display_ip a @ ''/0'' \<notin> E"
  shows "(\<exists>e \<in> E. \<exists>len. parse_entry e = Some (a, len)) \<longleftrightarrow> (\<exists>n. display_ip a @ ''/'' @ decimal n \<in> E)"
proof
  assume "\<exists>e \<in> E. \<exists>len. parse_entry e = Some (a, len)"
  then obtain e len where e: "e \<in> E" "parse_entry e = Some (a, len)" by blast
  obtain b n where "e = display_ip b @ ''/'' @ decimal n" "n \<le> (if is_ipv4 b then 32 else 128)"
    using assms(1) [OF e(1)] by (auto simp: address_text_def)
  then show "\<exists>n. display_ip a @ ''/'' @ decimal n \<in> E" using e parse_entry_text by (auto split: if_splits)
next
  assume "\<exists>n. display_ip a @ ''/'' @ decimal n \<in> E"
  then obtain n where n: "display_ip a @ ''/'' @ decimal n \<in> E" by blast
  obtain b m where b: "display_ip a @ ''/'' @ decimal n = display_ip b @ ''/'' @ decimal m" "m \<le> (if is_ipv4 b then 32 else 128)"
    using assms(1) [OF n] by (auto simp: address_text_def)
  have "Some (display_ip a, decimal n) = Some (display_ip b, decimal m)" using b(1) split_printed by metis
  then have "a = b" "n = m" by (auto simp: ip_text.print_inj decimal_inj)
  moreover have "n \<noteq> 0" using assms(2) n decimal_0 by (cases n) auto
  ultimately show "\<exists>e \<in> E. \<exists>len. parse_entry e = Some (a, len)" using parse_entry_text [of n a] b(2) n by auto
qed

text \<open>The fields that the decoder of sl-remoted reads from a session status.\<close>

definition as_remoted :: "Protocol.session_status \<Rightarrow> Network.session_status" where
  "as_remoted st =
     \<lparr>schema_version = status.schema_version st,
      network = \<lparr>primary_connection =
        map_option (\<lambda>p. \<lparr>addresses = primary_connection.addresses p\<rparr>)
          (Protocol.network_status.primary_connection (status.network st))\<rparr>\<rparr>"

lemma status_entries_as_remoted:
  "status_entries (as_remoted st) =
     (case Protocol.network_status.primary_connection (status.network st) of
        None \<Rightarrow> [] | Some p \<Rightarrow> primary_connection.addresses p)"
  by (simp add: status_entries_def as_remoted_def split: option.splits)

section \<open>Property\<close>

text \<open>C26: what the observer writes, the others understand.  Whatever NetworkManager answers, a status that the observer
  delivers passes platformd's validation unless it lists more than 256 addresses, and the remote service forms a view
  from the session status that carries it unless a listed address has the prefix length 0; it then listens on exactly
  the listed addresses that may be listened on.\<close>

theorem observed_network_understood:
  assumes "Observer.observe_network nm s = (Inr net, s')"
    and "status.network st = net" "from_str json = Some (as_remoted (from_platform st rm))"
  defines "entries \<equiv> (case Protocol.network_status.primary_connection net of
      None \<Rightarrow> [] | Some p \<Rightarrow> primary_connection.addresses p)"
  shows "validate_network_status net = (if length entries \<le> 256 then Some net else None) \<and>
    (case view_from_status from_str json of
       Inl _ \<Rightarrow> \<exists>a. display_ip a @ ''/0'' \<in> set entries
     | Inr v \<Rightarrow> (\<forall>a. display_ip a @ ''/0'' \<notin> set entries) \<and>
         set (listen v) = {a. listenable a \<and> (\<exists>n. display_ip a @ ''/'' @ decimal n \<in> set entries)})"
proof -
  have p: "observed_primary p" if "Protocol.network_status.primary_connection net = Some p" for p
    using wp_Inr [OF observe_network_spec [of nm s] assms(1)] that by simp
  then have ents_ok: "address_text e" if "e \<in> set entries" for e
    using that by (cases "Protocol.network_status.primary_connection net") (auto simp: entries_def observed_primary_def observed_def)
  have ents: "status_entries (as_remoted (from_platform st rm)) = entries"
    using assms(2) by (simp add: status_entries_as_remoted from_platform_def entries_def)
  have schema: "Network.schema_version (as_remoted (from_platform st rm)) = ''0.4''"
    by (simp add: as_remoted_def from_platform_def SESSION_SCHEMA_VERSION_def)
  have 1: "validate_network_status net = (if length entries \<le> 256 then Some net else None)"
  proof (cases "Protocol.network_status.primary_connection net")
    case None then show ?thesis by (simp add: entries_def validate_network_status_def)
  next
    case (Some q) then show ?thesis using validate_observed [OF Some p [OF Some]] by (simp add: entries_def)
  qed
  have 2: "list_ex (\<lambda>e. parse_entry e = None) entries \<longleftrightarrow> (\<exists>a. display_ip a @ ''/0'' \<in> set entries)"
    using parse_entry_observed ents_ok by (fastforce simp: list_ex_iff)
  have 3: "(\<exists>e \<in> set entries. \<exists>len. parse_entry e = Some (a, len)) \<longleftrightarrow> (\<exists>n. display_ip a @ ''/'' @ decimal n \<in> set entries)"
    if "\<forall>a. display_ip a @ ''/0'' \<notin> set entries" for a
    using printed_entries [OF ents_ok] that by blast
  show ?thesis
    using 1 2 3 view_exact [of from_str json _ "as_remoted (from_platform st rm)"] assms(3) ents schema
    by (auto simp: view_from_status_entries add_entries_spec split: sum.splits if_splits)
qed

text \<open>A NetworkManager with one wired connection.\<close>

definition demo_nm :: "unit nm" where
  "demo_nm path face name =
     (if name = ''State'' then ok (PU32 70)
      else if name = ''PrimaryConnection'' then ok (PPath ''/a'')
      else if name = ''Devices'' then ok (PPaths [''/d''])
      else if name = ''Interface'' then ok (PString ''en0'')
      else if name = ''Ip4Config'' then ok (PPath ''/4'')
      else if name = ''Ip6Config'' then ok (PPath ''/'')
      else if name = ''AddressData'' then ok (PData [[''address'' \<mapsto> Str (display_ip (V4 0xc0a80102)), ''prefix'' \<mapsto> U32 24]])
      else if name = ''Default'' then ok (PBool True)
      else ok (PString (display_ip (V4 0xc0a80101))))"

definition demo_net :: Protocol.network_status where
  "demo_net = \<lparr>network_status_state = ConnectedGlobal, primary_connection = Some \<lparr>interface = ''en0'',
     addresses = [display_ip (V4 0xc0a80102) @ ''/'' @ decimal 24],
     default_gateways = [display_ip (V4 0xc0a80101)]\<rparr>\<rparr>"

lemma demo_observed: "Observer.observe_network demo_nm () = (Inr demo_net, ())"
proof -
  have ne: "display_ip (V4 0xc0a80101) \<noteq> []" by (simp add: display_ip_def display_v4_def octets_def)
  have e: "parse_address_entry 4 [''address'' \<mapsto> Str (display_ip (V4 0xc0a80102)), ''prefix'' \<mapsto> U32 24] =
      Inr (display_ip (V4 0xc0a80102) @ ''/'' @ decimal 24)"
    by (simp add: parse_address_entry_def ip_text.scan_print is_ipv4_def)
  have d: "parse_address_data [[''address'' \<mapsto> Str (display_ip (V4 0xc0a80102)), ''prefix'' \<mapsto> U32 24]] 4 =
      Inr [display_ip (V4 0xc0a80102) @ ''/'' @ decimal 24]"
    unfolding parse_address_data_def collect_entries.simps e by simp
  have g: "parse_gateway (display_ip (V4 0xc0a80101)) 4 = Inr (Some (display_ip (V4 0xc0a80101)))"
    using ne by (simp add: parse_gateway_def ip_text.scan_print is_ipv4_def)
  have f: "observe_families demo_nm ''/a'' FAMILIES ([], []) () =
      (Inr ([display_ip (V4 0xc0a80102) @ ''/'' @ decimal 24], [display_ip (V4 0xc0a80101)]), ())"
    using d g
    by (simp add: FAMILIES_def observe_family_def read_property_def and_then_def ok_def lift_res_def ok_or_def demo_nm_def
        as_path_def as_data_def as_bool_def as_string_def set_extend_def Let_def)
  show ?thesis
    using f
    by (simp add: Observer.observe_network_def read_property_def and_then_def ok_def lift_res_def ok_or_def demo_nm_def as_u32_def
        as_path_def as_paths_def as_string_def valid_interface_def code_points_def utf8_tail_def code_point_def
        is_control_def is_whitespace_def network_state_def demo_net_def)
qed

definition demo_decoder :: "status \<Rightarrow> string \<Rightarrow> Network.session_status option" where
  "demo_decoder st _ = Some (as_remoted (from_platform st \<lparr>enabled = True, listening = True, enrolled = True\<rparr>))"

theorem observed_network_understood_witness:
  "\<exists>st v. status.network st = demo_net \<and> validate_network_status demo_net = Some demo_net \<and>
     view_from_status (demo_decoder st) [] = Inr v \<and> V4 0xc0a80102 \<in> set (listen v)"
proof -
  obtain st :: status where st: "status.network st = demo_net" by (metis status.select_convs(8))
  have "\<nexists>a. display_ip a @ ''/0'' = display_ip (V4 0xc0a80102) @ ''/'' @ decimal 24"
  proof
    assume "\<exists>a. display_ip a @ ''/0'' = display_ip (V4 0xc0a80102) @ ''/'' @ decimal 24"
    then obtain a where "display_ip a @ ''/'' @ ''0'' = display_ip (V4 0xc0a80102) @ ''/'' @ decimal 24" by auto
    then have "Some (display_ip a, ''0'') = Some (display_ip (V4 0xc0a80102), decimal 24)" using split_printed by metis
    then show False using decimal_0_iff [of 24] by simp
  qed
  then have none: "\<nexists>a. display_ip a @ ''/0'' \<in> {display_ip (V4 0xc0a80102) @ ''/'' @ decimal 24}" by simp
  have "listenable (V4 0xc0a80102)"
    by (simp add: listenable_def v4_is_loopback_def v4_is_multicast_def v4_is_link_local_def)
  moreover have dec: "demo_decoder st [] = Some (as_remoted (from_platform st \<lparr>enabled = True, listening = True, enrolled = True\<rparr>))"
    by (simp add: demo_decoder_def)
  moreover have es: "(case Protocol.network_status.primary_connection demo_net of None \<Rightarrow> [] | Some p \<Rightarrow> primary_connection.addresses p) =
      [display_ip (V4 0xc0a80102) @ ''/'' @ decimal 24]"
    by (simp add: demo_net_def)
  note t = observed_network_understood [where from_str = "demo_decoder st" and json = "[]", OF demo_observed st dec, unfolded es]
  obtain v where v: "view_from_status (demo_decoder st) [] = Inr v"
    using t none by (cases "view_from_status (demo_decoder st) []") auto
  ultimately have "V4 0xc0a80102 \<in> set (listen v)" using t by auto
  moreover have "validate_network_status demo_net = Some demo_net" using t by simp
  ultimately show ?thesis using v st by blast
qed

end
