(* ===== verification/Codes.thy ===== *)
theory Codes
  imports SL_Prelude
begin

text \<open>
  Pairing codes and recovery keys of sl-authd (\<^verbatim>\<open>src/authd/src/codes.rs\<close>): Crockford base32, most
  significant bit first, on a 16-bit shift buffer.  The encoder and decoder are the loops of the
  source; \<open>enc5\<close> and \<open>dec8\<close> are reference definitions on bit lists, against which both loops are
  proved.  The interfaces \<open>lenient_code\<close> (what a caller of the pairing parser relies on) and
  \<open>canonical_code\<close> (exactly one text per byte string) are interpreted on the two formats.
\<close>

section \<open>Definitions\<close>

definition ALPHABET :: string where
  "ALPHABET = ''0123456789ABCDEFGHJKMNPQRSTVWXYZ''"

definition PAIRING_CODE_BYTES :: nat where "PAIRING_CODE_BYTES = 5"
definition PAIRING_CODE_SYMBOLS :: nat where "PAIRING_CODE_SYMBOLS = 8"
definition RECOVERY_KEY_BYTES :: nat where "RECOVERY_KEY_BYTES = 16"
definition RECOVERY_KEY_SYMBOLS :: nat where "RECOVERY_KEY_SYMBOLS = 26"

definition symbol_value :: "char \<Rightarrow> u8 option" where
  "symbol_value symbol = map_option word_of_nat (position (\<lambda>candidate. candidate = symbol) ALPHABET)"

text \<open>The inner \<^verbatim>\<open>while bits >= 5\<close> loop and the outer loop over the bytes.  The shifts drop the bits
  that leave the 16-bit buffer, as in the source.\<close>

fun encode_drain :: "u16 \<Rightarrow> nat \<Rightarrow> string \<Rightarrow> nat \<times> string" where
  "encode_drain buffer bits out =
     (if 5 \<le> bits
      then encode_drain buffer (bits - 5)
             (out @ [ALPHABET ! unat (drop_bit (bits - 5) buffer AND 31)])
      else (bits, out))"

declare encode_drain.simps [simp del]

fun encode_loop :: "u8 list \<Rightarrow> u16 \<Rightarrow> nat \<Rightarrow> string \<Rightarrow> u16 \<times> nat \<times> string" where
  "encode_loop [] buffer bits out = (buffer, bits, out)"
| "encode_loop (byte # bytes) buffer bits out =
     (let buffer = push_bit 8 buffer OR ucast byte;
          (bits, out) = encode_drain buffer (bits + 8) out
      in encode_loop bytes buffer bits out)"

definition encode :: "u8 list \<Rightarrow> string" where
  "encode bytes =
     (case encode_loop bytes 0 0 [] of (buffer, bits, out) \<Rightarrow>
        if 0 < bits then out @ [ALPHABET ! unat (push_bit (5 - bits) buffer AND 31)] else out)"

text \<open>The decoder loop: \<open>nsym\<close> is \<^verbatim>\<open>symbols.len()\<close>; the array written at \<^verbatim>\<open>out[index]\<close> is the list of the
  bytes written so far, so \<^verbatim>\<open>index\<close> is its length.\<close>

fun decode_loop ::
  "nat \<Rightarrow> nat \<Rightarrow> nat \<Rightarrow> string \<Rightarrow> u16 \<Rightarrow> nat \<Rightarrow> u8 list \<Rightarrow> u8 list option" where
  "decode_loop nsym padding pos [] buffer bits out = Some out"
| "decode_loop nsym padding pos (symbol # symbols) buffer bits out =
     (case symbol_value symbol of
        None \<Rightarrow> None
      | Some v \<Rightarrow>
          if pos = nsym - 1 \<and> v AND (push_bit padding 1 - 1) \<noteq> 0 then None
          else
            let buffer = push_bit 5 buffer OR ucast v; bits = bits + 5
            in if 8 \<le> bits
               then decode_loop nsym padding (pos + 1) symbols buffer (bits - 8)
                      (out @ [ucast (drop_bit (bits - 8) buffer)])
               else decode_loop nsym padding (pos + 1) symbols buffer bits out)"

definition decode :: "nat \<Rightarrow> string \<Rightarrow> u8 list option" where
  "decode N symbols =
     (if length symbols * 5 < N * 8 \<or> 5 \<le> length symbols * 5 - N * 8 then None
      else
        case decode_loop (length symbols) (length symbols * 5 - N * 8) 0 symbols 0 0 [] of
          None \<Rightarrow> None
        | Some out \<Rightarrow> if length out = N then Some out else None)"

definition encode_pairing_code :: "u8 list \<Rightarrow> string" where
  "encode_pairing_code code = encode code"

definition parse_pairing_code :: "string \<Rightarrow> u8 list option" where
  "parse_pairing_code input =
     (if length input = 8 then decode PAIRING_CODE_BYTES (map to_ascii_uppercase_char input)
      else if length input = 9 \<and> input ! 4 = CHR ''-''
      then decode PAIRING_CODE_BYTES (map to_ascii_uppercase_char (take 4 input @ drop 5 input))
      else None)"

definition encode_recovery_key :: "u8 list \<Rightarrow> string" where
  "encode_recovery_key key = encode key"

definition parse_recovery_key :: "string \<Rightarrow> u8 list option" where
  "parse_recovery_key input =
     (if length input \<noteq> RECOVERY_KEY_SYMBOLS then None else decode RECOVERY_KEY_BYTES input)"

section \<open>Reference definitions on bit lists\<close>

text \<open>The \<open>n\<close> low bits of a number, most significant first.\<close>

primrec nbits :: "nat \<Rightarrow> nat \<Rightarrow> bool list" where
  "nbits 0 v = []"
| "nbits (Suc n) v = bit v n # nbits n v"

definition bits_val :: "bool list \<Rightarrow> nat" where
  "bits_val bs = foldl (\<lambda>a b. 2 * a + of_bool b) 0 bs"

definition byte_bits :: "u8 list \<Rightarrow> bool list" where
  "byte_bits bytes = concat (map (\<lambda>b. nbits 8 (unat b)) bytes)"

text \<open>Five bits per symbol, the last group padded with zeros; eight bits per byte, a shorter rest
  dropped.\<close>

fun enc5 :: "bool list \<Rightarrow> string" where
  "enc5 bs =
     (if 5 \<le> length bs then ALPHABET ! bits_val (take 5 bs) # enc5 (drop 5 bs)
      else if bs = [] then []
      else [ALPHABET ! bits_val (bs @ replicate (5 - length bs) False)])"

fun dec8 :: "bool list \<Rightarrow> u8 list" where
  "dec8 bs = (if 8 \<le> length bs then word_of_nat (bits_val (take 8 bs)) # dec8 (drop 8 bs) else [])"

section \<open>Interfaces\<close>

text \<open>What the state machine relies on: a generated code that is typed back is recognised, and what
  is recognised is a byte string of the right shape.\<close>

locale lenient_code =
  fixes enc :: "'b \<Rightarrow> string" and dec :: "string \<Rightarrow> 'b option" and valid :: "'b \<Rightarrow> bool"
  assumes dec_enc: "valid b \<Longrightarrow> dec (enc b) = Some b"
    and dec_valid: "dec s = Some b \<Longrightarrow> valid b"
begin

lemma enc_inj: "valid a \<Longrightarrow> valid b \<Longrightarrow> enc a = enc b \<longleftrightarrow> a = b"
  using dec_enc by (metis option.inject)

end

text \<open>One accepted text per byte string, and no other text accepted.\<close>

locale canonical_code = lenient_code +
  assumes enc_dec: "dec s = Some b \<Longrightarrow> enc b = s"
begin

lemma dec_Some_iff: "dec s = Some b \<longleftrightarrow> valid b \<and> s = enc b"
  using dec_enc dec_valid enc_dec by blast

lemma dec_inj: "dec s = Some b \<Longrightarrow> dec t = Some b \<Longrightarrow> s = t"
  using enc_dec by blast

lemma accepted_iff: "dec s \<noteq> None \<longleftrightarrow> (\<exists>b. valid b \<and> s = enc b)"
  using dec_Some_iff by (metis not_None_eq)

end

declare enc5.simps [simp del] dec8.simps [simp del]

section \<open>Bit lists\<close>

lemma length_nbits [simp]: "length (nbits n v) = n"
  by (induction n) simp_all

lemma nbits_append: "nbits (a + b) v = nbits a (v div 2 ^ b) @ nbits b v"
  by (induction a) (simp_all add: bit_drop_bit_eq add.commute flip: drop_bit_eq_div)

lemma nbits_mod: "n \<le> m \<Longrightarrow> nbits n (v mod 2 ^ m) = nbits n v"
  by (induction n) (simp_all add: bit_take_bit_iff flip: take_bit_eq_mod)

lemma nbits_add: "v < 2 ^ b \<Longrightarrow> nbits (a + b) (u * 2 ^ b + v) = nbits a u @ nbits b v"
  using nbits_mod [of b b "u * 2 ^ b + v"] by (simp add: nbits_append)

lemma nbits_0 [simp]: "nbits n 0 = replicate n False"
  by (induction n) simp_all

lemma bits_val_Nil [simp]: "bits_val [] = 0"
  by (simp add: bits_val_def)

lemma bits_val_snoc: "bits_val (bs @ [b]) = 2 * bits_val bs + of_bool b"
  by (simp add: bits_val_def)

lemma bits_val_nbits [simp]: "bits_val (nbits n v) = v mod 2 ^ n"
proof (induction n arbitrary: v)
  case (Suc n)
  have "bits_val (nbits (Suc n) v) = bits_val (nbits n (v div 2) @ [odd v])"
    using nbits_append [of n 1 v] by (simp add: bit_0)
  also have "\<dots> = 2 * ((v div 2) mod 2 ^ n) + of_bool (odd v)"
    by (simp add: bits_val_snoc Suc.IH)
  also have "\<dots> = v mod 2 ^ Suc n"
    by (simp add: mod_mult2_eq mod_2_eq_odd)
  finally show ?case .
qed simp

lemma nbits_bits_val [simp]: "nbits (length bs) (bits_val bs) = bs"
proof (induction bs rule: rev_induct)
  case (snoc b bs)
  have "nbits (length bs + 1) (2 * bits_val bs + of_bool b) = nbits (length bs) (bits_val bs) @ [b]"
    using nbits_append [of "length bs" 1 "2 * bits_val bs + of_bool b"] by (simp add: bit_0)
  with snoc show ?case by (simp add: bits_val_snoc)
qed simp

lemma bits_val_lt: "bits_val bs < 2 ^ length bs"
  using bits_val_nbits [of "length bs" "bits_val bs"]
  by (metis mod_less_divisor nbits_bits_val zero_less_numeral zero_less_power)

lemma nbits_eqI: "(\<And>i. i < n \<Longrightarrow> bit u i = bit v i) \<Longrightarrow> nbits n u = nbits n v"
  by (induction n) simp_all

section \<open>The encoder is the reference encoder\<close>

lemma unat_and_31: "unat (w AND 31) = unat w mod 32" for w :: "'a::len word"
proof -
  have "w AND 31 = take_bit 5 w" by (simp add: take_bit_eq_mask mask_eq_exp_minus_1)
  then have "unat (w AND 31) = unat (take_bit 5 w)" by (rule arg_cong)
  also have "\<dots> = take_bit 5 (unat w)" by (rule unsigned_take_bit_eq)
  finally show ?thesis by (simp add: take_bit_eq_mod)
qed

lemma nbits_shift_in:
  fixes buffer :: u16 and v :: u8
  assumes "n + k \<le> 16" and "unat v < 2 ^ k"
  shows "nbits (n + k) (unat (push_bit k buffer OR ucast v)) = nbits n (unat buffer) @ nbits k (unat v)"
proof -
  have v: "\<not> bit v i" if "k \<le> i" for i
  proof -
    have "unat v < 2 ^ i" using assms(2) that by (meson less_le_trans one_le_numeral power_increasing)
    then have "\<not> bit (unat v) i" by (simp add: bit_iff_odd)
    then show ?thesis by (simp add: bit_unsigned_iff)
  qed
  let ?w = "push_bit k buffer OR ucast v"
  have "bit (unat ?w div 2 ^ k) i = bit (unat buffer) i" if "i < n" for i
    using assms(1) that v [of "i + k"]
    by (auto simp: bit_drop_bit_eq bit_unsigned_iff bit_or_iff bit_push_bit_iff add.commute
             simp flip: drop_bit_eq_div)
  then have "nbits n (unat ?w div 2 ^ k) = nbits n (unat buffer)" by (rule nbits_eqI)
  moreover have "bit (unat ?w) i = bit (unat v) i" if "i < k" for i
    using assms(1) that
    by (auto simp: bit_unsigned_iff bit_or_iff bit_push_bit_iff dest: bit_imp_le_length)
  then have "nbits k (unat ?w) = nbits k (unat v)" by (rule nbits_eqI)
  ultimately show ?thesis by (simp add: nbits_append)
qed

lemma enc5_step:
  "length xs = 5 \<Longrightarrow> enc5 (xs @ ys) = ALPHABET ! bits_val xs # enc5 ys"
  by (subst enc5.simps) simp

lemma drop_symbol:
  "ALPHABET ! unat (drop_bit k buffer AND 31) = ALPHABET ! bits_val (nbits 5 (unat buffer div 2 ^ k))"
  for buffer :: u16
  by (simp add: unat_and_31 unat_drop_bit_eq flip: drop_bit_eq_div)

lemma encode_drain_enc5:
  "bits \<le> 16 \<Longrightarrow> encode_drain buffer bits out = (bits', out') \<Longrightarrow>
     bits' < 5 \<and> out @ enc5 (nbits bits (unat buffer) @ rest) = out' @ enc5 (nbits bits' (unat buffer) @ rest)"
proof (induction buffer bits out rule: encode_drain.induct)
  case (1 buffer bits out)
  show ?case
  proof (cases "5 \<le> bits")
    case True
    let ?c = "ALPHABET ! unat (drop_bit (bits - 5) buffer AND 31)"
    have "encode_drain buffer (bits - 5) (out @ [?c]) = (bits', out')"
      using True "1.prems" by (subst (asm) encode_drain.simps) simp
    with "1.IH" True "1.prems" have IH:
      "bits' < 5 \<and> (out @ [?c]) @ enc5 (nbits (bits - 5) (unat buffer) @ rest)
         = out' @ enc5 (nbits bits' (unat buffer) @ rest)"
      by simp
    have "nbits bits (unat buffer) = nbits 5 (unat buffer div 2 ^ (bits - 5)) @ nbits (bits - 5) (unat buffer)"
      using nbits_append [of 5 "bits - 5"] True by simp
    then have "enc5 (nbits bits (unat buffer) @ rest) = ?c # enc5 (nbits (bits - 5) (unat buffer) @ rest)"
      by (simp only: append_assoc drop_symbol enc5_step length_nbits)
    with IH show ?thesis by simp
  next
    case False
    with "1.prems" show ?thesis by (subst (asm) encode_drain.simps) simp
  qed
qed

lemma unat_byte_lt: "unat (v :: u8) < 2 ^ 8"
  using unat_u8_lt by simp

lemma encode_loop_enc5:
  "bits < 5 \<Longrightarrow> encode_loop bytes buffer bits out = (buffer', bits', out') \<Longrightarrow>
     bits' < 5 \<and> out @ enc5 (nbits bits (unat buffer) @ byte_bits bytes) = out' @ enc5 (nbits bits' (unat buffer'))"
proof (induction bytes arbitrary: buffer bits out)
  case Nil
  then show ?case by (simp add: byte_bits_def)
next
  case (Cons byte bytes)
  let ?b = "push_bit 8 buffer OR ucast byte"
  obtain n o' where dr: "encode_drain ?b (bits + 8) out = (n, o')" by fastforce
  have lp: "encode_loop bytes ?b n o' = (buffer', bits', out')"
    using Cons.prems dr by simp
  have sh: "nbits (bits + 8) (unat ?b) = nbits bits (unat buffer) @ nbits 8 (unat byte)"
    using Cons.prems(1) by (intro nbits_shift_in unat_byte_lt) simp
  have "n < 5 \<and> out @ enc5 (nbits (bits + 8) (unat ?b) @ byte_bits bytes) = o' @ enc5 (nbits n (unat ?b) @ byte_bits bytes)"
    using Cons.prems(1) by (intro encode_drain_enc5 dr) simp
  with Cons.IH [OF _ lp] show ?case
    by (simp only: sh byte_bits_def list.map concat.simps append_assoc)
qed

lemma push_symbol:
  fixes buffer :: u16
  assumes "bits < 5"
  shows "ALPHABET ! unat (push_bit (5 - bits) buffer AND 31) =
         ALPHABET ! bits_val (nbits bits (unat buffer) @ replicate (5 - bits) False)"
proof -
  have "nbits (bits + (5 - bits)) (unat (push_bit (5 - bits) buffer OR ucast (0 :: u8)))
          = nbits bits (unat buffer) @ nbits (5 - bits) (unat (0 :: u8))"
    using assms by (intro nbits_shift_in) simp_all
  then have "nbits 5 (unat (push_bit (5 - bits) buffer)) = nbits bits (unat buffer) @ replicate (5 - bits) False"
    using assms by simp
  moreover have "unat (push_bit (5 - bits) buffer AND 31) = bits_val (nbits 5 (unat (push_bit (5 - bits) buffer)))"
    by (simp add: unat_and_31)
  ultimately show ?thesis by simp
qed

lemma encode_enc5: "encode bytes = enc5 (byte_bits bytes)"
proof -
  obtain buffer bits out where lp: "encode_loop bytes 0 0 [] = (buffer, bits, out)"
    by (metis prod_cases3)
  with encode_loop_enc5 [OF _ lp] have *: "bits < 5" "enc5 (byte_bits bytes) = out @ enc5 (nbits bits (unat buffer))"
    by simp_all
  show ?thesis
  proof (cases "bits = 0")
    case True
    with * lp show ?thesis by (simp add: encode_def enc5.simps)
  next
    case False
    have "enc5 (nbits bits (unat buffer)) = [ALPHABET ! bits_val (nbits bits (unat buffer) @ replicate (5 - bits) False)]"
      using False * by (subst enc5.simps) (cases bits, simp_all)
    with * lp False show ?thesis by (simp add: encode_def push_symbol)
  qed
qed

section \<open>The decoder is the reference decoder\<close>

lemma length_ALPHABET [simp]: "length ALPHABET = 32"
  by (simp add: ALPHABET_def)

lemma distinct_ALPHABET: "distinct ALPHABET"
  by (simp add: ALPHABET_def)

lemma symbol_value_Some:
  "symbol_value c = Some v \<Longrightarrow> unat v < 32 \<and> c = ALPHABET ! unat v"
  unfolding symbol_value_def
  by (auto dest!: position_Some simp: unat_of_nat)

lemma symbol_value_nth: "i < 32 \<Longrightarrow> symbol_value (ALPHABET ! i) = Some (word_of_nat i)"
  by (simp add: symbol_value_def position_nth distinct_ALPHABET)

definition sym_bits :: "u8 list \<Rightarrow> bool list" where
  "sym_bits vs = concat (map (\<lambda>v. nbits 5 (unat v)) vs)"

lemma length_sym_bits [simp]: "length (sym_bits vs) = 5 * length vs"
  by (induction vs) (simp_all add: sym_bits_def)

lemma length_byte_bits [simp]: "length (byte_bits bs) = 8 * length bs"
  by (induction bs) (simp_all add: byte_bits_def)

lemma dec8_step: "length xs = 8 \<Longrightarrow> dec8 (xs @ ys) = word_of_nat (bits_val xs) # dec8 ys"
  by (subst dec8.simps) simp

lemma drop_byte:
  "ucast (drop_bit k buffer) = (word_of_nat (bits_val (nbits 8 (unat buffer div 2 ^ k))) :: u8)"
  for buffer :: u16
proof -
  have "unat (drop_bit k buffer) = unat buffer div 2 ^ k"
    by (subst unat_drop_bit_eq) (rule drop_bit_eq_div)
  then have "bits_val (nbits 8 (unat buffer div 2 ^ k)) = take_bit 8 (unat (drop_bit k buffer))"
    by (simp only: bits_val_nbits take_bit_eq_mod)
  then show ?thesis
    by (intro bit_word_eqI) (simp add: bit_of_nat_iff bit_take_bit_iff bit_unsigned_iff)
qed

definition pad_ok :: "nat \<Rightarrow> u8 \<Rightarrow> bool" where
  "pad_ok padding v \<longleftrightarrow> v AND (push_bit padding 1 - 1) = 0"

text \<open>One decoder step: shifting five bits into the buffer and taking a byte out when eight are there.\<close>

lemma dec8_shift_in:
  fixes v :: u8 and buffer :: u16
  assumes "bits < 8" and "unat v < 2 ^ 5"
  defines "b \<equiv> push_bit 5 buffer OR ucast v"
  shows "(if 3 \<le> bits then [ucast (drop_bit (bits - 3) b)] else []) @
           dec8 (nbits (if 3 \<le> bits then bits - 3 else bits + 5) (unat b) @ ys)
         = dec8 (nbits bits (unat buffer) @ nbits 5 (unat v) @ ys)"
proof (cases "3 \<le> bits")
  case True
  have "nbits (bits + 5) (unat b) = nbits bits (unat buffer) @ nbits 5 (unat v)"
    unfolding b_def using assms(1,2) by (intro nbits_shift_in) simp_all
  moreover have "nbits (bits + 5) (unat b) = nbits 8 (unat b div 2 ^ (bits - 3)) @ nbits (bits - 3) (unat b)"
    using nbits_append [of 8 "bits - 3"] True by (simp add: add.commute)
  ultimately have "nbits bits (unat buffer) @ nbits 5 (unat v) @ ys
      = nbits 8 (unat b div 2 ^ (bits - 3)) @ nbits (bits - 3) (unat b) @ ys"
    by simp
  then have "dec8 (nbits bits (unat buffer) @ nbits 5 (unat v) @ ys)
      = ucast (drop_bit (bits - 3) b) # dec8 (nbits (bits - 3) (unat b) @ ys)"
    by (simp only: dec8_step length_nbits drop_byte)
  with True show ?thesis by simp
next
  case False
  then show ?thesis
    using nbits_shift_in [of bits 5 v buffer] assms(1,2) by (simp add: b_def)
qed

lemma decode_loop_dec8:
  "bits < 8 \<Longrightarrow> pos + length symbols = nsym \<Longrightarrow>
     decode_loop nsym padding pos symbols buffer bits out = Some r \<longleftrightarrow>
       (\<exists>vs. map symbol_value symbols = map Some vs
          \<and> (vs \<noteq> [] \<longrightarrow> pad_ok padding (last vs))
          \<and> r = out @ dec8 (nbits bits (unat buffer) @ sym_bits vs))"
proof (induction symbols arbitrary: pos buffer bits out)
  case Nil
  have "dec8 (nbits bits (unat buffer)) = []" using Nil by (subst dec8.simps) simp
  then show ?case by (auto simp: sym_bits_def)
next
  case (Cons c symbols)
  show ?case
  proof (cases "symbol_value c")
    case None
    then show ?thesis by (auto simp: Cons_eq_map_conv)
  next
    case (Some v)
    let ?b = "push_bit 5 buffer OR ucast v"
    let ?bad = "symbols = [] \<and> \<not> pad_ok padding v"
    let ?out = "if 3 \<le> bits then out @ [ucast (drop_bit (bits - 3) ?b)] else out"
    let ?bits = "if 3 \<le> bits then bits - 3 else bits + 5"
    have lp: "decode_loop nsym padding pos (c # symbols) buffer bits out =
        (if ?bad then None else decode_loop nsym padding (pos + 1) symbols ?b ?bits ?out)"
      using Some Cons.prems by (auto simp: Let_def pad_ok_def)
    have v: "unat v < 2 ^ 5" using symbol_value_Some [OF Some] by simp
    have dec: "?out @ dec8 (nbits ?bits (unat ?b) @ ys) = out @ dec8 (nbits bits (unat buffer) @ nbits 5 (unat v) @ ys)" for ys
      using dec8_shift_in [OF Cons.prems(1) v, of buffer ys]
      by (cases "3 \<le> bits") (simp_all only: if_True if_False append.simps append_assoc simp_thms)
    have IH: "decode_loop nsym padding (pos + 1) symbols ?b ?bits ?out = Some r \<longleftrightarrow>
        (\<exists>vs. map symbol_value symbols = map Some vs
          \<and> (vs \<noteq> [] \<longrightarrow> pad_ok padding (last vs))
          \<and> r = ?out @ dec8 (nbits ?bits (unat ?b) @ sym_bits vs))"
      using Cons.prems by (intro Cons.IH) auto
    have "decode_loop nsym padding pos (c # symbols) buffer bits out = Some r \<longleftrightarrow>
        (\<exists>vs. map symbol_value symbols = map Some vs
          \<and> pad_ok padding (last (v # vs))
          \<and> r = out @ dec8 (nbits bits (unat buffer) @ sym_bits (v # vs)))"
    proof (cases ?bad)
      case True
      then show ?thesis unfolding lp by simp
    next
      case False
      have "sym_bits (v # vs) = nbits 5 (unat v) @ sym_bits vs" for vs by (simp add: sym_bits_def)
      then have rw: "?out @ dec8 (nbits ?bits (unat ?b) @ sym_bits vs) =
          out @ dec8 (nbits bits (unat buffer) @ sym_bits (v # vs))" for vs
        by (simp only: dec)
      from False have "decode_loop nsym padding pos (c # symbols) buffer bits out = Some r \<longleftrightarrow>
          decode_loop nsym padding (pos + 1) symbols ?b ?bits ?out = Some r"
        by (simp only: lp if_False)
      also note IH
      finally have loop: "decode_loop nsym padding pos (c # symbols) buffer bits out = Some r \<longleftrightarrow>
        (\<exists>vs. map symbol_value symbols = map Some vs
          \<and> (vs \<noteq> [] \<longrightarrow> pad_ok padding (last vs))
          \<and> r = out @ dec8 (nbits bits (unat buffer) @ sym_bits (v # vs)))"
        unfolding rw .
      have "(vs \<noteq> [] \<longrightarrow> pad_ok padding (last vs)) \<longleftrightarrow>
          pad_ok padding (last (v # vs))"
        if "map symbol_value symbols = map Some vs" for vs
        using that False by (cases vs) auto
      then show ?thesis unfolding loop by (simp only: cong: conj_cong)
    qed
    then show ?thesis using Some
      by (simp only: list.map Cons_eq_map_conv option.inject) blast
  qed
qed

section \<open>Round trips\<close>

lemma byte_bits_Cons: "byte_bits (b # bs) = nbits 8 (unat b) @ byte_bits bs"
  by (simp add: byte_bits_def)

lemma sym_bits_Cons: "sym_bits (v # vs) = nbits 5 (unat v) @ sym_bits vs"
  by (simp add: sym_bits_def)

lemma sym_bits_snoc: "sym_bits (vs @ [v]) = sym_bits vs @ nbits 5 (unat v)"
  by (simp add: sym_bits_def)

lemma dec8_byte_bits: "length rest < 8 \<Longrightarrow> dec8 (byte_bits bs @ rest) = bs"
proof (induction bs)
  case Nil
  then show ?case by (subst dec8.simps) (simp add: byte_bits_def)
next
  case (Cons b bs)
  have "unat b mod 2 ^ 8 = unat b" using unat_byte_lt by (rule mod_less)
  with Cons show ?case by (simp add: byte_bits_Cons dec8_step)
qed

lemma byte_bits_dec8: "byte_bits (dec8 bs) = take (8 * (length bs div 8)) bs"
proof (induction bs rule: dec8.induct)
  case (1 bs)
  show ?case
  proof (cases "8 \<le> length bs")
    case True
    then have len: "length (take 8 bs) = 8" by simp
    then have lt: "bits_val (take 8 bs) < 2 ^ 8" using bits_val_lt [of "take 8 bs"] by simp
    then have "unat (word_of_nat (bits_val (take 8 bs)) :: u8) = bits_val (take 8 bs)"
      by (simp add: unat_of_nat)
    then have "byte_bits (dec8 bs) = take 8 bs @ byte_bits (dec8 (drop 8 bs))"
      using True nbits_bits_val [of "take 8 bs"] len
      by (subst dec8.simps) (simp add: byte_bits_Cons)
    also have "\<dots> = take 8 bs @ take (8 * (length (drop 8 bs) div 8)) (drop 8 bs)"
      using "1" True by simp
    also have "\<dots> = take (8 + 8 * (length (drop 8 bs) div 8)) bs"
      by (rule take_add [symmetric])
    also have "8 + 8 * (length (drop 8 bs) div 8) = 8 * (length bs div 8)"
      using True by (simp add: le_div_geq)
    finally show ?thesis .
  next
    case False
    then show ?thesis by (subst dec8.simps) (simp add: byte_bits_def)
  qed
qed

lemma symbol_value_bits_val:
  "length g = 5 \<Longrightarrow> \<exists>v. symbol_value (ALPHABET ! bits_val g) = Some v \<and> nbits 5 (unat v) = g"
proof -
  assume g: "length g = 5"
  then have "bits_val g < 32" using bits_val_lt [of g] by simp
  then have "symbol_value (ALPHABET ! bits_val g) = Some (word_of_nat (bits_val g))"
    and "unat (word_of_nat (bits_val g) :: u8) = bits_val g"
    by (simp_all add: symbol_value_nth unat_of_nat)
  with g show ?thesis by (metis nbits_bits_val)
qed

lemma enc5_values:
  "\<exists>vs z. map symbol_value (enc5 bs) = map Some vs \<and> z < 5 \<and> sym_bits vs = bs @ replicate z False"
proof (induction bs rule: enc5.induct)
  case (1 bs)
  consider (long) "5 \<le> length bs" | (empty) "bs = []" | (short) "bs \<noteq> []" "length bs < 5"
    by fastforce
  then show ?case
  proof cases
    case long
    with "1" obtain vs z where vs: "map symbol_value (enc5 (drop 5 bs)) = map Some vs" "z < 5"
      "sym_bits vs = drop 5 bs @ replicate z False" by auto
    have "length (take 5 bs) = 5" using long by simp
    then obtain v where v: "symbol_value (ALPHABET ! bits_val (take 5 bs)) = Some v"
      "nbits 5 (unat v) = take 5 bs" using symbol_value_bits_val by blast
    have "map symbol_value (enc5 bs) = map Some (v # vs)"
      using long v vs by (subst enc5.simps) simp
    moreover have "sym_bits (v # vs) = bs @ replicate z False"
      using v vs by (simp add: sym_bits_Cons)
    ultimately show ?thesis using vs(2) by blast
  next
    case empty
    then have "map symbol_value (enc5 bs) = map Some [] \<and> (0::nat) < 5 \<and> sym_bits [] = bs @ replicate 0 False"
      by (subst enc5.simps) (simp add: sym_bits_def)
    then show ?thesis by blast
  next
    case short
    let ?g = "bs @ replicate (5 - length bs) False"
    have "length ?g = 5" using short by simp
    then obtain v where v: "symbol_value (ALPHABET ! bits_val ?g) = Some v" "nbits 5 (unat v) = ?g"
      using symbol_value_bits_val by blast
    then have "map symbol_value (enc5 bs) = map Some [v] \<and> 5 - length bs < 5
        \<and> sym_bits [v] = bs @ replicate (5 - length bs) False"
      using short by (subst enc5.simps) (simp add: sym_bits_def)
    then show ?thesis by blast
  qed
qed

lemma enc5_sym_bits:
  "map symbol_value s = map Some vs \<Longrightarrow> z < 5 \<Longrightarrow> sym_bits vs = bs @ replicate z False \<Longrightarrow> enc5 bs = s"
proof (induction vs arbitrary: s bs)
  case Nil
  then show ?case by (subst enc5.simps) (simp add: sym_bits_def)
next
  case (Cons v vs)
  then obtain c s' where s: "s = c # s'" "symbol_value c = Some v" "map symbol_value s' = map Some vs"
    by auto
  have c: "ALPHABET ! bits_val (nbits 5 (unat v)) = c"
    using symbol_value_Some [OF s(2)] by simp
  have eq: "nbits 5 (unat v) @ sym_bits vs = bs @ replicate z False"
    using Cons.prems by (simp add: sym_bits_Cons)
  show ?case
  proof (cases "5 \<le> length bs")
    case True
    have t: "take 5 bs = nbits 5 (unat v)" using arg_cong [OF eq, of "take 5"] True by simp
    have "sym_bits vs = drop 5 bs @ replicate z False" using arg_cong [OF eq, of "drop 5"] True by simp
    then have "enc5 (drop 5 bs) = s'" using Cons.IH s Cons.prems(2) by blast
    with t c s True show ?thesis by (subst enc5.simps) simp
  next
    case False
    have "5 + 5 * length vs = length bs + z" using arg_cong [OF eq, of length] by simp
    with False Cons.prems(2) have n: "length vs = 0" "length bs \<noteq> 0" by linarith+
    with \<open>5 + 5 * length vs = length bs + z\<close> have "vs = []" "z = 5 - length bs" "bs \<noteq> []" by auto
    with eq c s False show ?thesis by (subst enc5.simps) (simp add: sym_bits_def)
  qed
qed

lemma pad_ok_bits:
  assumes "p \<le> 5"
  shows "pad_ok p v \<longleftrightarrow> drop (5 - p) (nbits 5 (unat v)) = replicate p False"
proof -
  have "v AND (push_bit p 1 - 1) = take_bit p v"
    by (simp add: take_bit_eq_mask mask_eq_exp_minus_1 push_bit_eq_mult)
  then have "pad_ok p v \<longleftrightarrow> unat (take_bit p v) = 0" by (simp add: pad_ok_def unsigned_eq_0_iff)
  also have "unat (take_bit p v) = unat v mod 2 ^ p"
    by (simp add: unsigned_take_bit_eq flip: take_bit_eq_mod)
  finally have "pad_ok p v \<longleftrightarrow> unat v mod 2 ^ p = 0" .
  also have "\<dots> \<longleftrightarrow> nbits p (unat v) = nbits p 0"
    by (metis bits_val_nbits mod_0 nbits_mod order_refl)
  also have "nbits p (unat v) = drop (5 - p) (nbits 5 (unat v))"
    using nbits_append [of "5 - p" p "unat v"] assms by simp
  finally show ?thesis by simp
qed

text \<open>The padding check on the last symbol is a check on the bits after the encoded bytes.\<close>

lemma pad_ok_sym_bits:
  assumes "p < 5" and "p \<le> 5 * length vs"
  shows "(vs \<noteq> [] \<longrightarrow> pad_ok p (last vs)) \<longleftrightarrow> drop (5 * length vs - p) (sym_bits vs) = replicate p False"
proof (cases vs rule: rev_cases)
  case Nil
  with assms show ?thesis by (simp add: sym_bits_def)
next
  case (snoc us v)
  with assms show ?thesis by (simp add: sym_bits_snoc pad_ok_bits)
qed

lemma decode_Some_iff: "decode N s = Some b \<longleftrightarrow> length b = N \<and> s = encode b"
proof
  assume "decode N s = Some b"
  then obtain vs where guard: "N * 8 \<le> length s * 5" "length s * 5 - N * 8 < 5"
    and vs: "map symbol_value s = map Some vs"
    and pad: "vs \<noteq> [] \<longrightarrow> pad_ok (length s * 5 - N * 8) (last vs)"
    and b: "b = dec8 (sym_bits vs)" "length b = N"
    by (auto simp: decode_def decode_loop_dec8 split: if_splits option.splits)
  have len: "length vs = length s" using arg_cong [OF vs, of length] by simp
  have div: "5 * length s div 8 = N" using guard by simp
  have "drop (8 * N) (sym_bits vs) = replicate (5 * length s - 8 * N) False"
    using pad guard pad_ok_sym_bits [of "5 * length s - 8 * N" vs] len
    by (simp add: mult.commute)
  moreover have "byte_bits b = take (8 * N) (sym_bits vs)"
    by (simp add: b byte_bits_dec8 len div)
  ultimately have "sym_bits vs = byte_bits b @ replicate (5 * length s - 8 * N) False"
    by (metis append_take_drop_id)
  with vs guard have "enc5 (byte_bits b) = s" by (intro enc5_sym_bits) auto
  with b show "length b = N \<and> s = encode b" by (simp add: encode_enc5)
next
  assume "length b = N \<and> s = encode b"
  then have N: "length b = N" and s: "s = enc5 (byte_bits b)" by (simp_all add: encode_enc5)
  obtain vs z where vs: "map symbol_value s = map Some vs" "z < 5" "sym_bits vs = byte_bits b @ replicate z False"
    using enc5_values [of "byte_bits b"] s by blast
  have len: "length vs = length s" using arg_cong [OF vs(1), of length] by simp
  have z: "5 * length s = 8 * N + z" using arg_cong [OF vs(3), of length] by (simp add: N len)
  have "vs \<noteq> [] \<longrightarrow> pad_ok z (last vs)"
    using pad_ok_sym_bits [of z vs] vs z by (simp add: N len)
  moreover have "b = dec8 (sym_bits vs)" using vs by (simp add: dec8_byte_bits)
  ultimately have "decode_loop (length s) z 0 s 0 0 [] = Some b"
    using vs by (subst decode_loop_dec8) auto
  then show "decode N s = Some b" using z vs(2) N by (simp add: decode_def mult.commute)
qed

lemma length_encode: "length (encode b) = (8 * length b + 4) div 5"
proof -
  obtain vs z where vs: "map symbol_value (enc5 (byte_bits b)) = map Some vs" "z < 5"
    "sym_bits vs = byte_bits b @ replicate z False"
    using enc5_values by blast
  have "5 * length (encode b) = 8 * length b + z"
    using arg_cong [OF vs(1), of length] arg_cong [OF vs(3), of length] by (simp add: encode_enc5)
  with vs(2) show ?thesis by simp
qed

lemma set_encode: "set (encode b) \<subseteq> set ALPHABET"
proof
  fix c
  obtain vs where vs: "map symbol_value (encode b) = map Some vs"
    using enc5_values [of "byte_bits b"] by (auto simp: encode_enc5)
  assume "c \<in> set (encode b)"
  then have "symbol_value c \<in> set (map Some vs)" unfolding vs [symmetric] by simp
  then obtain v where "symbol_value c = Some v" by auto
  then show "c \<in> set ALPHABET" using symbol_value_Some [of c v] by (simp add: nth_mem)
qed

section \<open>The two formats\<close>

text \<open>Letter case and the hyphen.\<close>

lemma upper_ALPHABET: "c \<in> set ALPHABET \<Longrightarrow> to_ascii_uppercase_char c = c"
proof -
  have "list_all (\<lambda>c. to_ascii_uppercase_char c = c) ALPHABET" by code_simp
  then show "c \<in> set ALPHABET \<Longrightarrow> to_ascii_uppercase_char c = c" by (simp add: list_all_iff)
qed

lemma upper_hyphen: "to_ascii_uppercase_char c = CHR ''-'' \<longleftrightarrow> c = CHR ''-''"
proof -
  have "of_char (CHR ''-'') = (45 :: nat)" by simp
  then show ?thesis
    by (auto simp: to_ascii_uppercase_char_def Let_def char_of_eq_iff take_bit_eq_mod)
qed

lemma upper_encode [simp]: "map to_ascii_uppercase_char (encode b) = encode b"
  using set_encode upper_ALPHABET by (intro map_idI) blast

lemma length_encode_pairing: "length b = 5 \<Longrightarrow> length (encode b) = 8"
  by (simp add: length_encode)

lemma split_hyphen:
  assumes "length e = 8"
  shows "length s = 9 \<and> s ! 4 = CHR ''-'' \<and> map f (take 4 s @ drop 5 s) = e \<longleftrightarrow>
         length s = 9 \<and> s ! 4 = CHR ''-'' \<and> map f s = take 4 e @ f (CHR ''-'') # drop 4 e"
proof (cases "length s = 9 \<and> s ! 4 = CHR ''-''")
  case True
  then have "s = take 4 s @ CHR ''-'' # drop 5 s" using id_take_nth_drop [of 4 s] by simp
  then have "map f s = map f (take 4 s @ CHR ''-'' # drop 5 s)" by (rule arg_cong)
  then have "map f s = map f (take 4 s) @ f (CHR ''-'') # map f (drop 5 s)" by simp
  moreover have "length (map f (take 4 s)) = length (take 4 e)" using True assms by simp
  then have "map f (take 4 s) @ map f (drop 5 s) = take 4 e @ drop 4 e \<longleftrightarrow>
      map f (take 4 s) @ f (CHR ''-'') # map f (drop 5 s) = take 4 e @ f (CHR ''-'') # drop 4 e"
    by (simp only: append_eq_append_conv list.inject simp_thms)
  ultimately show ?thesis using True by simp
qed auto

interpretation recovery_key: canonical_code encode_recovery_key parse_recovery_key "\<lambda>k. length k = 16"
proof unfold_locales
  fix b s
  show "length b = 16 \<Longrightarrow> parse_recovery_key (encode_recovery_key b) = Some b"
    by (simp add: parse_recovery_key_def encode_recovery_key_def RECOVERY_KEY_SYMBOLS_def
        RECOVERY_KEY_BYTES_def length_encode decode_Some_iff)
  show "parse_recovery_key s = Some b \<Longrightarrow> length b = 16"
    by (simp add: parse_recovery_key_def RECOVERY_KEY_BYTES_def decode_Some_iff split: if_splits)
  show "parse_recovery_key s = Some b \<Longrightarrow> encode_recovery_key b = s"
    by (simp add: parse_recovery_key_def encode_recovery_key_def decode_Some_iff split: if_splits)
qed

interpretation pairing_code: lenient_code encode_pairing_code parse_pairing_code "\<lambda>c. length c = 5"
proof unfold_locales
  fix b s
  show "length b = 5 \<Longrightarrow> parse_pairing_code (encode_pairing_code b) = Some b"
    by (simp add: parse_pairing_code_def encode_pairing_code_def PAIRING_CODE_BYTES_def
        length_encode_pairing decode_Some_iff)
  show "parse_pairing_code s = Some b \<Longrightarrow> length b = 5"
    by (simp add: parse_pairing_code_def PAIRING_CODE_BYTES_def decode_Some_iff split: if_splits)
qed

text \<open>Two of the test vectors of the source, evaluated on the model.\<close>

lemma encode_vectors:
  "encode [0x01, 0x23, 0x45, 0x67, 0x89] = ''04HMASW9''"
  "encode_recovery_key (map word_of_nat [0..<16]) = ''000G40R40M30E209185GR38E1W''"
  by code_simp+

section \<open>Properties\<close>

text \<open>C1: the accepted recovery keys are exactly the encodings of the 16-byte keys, so every key has
  one accepted text and every accepted text is one key.\<close>

theorem recovery_key_canonical:
  "parse_recovery_key s = Some k \<longleftrightarrow> length k = RECOVERY_KEY_BYTES \<and> s = encode_recovery_key k"
  using recovery_key.dec_Some_iff by (simp add: RECOVERY_KEY_BYTES_def)

text \<open>A pairing code is accepted in any letter case, plain or as \<^verbatim>\<open>XXXX-XXXX\<close>, and in no other
  form.\<close>

theorem pairing_code_forms:
  "parse_pairing_code s = Some c \<longleftrightarrow>
     length c = PAIRING_CODE_BYTES \<and>
     (to_ascii_uppercase s = encode_pairing_code c \<or>
      to_ascii_uppercase s = take 4 (encode_pairing_code c) @ ''-'' @ drop 4 (encode_pairing_code c))"
proof (cases "length c = 5")
  case False
  then show ?thesis
    using pairing_code.dec_valid by (auto simp: PAIRING_CODE_BYTES_def)
next
  case True
  let ?u = "map to_ascii_uppercase_char" and ?e = "encode c"
  have e: "length ?e = 8" using True by (rule length_encode_pairing)
  have up: "to_ascii_uppercase_char (CHR ''-'') = CHR ''-''" by (simp add: upper_hyphen)
  have "parse_pairing_code s = Some c \<longleftrightarrow>
      length s = 8 \<and> ?u s = ?e \<or> length s = 9 \<and> s ! 4 = CHR ''-'' \<and> ?u (take 4 s @ drop 5 s) = ?e"
    using True by (auto simp: parse_pairing_code_def PAIRING_CODE_BYTES_def decode_Some_iff)
  also have "\<dots> \<longleftrightarrow> ?u s = ?e \<or> length s = 9 \<and> s ! 4 = CHR ''-'' \<and> ?u s = take 4 ?e @ CHR ''-'' # drop 4 ?e"
    using e unfolding split_hyphen [OF e] up by (metis length_map)
  also have "length s = 9 \<and> s ! 4 = CHR ''-'' \<and> ?u s = take 4 ?e @ CHR ''-'' # drop 4 ?e \<longleftrightarrow>
      ?u s = take 4 ?e @ CHR ''-'' # drop 4 ?e"
  proof -
    have "length s = 9 \<and> s ! 4 = CHR ''-''" if "?u s = take 4 ?e @ CHR ''-'' # drop 4 ?e"
    proof -
      have l: "length s = 9" using arg_cong [OF that, of length] e by simp
      have "?u s ! 4 = CHR ''-''" using that e by (simp add: nth_append)
      then show ?thesis using l by (simp add: upper_hyphen)
    qed
    then show ?thesis by blast
  qed
  finally show ?thesis
    using True by (simp add: to_ascii_uppercase_def encode_pairing_code_def PAIRING_CODE_BYTES_def)
qed

end
