(* ===== verification/Fs.thy ===== *)
theory Fs
  imports SL_Prelude
begin

text \<open>
  The part of the operating system's file interface (\<^verbatim>\<open>std::fs\<close>) that the daemons use: a finite
  directory tree, calls that succeed or fail with an \<^verbatim>\<open>io::ErrorKind\<close>, and what a crash can leave on
  the disk.

  Every call consumes one step of a clock of calls and may fail at any step for a reason of its own
  (\<open>io_fault\<close>); such a failure has no effect except that a failed write may leave a prefix behind.
  Running an operation under an environment in which every call from step \<open>n\<close> on fails is therefore
  also a run that is cut off by a crash at step \<open>n\<close>.

  A crash exposes the current tree or any tree since the last \<^verbatim>\<open>fsync\<close> of the directory concerned, and a
  file whose contents were not synced may come back with any contents.  Symbolic links are never
  followed by a call here: the daemons create one link, \<^verbatim>\<open>tls/current\<close>, and only read its target.
\<close>

section \<open>Trees and calls\<close>

type_synonym path = "string list"

datatype io_error = NotFound | AlreadyExists | OtherIo

text \<open>A regular file carries its contents and whether they are synced.\<close>

datatype node = Dir | File string bool | Symlink string

type_synonym fs = "(path \<times> node) list"

record world =
  disk :: fs
  images :: "fs list"  \<comment> \<open>earlier trees that a crash may still expose\<close>
  tick :: nat

record io_env =
  io_fault :: "nat \<Rightarrow> bool"
  io_partial :: "nat \<Rightarrow> nat"  \<comment> \<open>how much a failing write leaves behind\<close>
  link_fault :: "nat \<Rightarrow> bool"  \<comment> \<open>failures of \<^verbatim>\<open>readlink\<close>, told apart because code treats them apart\<close>

text \<open>A missing entry is \<open>NotFound\<close> unless a component of its path is not a directory.\<close>

definition missing_error :: "fs \<Rightarrow> path \<Rightarrow> io_error" where
  "missing_error d p =
     (if list_ex (\<lambda>k. case map_of d (take k p) of None \<Rightarrow> False | Some n \<Rightarrow> n \<noteq> Dir) [1..<length p]
      then OtherIo else NotFound)"

definition stat :: "fs \<Rightarrow> path \<Rightarrow> io_error + node" where
  "stat d p =
     (if p = [] then Inr Dir
      else case map_of d p of None \<Rightarrow> Inl (missing_error d p) | Some n \<Rightarrow> Inr n)"

definition parent_check :: "fs \<Rightarrow> path \<Rightarrow> io_error + unit" where
  "parent_check d p =
     (case stat d (butlast p) of Inl e \<Rightarrow> Inl e | Inr n \<Rightarrow> if n = Dir then Inr () else Inl OtherIo)"

definition put_disk :: "fs \<Rightarrow> world \<Rightarrow> world" where
  "put_disk d w = w\<lparr>disk := d, images := disk w # images w\<rparr>"

definition sys :: "io_env \<Rightarrow> (world, io_error, 'a) op \<Rightarrow> (world, io_error, 'a) op" where
  "sys io m w =
     (let w' = w\<lparr>tick := tick w + 1\<rparr>
      in if io_fault io (tick w) then (Inl OtherIo, w') else m w')"

definition symlink_metadata :: "io_env \<Rightarrow> path \<Rightarrow> (world, io_error, node) op" where
  "symlink_metadata io p = sys io (\<lambda>w. (stat (disk w) p, w))"

definition read_file :: "io_env \<Rightarrow> path \<Rightarrow> (world, io_error, string) op" where
  "read_file io p = sys io (\<lambda>w.
     (case stat (disk w) p of Inl e \<Rightarrow> Inl e | Inr (File c _) \<Rightarrow> Inr c | Inr _ \<Rightarrow> Inl OtherIo, w))"

definition read_link :: "io_env \<Rightarrow> path \<Rightarrow> (world, io_error, string) op" where
  "read_link io p w =
     (let w' = w\<lparr>tick := tick w + 1\<rparr>
      in if link_fault io (tick w) then (Inl OtherIo, w')
         else (case stat (disk w) p of Inl e \<Rightarrow> Inl e | Inr (Symlink t) \<Rightarrow> Inr t | Inr _ \<Rightarrow> Inl OtherIo, w'))"

definition remove_file :: "io_env \<Rightarrow> path \<Rightarrow> (world, io_error, unit) op" where
  "remove_file io p = sys io (\<lambda>w.
     case stat (disk w) p of
       Inl e \<Rightarrow> (Inl e, w)
     | Inr Dir \<Rightarrow> (Inl OtherIo, w)
     | Inr _ \<Rightarrow> (Inr (), put_disk (AList.delete p (disk w)) w))"

text \<open>A new entry: \<^verbatim>\<open>create_new\<close> for a file, \<^verbatim>\<open>symlink\<close>, \<^verbatim>\<open>mkdir\<close>.\<close>

definition create_entry :: "io_env \<Rightarrow> path \<Rightarrow> node \<Rightarrow> (world, io_error, unit) op" where
  "create_entry io p n = sys io (\<lambda>w.
     case stat (disk w) p of
       Inr _ \<Rightarrow> (Inl AlreadyExists, w)
     | Inl _ \<Rightarrow>
         (case parent_check (disk w) p of
            Inl e \<Rightarrow> (Inl e, w)
          | Inr _ \<Rightarrow> (Inr (), put_disk (AList.update p n (disk w)) w)))"

definition write_all :: "io_env \<Rightarrow> path \<Rightarrow> string \<Rightarrow> (world, io_error, unit) op" where
  "write_all io p bytes w =
     (let w' = w\<lparr>tick := tick w + 1\<rparr>
      in if io_fault io (tick w)
         then (Inl OtherIo,
               put_disk (AList.update p (File (take (io_partial io (tick w)) bytes) False) (disk w)) w')
         else (Inr (), put_disk (AList.update p (File bytes False) (disk w)) w'))"

definition sync_file :: "io_env \<Rightarrow> path \<Rightarrow> (world, io_error, unit) op" where
  "sync_file io p = sys io (\<lambda>w.
     case stat (disk w) p of
       Inr (File c _) \<Rightarrow> (Inr (), put_disk (AList.update p (File c True) (disk w)) w)
     | Inr _ \<Rightarrow> (Inr (), w)
     | Inl e \<Rightarrow> (Inl e, w))"

definition rename :: "io_env \<Rightarrow> path \<Rightarrow> path \<Rightarrow> (world, io_error, unit) op" where
  "rename io a b = sys io (\<lambda>w.
     case stat (disk w) a of
       Inl e \<Rightarrow> (Inl e, w)
     | Inr n \<Rightarrow>
         (case parent_check (disk w) b of
            Inl e \<Rightarrow> (Inl e, w)
          | Inr _ \<Rightarrow>
              if stat (disk w) b = Inr Dir \<or> n = Dir then (Inl OtherIo, w)
              else (Inr (), put_disk (AList.update b n (AList.delete a (disk w))) w)))"

text \<open>Syncing a directory makes its own entries durable in every tree a crash may expose.\<close>

definition overlay :: "path \<Rightarrow> fs \<Rightarrow> fs \<Rightarrow> fs" where
  "overlay p cur img =
     filter (\<lambda>(q, _). q \<noteq> [] \<and> butlast q = p) cur @ filter (\<lambda>(q, _). \<not> (q \<noteq> [] \<and> butlast q = p)) img"

definition sync_dir :: "io_env \<Rightarrow> path \<Rightarrow> (world, io_error, unit) op" where
  "sync_dir io p = sys io (\<lambda>w.
     case stat (disk w) p of
       Inl e \<Rightarrow> (Inl e, w)
     | Inr n \<Rightarrow> if n = Dir then (Inr (), w\<lparr>images := map (overlay p (disk w)) (images w)\<rparr>)
                else (Inl OtherIo, w))"

text \<open>Permissions and ownership are not modelled: setting them only needs the entry.\<close>

definition set_attributes :: "io_env \<Rightarrow> path \<Rightarrow> (world, io_error, unit) op" where
  "set_attributes io p = sys io (\<lambda>w. (case stat (disk w) p of Inl e \<Rightarrow> Inl e | Inr _ \<Rightarrow> Inr (), w))"

text \<open>The names in a directory, in the order of the listing.\<close>

definition entries_of :: "fs \<Rightarrow> path \<Rightarrow> string list" where
  "entries_of d p = map last (filter (\<lambda>q. q \<noteq> [] \<and> butlast q = p) (map fst d))"

definition read_dir :: "io_env \<Rightarrow> path \<Rightarrow> (world, io_error, string list) op" where
  "read_dir io p = sys io (\<lambda>w.
     (case stat (disk w) p of
        Inl e \<Rightarrow> Inl e | Inr n \<Rightarrow> if n = Dir then Inr (entries_of (disk w) p) else Inl OtherIo, w))"

text \<open>\<^verbatim>\<open>remove_dir_all\<close>: one call per entry, entries before the directory that holds them; a failing call leaves
  the rest.\<close>

definition below :: "path \<Rightarrow> path \<Rightarrow> bool" where
  "below p q \<longleftrightarrow> take (length p) q = p"

definition unlink_any :: "io_env \<Rightarrow> path \<Rightarrow> (world, io_error, unit) op" where
  "unlink_any io p = sys io (\<lambda>w. (Inr (), put_disk (AList.delete p (disk w)) w))"

fun unlink_each :: "io_env \<Rightarrow> path list \<Rightarrow> (world, io_error, unit) op" where
  "unlink_each io [] = ok ()"
| "unlink_each io (p # ps) = and_then (unlink_any io p) (\<lambda>_. unlink_each io ps)"

definition remove_dir_all :: "io_env \<Rightarrow> path \<Rightarrow> (world, io_error, unit) op" where
  "remove_dir_all io p w =
     unlink_each io (rev (sort_key length (filter (below p) (map fst (disk w))))) w"

section \<open>Crashes\<close>

definition crash_node :: "node \<Rightarrow> node \<Rightarrow> bool" where
  "crash_node n n' \<longleftrightarrow> (case n of File c s \<Rightarrow> if s then n' = n else (\<exists>c' s'. n' = File c' s') | _ \<Rightarrow> n' = n)"

definition crash_image :: "fs \<Rightarrow> fs \<Rightarrow> bool" where
  "crash_image img d \<longleftrightarrow> (\<forall>p. rel_option crash_node (map_of img p) (map_of d p))"

text \<open>\<open>survives w d\<close>: after a crash in \<open>w\<close> the disk may be \<open>d\<close>.\<close>

definition survives :: "world \<Rightarrow> fs \<Rightarrow> bool" where
  "survives w d \<longleftrightarrow> (\<exists>img \<in> set (disk w # images w). crash_image img d)"

text \<open>Every tree that a crash can expose satisfies \<open>P\<close>.\<close>

definition all_images :: "(fs \<Rightarrow> bool) \<Rightarrow> world \<Rightarrow> bool" where
  "all_images P w \<longleftrightarrow> (\<forall>img \<in> set (disk w # images w). P img)"

section \<open>Facts about the calls\<close>

lemma map_of_overlay:
  "map_of (overlay p cur img) q = (if q \<noteq> [] \<and> butlast q = p then map_of cur q else map_of img q)"
proof -
  have keep: "map_of (filter (\<lambda>(q, _). P q) al) q = (if P q then map_of al q else None)" for P and al :: fs
    by (induction al) auto
  show ?thesis
    using keep [of "\<lambda>q. q \<noteq> [] \<and> butlast q = p" cur] keep [of "\<lambda>q. q = [] \<or> butlast q \<noteq> p" img]
    by (auto simp: overlay_def map_add_def split: option.splits)
qed

lemma disk_put_disk [simp]: "disk (put_disk d w) = d" "images (put_disk d w) = disk w # images w"
  "tick (put_disk d w) = tick w"
  by (simp_all add: put_disk_def)

lemma wp_sys [wp_simps]:
  "wp (sys io m) Q E w =
     (if io_fault io (tick w) then E OtherIo (w\<lparr>tick := tick w + 1\<rparr>)
      else wp m Q E (w\<lparr>tick := tick w + 1\<rparr>))"
  by (simp add: wp_def sys_def Let_def)

lemma stat_Inr: "p \<noteq> [] \<Longrightarrow> stat d p = Inr n \<longleftrightarrow> map_of d p = Some n"
  by (simp add: stat_def split: option.splits)

lemma stat_update [simp]: "p \<noteq> [] \<Longrightarrow> stat (AList.update p n d) p = Inr n"
  by (simp add: stat_def)

lemma stat_Inl: "p \<noteq> [] \<Longrightarrow> (\<exists>e. stat d p = Inl e) \<longleftrightarrow> map_of d p = None"
  by (simp add: stat_def split: option.splits)

lemma stat_Inl_None: "p \<noteq> [] \<Longrightarrow> stat d p = Inl e \<Longrightarrow> map_of d p = None"
  by (simp add: stat_def split: option.splits)

lemma all_images_put_disk [simp]: "all_images P (put_disk d w) \<longleftrightarrow> P d \<and> all_images P w"
  by (auto simp: all_images_def)

lemma all_images_tick [simp]: "all_images P (w\<lparr>tick := t\<rparr>) \<longleftrightarrow> all_images P w"
  by (simp add: all_images_def)

lemma all_images_disk: "all_images P w \<Longrightarrow> P (disk w)"
  by (simp add: all_images_def)

lemma survives_all_images: "all_images P w \<Longrightarrow> survives w d \<Longrightarrow> \<exists>img. P img \<and> crash_image img d"
  by (auto simp: survives_def all_images_def)

lemma crash_image_synced:
  "crash_image img d \<Longrightarrow> map_of img p = Some (File c True) \<Longrightarrow> map_of d p = Some (File c True)"
  unfolding crash_image_def by (drule spec [of _ p]) (auto simp: option_rel_Some1 crash_node_def)

lemma crash_image_None: "crash_image img d \<Longrightarrow> map_of img p = None \<Longrightarrow> map_of d p = None"
  unfolding crash_image_def by (drule spec [of _ p]) auto

lemma crash_image_Dir: "crash_image img d \<Longrightarrow> map_of img p = Some Dir \<Longrightarrow> map_of d p = Some Dir"
  unfolding crash_image_def by (drule spec [of _ p]) (auto simp: option_rel_Some1 crash_node_def)

text \<open>Weakest preconditions of the calls, by what the tree holds at the path.\<close>

lemma wp_read_file [wp_simps]:
  "wp (read_file io p) Q E w =
     (let w' = w\<lparr>tick := tick w + 1\<rparr>
      in if io_fault io (tick w) then E OtherIo w'
         else case stat (disk w) p of Inl e \<Rightarrow> E e w' | Inr (File c _) \<Rightarrow> Q c w' | Inr _ \<Rightarrow> E OtherIo w')"
  by (simp add: wp_def read_file_def sys_def Let_def split: sum.splits node.splits)

lemma wp_read_link [wp_simps]:
  "wp (read_link io p) Q E w =
     (let w' = w\<lparr>tick := tick w + 1\<rparr>
      in if link_fault io (tick w) then E OtherIo w'
         else case stat (disk w) p of Inl e \<Rightarrow> E e w' | Inr (Symlink t) \<Rightarrow> Q t w' | Inr _ \<Rightarrow> E OtherIo w')"
  by (simp add: wp_def read_link_def Let_def split: sum.splits node.splits)

lemma wp_symlink_metadata [wp_simps]:
  "wp (symlink_metadata io p) Q E w =
     (let w' = w\<lparr>tick := tick w + 1\<rparr>
      in if io_fault io (tick w) then E OtherIo w'
         else case stat (disk w) p of Inl e \<Rightarrow> E e w' | Inr n \<Rightarrow> Q n w')"
  by (simp add: wp_def symlink_metadata_def sys_def Let_def split: sum.splits)

lemma wp_set_attributes [wp_simps]:
  "wp (set_attributes io p) Q E w =
     (let w' = w\<lparr>tick := tick w + 1\<rparr>
      in if io_fault io (tick w) then E OtherIo w'
         else case stat (disk w) p of Inl e \<Rightarrow> E e w' | Inr n \<Rightarrow> Q () w')"
  by (simp add: wp_def set_attributes_def sys_def Let_def split: sum.splits)

lemma wp_read_dir [wp_simps]:
  "wp (read_dir io p) Q E w =
     (let w' = w\<lparr>tick := tick w + 1\<rparr>
      in if io_fault io (tick w) then E OtherIo w'
         else case stat (disk w) p of
           Inl e \<Rightarrow> E e w' | Inr n \<Rightarrow> if n = Dir then Q (entries_of (disk w) p) w' else E OtherIo w')"
  by (simp add: wp_def read_dir_def sys_def Let_def split: sum.splits)

lemma wp_remove_file [wp_simps]:
  "wp (remove_file io p) Q E w =
     (let w' = w\<lparr>tick := tick w + 1\<rparr>
      in if io_fault io (tick w) then E OtherIo w'
         else case stat (disk w) p of
           Inl e \<Rightarrow> E e w'
         | Inr n \<Rightarrow> if n = Dir then E OtherIo w' else Q () (put_disk (AList.delete p (disk w)) w'))"
  by (simp add: wp_def remove_file_def sys_def Let_def split: sum.splits node.splits)

lemma wp_create_entry [wp_simps]:
  "wp (create_entry io p n) Q E w =
     (let w' = w\<lparr>tick := tick w + 1\<rparr>
      in if io_fault io (tick w) then E OtherIo w'
         else case stat (disk w) p of
           Inr _ \<Rightarrow> E AlreadyExists w'
         | Inl _ \<Rightarrow> (case parent_check (disk w) p of
               Inl e \<Rightarrow> E e w' | Inr _ \<Rightarrow> Q () (put_disk (AList.update p n (disk w)) w')))"
  by (simp add: wp_def create_entry_def sys_def Let_def split: sum.splits)

lemma wp_write_all [wp_simps]:
  "wp (write_all io p bytes) Q E w =
     (let w' = w\<lparr>tick := tick w + 1\<rparr>
      in if io_fault io (tick w)
         then E OtherIo (put_disk (AList.update p (File (take (io_partial io (tick w)) bytes) False) (disk w)) w')
         else Q () (put_disk (AList.update p (File bytes False) (disk w)) w'))"
  by (simp add: wp_def write_all_def Let_def)

lemma wp_sync_file [wp_simps]:
  "wp (sync_file io p) Q E w =
     (let w' = w\<lparr>tick := tick w + 1\<rparr>
      in if io_fault io (tick w) then E OtherIo w'
         else case stat (disk w) p of
           Inl e \<Rightarrow> E e w'
         | Inr (File c _) \<Rightarrow> Q () (put_disk (AList.update p (File c True) (disk w)) w')
         | Inr _ \<Rightarrow> Q () w')"
  by (simp add: wp_def sync_file_def sys_def Let_def split: sum.splits node.splits)

lemma wp_rename [wp_simps]:
  "wp (rename io a b) Q E w =
     (let w' = w\<lparr>tick := tick w + 1\<rparr>
      in if io_fault io (tick w) then E OtherIo w'
         else case stat (disk w) a of
           Inl e \<Rightarrow> E e w'
         | Inr n \<Rightarrow> (case parent_check (disk w) b of
               Inl e \<Rightarrow> E e w'
             | Inr _ \<Rightarrow>
                 if stat (disk w) b = Inr Dir \<or> n = Dir then E OtherIo w'
                 else Q () (put_disk (AList.update b n (AList.delete a (disk w))) w')))"
  by (auto simp: wp_def rename_def sys_def Let_def split: sum.splits)

lemma wp_sync_dir [wp_simps]:
  "wp (sync_dir io p) Q E w =
     (let w' = w\<lparr>tick := tick w + 1\<rparr>
      in if io_fault io (tick w) then E OtherIo w'
         else case stat (disk w) p of
           Inl e \<Rightarrow> E e w'
         | Inr n \<Rightarrow> if n = Dir then Q () (w'\<lparr>images := map (overlay p (disk w)) (images w)\<rparr>) else E OtherIo w')"
  by (simp add: wp_def sync_dir_def sys_def Let_def split: sum.splits)

end
