(* ===== verification/Hash.thy ===== *)
theory Hash
  imports SL_Prelude
begin

text \<open>
  Password hashing of sl-authd (\<^verbatim>\<open>src/authd/src/hash.rs\<close>).  The Argon2 implementation and the PHC
  string parser are crates; they are the fields of \<open>argon2_env\<close>.  What is translated is how the daemon
  calls them: which stored hashes it accepts, and how their errors become results.
\<close>

definition SALT_BYTES :: nat where "SALT_BYTES = 16"
definition OUTPUT_BYTES :: nat where "OUTPUT_BYTES = 32"
definition MEMORY_KIB :: u32 where "MEMORY_KIB = 65536"
definition ITERATIONS :: u32 where "ITERATIONS = 3"
definition PARALLELISM :: u32 where "PARALLELISM = 1"

text \<open>What \<^verbatim>\<open>PasswordHash::new\<close> and the accessors on its result report of a PHC string.\<close>

record phc =
  algorithm :: string
  phc_version :: "u32 option"
  hash_len :: "nat option"      \<comment> \<open>the length of the output, if there is one\<close>
  salt_len :: "nat option"      \<comment> \<open>the length of the decoded salt, if it is there and decodes into 64 bytes\<close>
  params_ok :: bool             \<comment> \<open>\<^verbatim>\<open>Params::try_from\<close> succeeds\<close>

record argon2_params =
  memory_kib :: u32
  iterations :: u32
  parallelism :: u32
  output_len :: nat

datatype verify_outcome = VerifyOk | VerifyWrongPassword | VerifyError

record argon2_env =
  phc_new :: "string \<Rightarrow> phc option"
  argon2_hash :: "argon2_params \<Rightarrow> string \<Rightarrow> u8 list \<Rightarrow> string option"
  argon2_verify :: "argon2_params \<Rightarrow> string \<Rightarrow> string \<Rightarrow> verify_outcome"

definition with_cost :: "u32 \<Rightarrow> u32 \<Rightarrow> u32 \<Rightarrow> argon2_params" where
  "with_cost m t p = \<lparr>memory_kib = m, iterations = t, parallelism = p, output_len = OUTPUT_BYTES\<rparr>"

definition production :: argon2_params where
  "production = with_cost MEMORY_KIB ITERATIONS PARALLELISM"

definition is_valid_phc :: "argon2_env \<Rightarrow> string \<Rightarrow> bool" where
  "is_valid_phc a s =
     (case phc_new a s of
        None \<Rightarrow> False
      | Some parsed \<Rightarrow>
          algorithm parsed = ''argon2id''
          \<and> phc_version parsed = Some 19
          \<and> (case hash_len parsed of None \<Rightarrow> False | Some n \<Rightarrow> n = OUTPUT_BYTES)
          \<and> salt_len parsed = Some SALT_BYTES
          \<and> params_ok parsed)"

text \<open>\<^verbatim>\<open>Argon2id::hash\<close> and \<^verbatim>\<open>Argon2id::verify\<close>; \<open>None\<close> is \<^verbatim>\<open>HashFailed\<close>.\<close>

definition hasher_hash :: "argon2_env \<Rightarrow> argon2_params \<Rightarrow> string \<Rightarrow> u8 list \<Rightarrow> string option" where
  "hasher_hash a params secret salt = argon2_hash a params secret salt"

definition hasher_verify :: "argon2_env \<Rightarrow> argon2_params \<Rightarrow> string \<Rightarrow> string \<Rightarrow> bool option" where
  "hasher_verify a params secret phc =
     (if \<not> is_valid_phc a phc then None
      else case phc_new a phc of
        None \<Rightarrow> None
      | Some _ \<Rightarrow>
          (case argon2_verify a params secret phc of
             VerifyOk \<Rightarrow> Some True
           | VerifyWrongPassword \<Rightarrow> Some False
           | VerifyError \<Rightarrow> None))"

text \<open>What the daemon relies on of the crate: a computed hash is a PHC string of the accepted shape
  that verifies exactly the secret it was computed from (no collisions).\<close>

definition argon2_correct :: "argon2_env \<Rightarrow> argon2_params \<Rightarrow> bool" where
  "argon2_correct a params \<longleftrightarrow>
     (\<forall>secret salt h. length salt = SALT_BYTES \<longrightarrow> argon2_hash a params secret salt = Some h \<longrightarrow>
        is_valid_phc a h \<and>
        (\<forall>secret'. argon2_verify a params secret' h =
           (if secret' = secret then VerifyOk else VerifyWrongPassword)))"

lemma hasher_verify_valid: "hasher_verify a params secret phc = Some b \<Longrightarrow> is_valid_phc a phc"
  by (simp add: hasher_verify_def split: if_splits)

lemma hasher_verify_invalid: "\<not> is_valid_phc a phc \<Longrightarrow> hasher_verify a params secret phc = None"
  by (simp add: hasher_verify_def)

lemma hasher_hash_verify:
  assumes "argon2_correct a params" "length salt = SALT_BYTES" "hasher_hash a params secret salt = Some h"
  shows "is_valid_phc a h" and "hasher_verify a params secret' h = Some (secret' = secret)"
proof -
  have valid: "is_valid_phc a h"
    and out: "argon2_verify a params secret' h = (if secret' = secret then VerifyOk else VerifyWrongPassword)"
    using assms by (auto simp: argon2_correct_def hasher_hash_def)
  from valid obtain parsed where "phc_new a h = Some parsed"
    by (auto simp: is_valid_phc_def split: option.splits)
  then show "hasher_verify a params secret' h = Some (secret' = secret)"
    using valid out by (auto simp: hasher_verify_def)
  show "is_valid_phc a h" by (rule valid)
qed

end
