(* ===== verification/Store.thy ===== *)
theory Store
  imports Fs Hash
begin

text \<open>
  The durable state file of sl-authd (\<^verbatim>\<open>src/authd/src/store.rs\<close>): loading with its validation, and the
  write protocol temporary file, \<^verbatim>\<open>fsync\<close>, rename, \<^verbatim>\<open>fsync\<close> of the directory.  JSON is a crate: its two
  functions are parameters, with the round trip \<open>json_ok\<close> as the hypothesis where a proof needs it.
  The fault hook of the source (\<^verbatim>\<open>Step\<close>, used by its tests) is subsumed by the failing calls of \<open>Fs\<close>.
  The interface \<open>durable_store\<close> states what the state machine relies on: which state a crash can
  expose after each outcome of a write.
\<close>

section \<open>Definitions\<close>

definition STATE_FILE :: string where "STATE_FILE = ''state.json''"
definition TEMP_FILE :: string where "TEMP_FILE = ''state.json.tmp''"
definition FORMAT_VERSION :: u32 where "FORMAT_VERSION = 1"

datatype persisted =
    Unenrolled
  | EnrolledUnconfirmed string string u64  \<comment> \<open>password hash, recovery key hash, confirmation deadline\<close>
  | Enrolled string string                 \<comment> \<open>password hash, recovery key hash\<close>

record state_file =
  version :: u32
  state :: string
  password_hash :: "string option"
  recovery_key_hash :: "string option"
  confirmation_deadline :: "u64 option"

datatype load_error = Unreadable | Invalid

datatype write_failed = WriteFailed (after_rename: bool)

record store_env =
  io :: io_env
  directory :: path
  json_to_vec :: "state_file \<Rightarrow> string option"
  json_from_slice :: "string \<Rightarrow> state_file option"
  argon2 :: argon2_env

definition state_path :: "store_env \<Rightarrow> path" where
  "state_path env = directory env @ [STATE_FILE]"

definition temp_path :: "store_env \<Rightarrow> path" where
  "temp_path env = directory env @ [TEMP_FILE]"

text \<open>Removes a temporary file left by an interrupted write; a missing one is fine.\<close>

definition remove_stale_temporary :: "store_env \<Rightarrow> (world, io_error, unit) op" where
  "remove_stale_temporary env =
     and_then (attempt (remove_file (io env) (temp_path env)))
       (\<lambda>r. case r of
          Inl error \<Rightarrow> if error \<noteq> NotFound then err error else ok ()
        | Inr _ \<Rightarrow> ok ())"

definition valid_hash :: "store_env \<Rightarrow> string option \<Rightarrow> bool" where
  "valid_hash env h = (case h of None \<Rightarrow> False | Some s \<Rightarrow> is_valid_phc (argon2 env) s)"

text \<open>The validation of the loaded bytes: the version, then the match on the state and its fields.\<close>

definition parse_state :: "store_env \<Rightarrow> string \<Rightarrow> load_error + persisted" where
  "parse_state env bytes =
     (case json_from_slice env bytes of
        None \<Rightarrow> Inl Invalid
      | Some file \<Rightarrow>
          if version file \<noteq> FORMAT_VERSION then Inl Invalid
          else if state file = ''unenrolled'' \<and> password_hash file = None
               \<and> recovery_key_hash file = None \<and> confirmation_deadline file = None
          then Inr Unenrolled
          else
            case confirmation_deadline file of
              Some deadline \<Rightarrow>
                if state file = ''enrolled_unconfirmed'' \<and> valid_hash env (password_hash file)
                   \<and> valid_hash env (recovery_key_hash file)
                then Inr (EnrolledUnconfirmed (the (password_hash file)) (the (recovery_key_hash file)) deadline)
                else Inl Invalid
            | None \<Rightarrow>
                if state file = ''enrolled'' \<and> valid_hash env (password_hash file)
                   \<and> valid_hash env (recovery_key_hash file)
                then Inr (Enrolled (the (password_hash file)) (the (recovery_key_hash file)))
                else Inl Invalid)"

definition load :: "store_env \<Rightarrow> (world, load_error, persisted) op" where
  "load env =
     and_then (attempt (read_file (io env) (state_path env)))
       (\<lambda>r. case r of
          Inl error \<Rightarrow> if error = NotFound then ok Unenrolled else err Unreadable
        | Inr bytes \<Rightarrow> lift_res (parse_state env bytes))"

fun to_state_file :: "persisted \<Rightarrow> state_file" where
  "to_state_file Unenrolled =
     \<lparr>version = FORMAT_VERSION, state = ''unenrolled'', password_hash = None,
      recovery_key_hash = None, confirmation_deadline = None\<rparr>"
| "to_state_file (EnrolledUnconfirmed p k d) =
     \<lparr>version = FORMAT_VERSION, state = ''enrolled_unconfirmed'', password_hash = Some p,
      recovery_key_hash = Some k, confirmation_deadline = Some d\<rparr>"
| "to_state_file (Enrolled p k) =
     \<lparr>version = FORMAT_VERSION, state = ''enrolled'', password_hash = Some p,
      recovery_key_hash = Some k, confirmation_deadline = None\<rparr>"

definition write_temporary :: "store_env \<Rightarrow> string \<Rightarrow> (world, io_error, unit) op" where
  "write_temporary env bytes =
     and_then (create_entry (io env) (temp_path env) (File [] False)) (\<lambda>_.
     and_then (write_all (io env) (temp_path env) bytes) (\<lambda>_.
     sync_file (io env) (temp_path env)))"

definition discard_temporary :: "store_env \<Rightarrow> (world, write_failed, unit) op" where
  "discard_temporary env =
     and_then (attempt (remove_file (io env) (temp_path env))) (\<lambda>_. err (WriteFailed False))"

definition store_write :: "store_env \<Rightarrow> persisted \<Rightarrow> (world, write_failed, unit) op" where
  "store_write env st =
     (case json_to_vec env (to_state_file st) of
        None \<Rightarrow> err (WriteFailed False)
      | Some bytes \<Rightarrow>
          and_then (attempt (write_temporary env bytes)) (\<lambda>r. case r of
            Inl _ \<Rightarrow> discard_temporary env
          | Inr _ \<Rightarrow>
              and_then (attempt (rename (io env) (temp_path env) (state_path env))) (\<lambda>r. case r of
                Inl _ \<Rightarrow> discard_temporary env
              | Inr _ \<Rightarrow> map_err (\<lambda>_. WriteFailed True) (sync_dir (io env) (directory env)))))"

section \<open>What the disk holds\<close>

definition json_ok :: "store_env \<Rightarrow> bool" where
  "json_ok env \<longleftrightarrow> (\<forall>f b. json_to_vec env f = Some b \<longrightarrow> json_from_slice env b = Some f)"

text \<open>The states that \<open>load\<close> accepts back: their hashes are valid.\<close>

fun storable :: "store_env \<Rightarrow> persisted \<Rightarrow> bool" where
  "storable env Unenrolled = True"
| "storable env (EnrolledUnconfirmed p k d) = (is_valid_phc (argon2 env) p \<and> is_valid_phc (argon2 env) k)"
| "storable env (Enrolled p k) = (is_valid_phc (argon2 env) p \<and> is_valid_phc (argon2 env) k)"

text \<open>The state directory is there, in a tree.\<close>

definition dir_ok :: "store_env \<Rightarrow> fs \<Rightarrow> bool" where
  "dir_ok env d \<longleftrightarrow> list_all (\<lambda>k. map_of d (take k (directory env)) = Some Dir) [1..<Suc (length (directory env))]"

text \<open>In every tree that a crash can expose, the entry of the state file is one of \<open>S\<close>.\<close>

definition entry_in :: "store_env \<Rightarrow> node option set \<Rightarrow> world \<Rightarrow> bool" where
  "entry_in env S = all_images (\<lambda>img. dir_ok env img \<and> map_of img (state_path env) \<in> S)"

definition entry_holds :: "store_env \<Rightarrow> persisted \<Rightarrow> node option set" where
  "entry_holds env st =
     (if st = Unenrolled then {None} else {}) \<union> {Some (File c True) | c. parse_state env c = Inr st}"

text \<open>\<open>holds env S w\<close>: whatever a crash exposes is the durable form of a state in \<open>S\<close>.\<close>

definition holds :: "store_env \<Rightarrow> persisted set \<Rightarrow> world \<Rightarrow> bool" where
  "holds env S w \<longleftrightarrow> entry_in env (\<Union>st \<in> S. entry_holds env st) w"

text \<open>The state directory is usable, whatever the state file contains, and its contents are synced.\<close>

definition synced_entries :: "node option set" where
  "synced_entries = {e. \<forall>c. e \<noteq> Some (File c False)}"

definition ready :: "store_env \<Rightarrow> world \<Rightarrow> bool" where
  "ready env w \<longleftrightarrow> entry_in env synced_entries w"

section \<open>Interface\<close>

text \<open>A store whose writes are all-or-nothing under crashes, and which reports truthfully whether a
  failed write may already be visible.\<close>

locale durable_store =
  fixes put :: "'st \<Rightarrow> ('w, write_failed, unit) op"
    and holds_in :: "'st set \<Rightarrow> 'w \<Rightarrow> bool"
    and usable :: "'w \<Rightarrow> bool"
    and accepts :: "'st \<Rightarrow> bool"
  assumes put_atomic: "accepts st \<Longrightarrow> holds_in S w \<Longrightarrow>
      wp (put st) (\<lambda>_. holds_in {st})
        (\<lambda>e. if after_rename e then holds_in (insert st S) else holds_in S) w"
    and put_usable: "accepts st \<Longrightarrow> usable w \<Longrightarrow> wp (put st) (\<lambda>_. holds_in {st}) (\<lambda>_. usable) w"
    and holds_usable: "holds_in S w \<Longrightarrow> usable w"
    and holds_mono: "holds_in S w \<Longrightarrow> S \<subseteq> T \<Longrightarrow> holds_in T w"
begin

lemma put_old_or_new: "accepts st \<Longrightarrow> holds_in S w \<Longrightarrow> holds_in (insert st S) (snd (put st w))"
  unfolding wp_post [symmetric]
  by (rule wp_weaken [OF put_atomic]) (auto intro: holds_mono split: if_splits)

lemma put_usable_after: "accepts st \<Longrightarrow> usable w \<Longrightarrow> usable (snd (put st w))"
  unfolding wp_post [symmetric]
  by (rule wp_weaken [OF put_usable]) (auto intro: holds_usable)

end

section \<open>Paths and trees\<close>

lemma state_path_simps [simp]:
  "state_path env \<noteq> []" "temp_path env \<noteq> []" "state_path env \<noteq> temp_path env" "temp_path env \<noteq> state_path env"
  "butlast (state_path env) = directory env" "butlast (temp_path env) = directory env"
  by (simp_all add: state_path_def temp_path_def STATE_FILE_def TEMP_FILE_def)

lemma dir_ok_stat: "dir_ok env d \<Longrightarrow> stat d (directory env) = Inr Dir"
proof (cases "directory env = []")
  case False
  assume "dir_ok env d"
  then have "map_of d (take (length (directory env)) (directory env)) = Some Dir"
    using False unfolding dir_ok_def list_all_iff
    by (metis Suc_leI atLeastLessThan_iff length_greater_0_conv lessI set_upt One_nat_def)
  with False show ?thesis by (simp add: stat_Inr)
qed (simp add: stat_def)

lemma parent_check_ok: "dir_ok env d \<Longrightarrow> butlast p = directory env \<Longrightarrow> parent_check d p = Inr ()"
  by (simp add: parent_check_def dir_ok_stat)

lemma take_dir_ne: "butlast p = directory env \<Longrightarrow> p \<noteq> [] \<Longrightarrow> take k (directory env) \<noteq> p"
proof
  assume p: "butlast p = directory env" "p \<noteq> []" and eq: "take k (directory env) = p"
  have "length p = Suc (length (directory env))" using p by (metis append_butlast_last_id length_append_singleton)
  moreover have "length p \<le> length (directory env)" using eq by (metis length_take min.cobounded1)
  ultimately show False by simp
qed

lemma dir_ok_upd [simp]:
  "dir_ok env (AList.update (state_path env) n d) = dir_ok env d"
  "dir_ok env (AList.update (temp_path env) n d) = dir_ok env d"
  "dir_ok env (AList.delete (temp_path env) d) = dir_ok env d"
  by (simp_all add: dir_ok_def take_dir_ne)

lemma dir_ok_overlay [simp]: "dir_ok env (overlay (directory env) d img) = dir_ok env img"
proof -
  have "butlast (take k (directory env)) \<noteq> directory env" if "take k (directory env) \<noteq> []" for k
  proof -
    have "length (butlast (take k (directory env))) < length (directory env)"
      using that by (cases "directory env") auto
    then show ?thesis by (metis less_irrefl)
  qed
  then have "map_of (overlay (directory env) d img) (take k (directory env)) = map_of img (take k (directory env))" for k
    by (auto simp: map_of_overlay)
  then show ?thesis by (simp add: dir_ok_def)
qed

section \<open>The write protocol\<close>

lemma entry_in_put_disk [simp]:
  "entry_in env S (put_disk d w) \<longleftrightarrow> dir_ok env d \<and> map_of d (state_path env) \<in> S \<and> entry_in env S w"
  by (auto simp: entry_in_def)

lemma entry_in_tick [simp]: "entry_in env S (w\<lparr>tick := t\<rparr>) \<longleftrightarrow> entry_in env S w"
  by (simp add: entry_in_def)

lemma entry_in_disk:
  assumes "entry_in env S w"
  shows "dir_ok env (disk w)" "map_of (disk w) (state_path env) \<in> S"
  using assms by (auto simp: entry_in_def dest!: all_images_disk)

lemma entry_in_mono: "entry_in env S w \<Longrightarrow> S \<subseteq> T \<Longrightarrow> entry_in env T w"
  by (auto simp: entry_in_def all_images_def)

lemma wp_write_temporary:
  assumes "entry_in env S w"
  shows "wp (write_temporary env bytes)
           (\<lambda>_ w'. entry_in env S w' \<and> map_of (disk w') (temp_path env) = Some (File bytes True))
           (\<lambda>_. entry_in env S) w"
  using assms entry_in_disk [OF assms]
  by (auto simp: write_temporary_def wp_simps Let_def parent_check_ok stat_def split: sum.splits option.splits)

lemma wp_discard_temporary:
  assumes "entry_in env S w"
  shows "wp (discard_temporary env) Q (\<lambda>e w'. e = WriteFailed False \<and> entry_in env S w') w"
  using assms entry_in_disk [OF assms]
  by (auto simp: discard_temporary_def wp_simps Let_def split: sum.splits)

lemma entry_in_sync_dir:
  assumes "entry_in env S w" and "map_of (disk w) (state_path env) = e"
  shows "entry_in env {e} (w\<lparr>images := map (overlay (directory env) (disk w)) (images w)\<rparr>)"
  using assms by (auto simp: entry_in_def all_images_def map_of_overlay)

lemma wp_rename_temporary:
  assumes "entry_in env S w" and "map_of (disk w) (temp_path env) = Some (File bytes True)"
  shows "wp (rename (io env) (temp_path env) (state_path env))
           (\<lambda>_ w'. entry_in env (insert (Some (File bytes True)) S) w'
               \<and> map_of (disk w') (state_path env) = Some (File bytes True))
           (\<lambda>_. entry_in env S) w"
proof -
  have "entry_in env (insert (Some (File bytes True)) S) w"
    using assms(1) by (rule entry_in_mono) blast
  then show ?thesis
    using assms entry_in_disk [OF assms(1)]
    by (auto simp: wp_simps Let_def stat_Inr parent_check_ok split: sum.splits)
qed

lemma wp_store_write:
  assumes entry: "entry_in env S w" and bytes: "json_to_vec env (to_state_file st) = Some bytes"
  shows "wp (store_write env st)
           (\<lambda>_. entry_in env {Some (File bytes True)})
           (\<lambda>e. if after_rename e then entry_in env (insert (Some (File bytes True)) S) else entry_in env S) w"
proof -
  let ?E = "\<lambda>e. if after_rename e then entry_in env (insert (Some (File bytes True)) S) else entry_in env S"
  have discard: "wp (discard_temporary env) Q ?E w'" if "entry_in env S w'" for Q w'
    by (rule wp_weaken [OF wp_discard_temporary [OF that, of Q]]) auto
  have sync: "wp (sync_dir (io env) (directory env)) (\<lambda>_. entry_in env {Some (File bytes True)})
      (\<lambda>_. entry_in env (insert (Some (File bytes True)) S)) w'"
    if "entry_in env (insert (Some (File bytes True)) S) w'" "map_of (disk w') (state_path env) = Some (File bytes True)" for w'
    using that entry_in_disk [OF that(1)] entry_in_sync_dir [OF that] by (auto simp: wp_simps Let_def dir_ok_stat entry_in_def all_images_def)
  have rename: "wp (rename (io env) (temp_path env) (state_path env))
      (\<lambda>_. wp (sync_dir (io env) (directory env)) (\<lambda>_. entry_in env {Some (File bytes True)}) (\<lambda>_. entry_in env (insert (Some (File bytes True)) S)))
      (\<lambda>_. wp (discard_temporary env) (\<lambda>_. entry_in env {Some (File bytes True)}) ?E) w'"
    if "entry_in env S w'" "map_of (disk w') (temp_path env) = Some (File bytes True)" for w'
    by (rule wp_weaken [OF wp_rename_temporary [OF that]]) (auto intro: sync discard)
  have "wp (write_temporary env bytes)
      (\<lambda>_. wp (rename (io env) (temp_path env) (state_path env))
        (\<lambda>_. wp (sync_dir (io env) (directory env)) (\<lambda>_. entry_in env {Some (File bytes True)}) (\<lambda>_. entry_in env (insert (Some (File bytes True)) S)))
        (\<lambda>_. wp (discard_temporary env) (\<lambda>_. entry_in env {Some (File bytes True)}) ?E))
      (\<lambda>_. wp (discard_temporary env) (\<lambda>_. entry_in env {Some (File bytes True)}) ?E) w"
    by (rule wp_weaken [OF wp_write_temporary [OF entry]]) (use rename discard in blast)+
  then show ?thesis by (simp add: store_write_def bytes wp_fun)
qed

lemma wp_store_write_none:
  "json_to_vec env (to_state_file st) = None \<Longrightarrow> wp (store_write env st) Q E w = E (WriteFailed False) w"
  by (simp add: store_write_def wp_err)

section \<open>Loading\<close>

lemma valid_hash_iff: "valid_hash env h \<longleftrightarrow> (\<exists>s. h = Some s \<and> is_valid_phc (argon2 env) s)"
  by (auto simp: valid_hash_def split: option.splits)

text \<open>The validation accepts exactly the files that a write of an acceptable state produces.\<close>

lemma parse_state_iff:
  "parse_state env bytes = Inr st \<longleftrightarrow>
     json_from_slice env bytes = Some (to_state_file st) \<and> storable env st"
proof -
  have "parse_state env bytes = Inr st \<longleftrightarrow> f = to_state_file st \<and> storable env st"
    if f: "json_from_slice env bytes = Some f" for f
    by (cases st; cases "confirmation_deadline f")
      (auto simp: parse_state_def f valid_hash_iff state_file.equality FORMAT_VERSION_def split: if_splits)
  then show ?thesis
    by (cases "json_from_slice env bytes") (auto simp: parse_state_def)
qed

lemma parse_written:
  "json_ok env \<Longrightarrow> storable env st \<Longrightarrow> json_to_vec env (to_state_file st) = Some bytes \<Longrightarrow>
     parse_state env bytes = Inr st"
  by (simp add: parse_state_iff json_ok_def)

lemma wp_load [wp_simps]:
  "wp (load env) Q E w =
     (let w' = w\<lparr>tick := tick w + 1\<rparr>
      in if io_fault (io env) (tick w) then E Unreadable w'
         else case stat (disk w) (state_path env) of
           Inl e \<Rightarrow> if e = NotFound then Q Unenrolled w' else E Unreadable w'
         | Inr (File c _) \<Rightarrow> (case parse_state env c of Inl e \<Rightarrow> E e w' | Inr st \<Rightarrow> Q st w')
         | Inr _ \<Rightarrow> E Unreadable w')"
  by (simp add: load_def wp_simps Let_def split: sum.splits node.splits)

lemma dir_ok_missing:
  assumes "dir_ok env d" "map_of d (state_path env) = None"
  shows "stat d (state_path env) = Inl NotFound"
proof -
  have "take k (state_path env) = take k (directory env)" if "k \<le> length (directory env)" for k
    using that by (simp add: state_path_def)
  then have "map_of d (take k (state_path env)) = Some Dir" if "1 \<le> k" "k < length (state_path env)" for k
    using assms(1) that unfolding dir_ok_def list_all_iff state_path_def
    by (simp del: upt_Suc)
  then have "missing_error d (state_path env) = NotFound"
    by (auto simp: missing_error_def list_ex_iff)
  then show ?thesis using assms(2) by (simp add: stat_def)
qed

lemma load_entry:
  assumes "dir_ok env (disk w)" "map_of (disk w) (state_path env) \<in> entry_holds env st"
    and "\<not> io_fault (io env) (tick w)"
  shows "fst (load env w) = Inr st"
proof -
  have "wp (load env) (\<lambda>x _. x = st) (\<lambda>_ _. False) w"
    using assms dir_ok_missing [OF assms(1)]
    by (auto simp: wp_simps Let_def entry_holds_def stat_Inr stat_def split: if_splits)
  then show ?thesis by (auto simp: wp_def split: prod.splits sum.splits)
qed

section \<open>The store meets its interface\<close>

definition accepts :: "store_env \<Rightarrow> persisted \<Rightarrow> bool" where
  "accepts env st \<longleftrightarrow> json_ok env \<and> storable env st"

lemma entry_holds_synced: "entry_holds env st \<subseteq> synced_entries" "(\<Union>st \<in> S. entry_holds env st) \<subseteq> synced_entries"
  by (auto simp: entry_holds_def synced_entries_def split: if_splits)

lemma insert_synced [simp]: "insert (Some (File c True)) synced_entries = synced_entries"
  by (auto simp: synced_entries_def)

interpretation state_store: durable_store "store_write env" "holds env" "ready env" "accepts env" for env
proof
  fix st S w
  assume acc: "accepts env st"
  have written: "{Some (File bytes True)} \<subseteq> entry_holds env st"
    if "json_to_vec env (to_state_file st) = Some bytes" for bytes
    using acc that parse_written by (auto simp: accepts_def entry_holds_def)
  show "wp (store_write env st) (\<lambda>_. holds env {st})
      (\<lambda>e. if after_rename e then holds env (insert st S) else holds env S) w" if "holds env S w"
  proof (cases "json_to_vec env (to_state_file st)")
    case None
    then show ?thesis using that by (simp add: wp_store_write_none)
  next
    case (Some bytes)
    show ?thesis
      by (rule wp_weaken [OF wp_store_write [OF that [unfolded holds_def] Some]])
        (use written [OF Some] in \<open>auto simp: holds_def split: if_splits intro: entry_in_mono\<close>)
  qed
  show "wp (store_write env st) (\<lambda>_. holds env {st}) (\<lambda>_. ready env) w" if "ready env w"
  proof (cases "json_to_vec env (to_state_file st)")
    case None
    then show ?thesis using that by (simp add: wp_store_write_none)
  next
    case (Some bytes)
    show ?thesis
      by (rule wp_weaken [OF wp_store_write [OF that [unfolded ready_def] Some]])
        (use written [OF Some] in \<open>auto simp: holds_def ready_def split: if_splits intro: entry_in_mono\<close>)
  qed
qed (auto simp: holds_def ready_def intro: entry_in_mono entry_in_mono [OF _ entry_holds_synced(2)])

text \<open>A crash keeps what the store holds: the surviving tree loads as one of the held states.\<close>

definition after_crash :: "fs \<Rightarrow> world" where
  "after_crash d = \<lparr>disk = d, images = [], tick = 0\<rparr>"

definition quiet :: "store_env \<Rightarrow> store_env" where
  "quiet env = env\<lparr>io := \<lparr>io_fault = \<lambda>_. False, io_partial = \<lambda>_. 0, link_fault = \<lambda>_. False\<rparr>\<rparr>"

definition recovered :: "store_env \<Rightarrow> fs \<Rightarrow> load_error + persisted" where
  "recovered env d = fst (load (quiet env) (after_crash d))"

lemma crash_entry:
  assumes "entry_in env S w" "survives w d" "S \<subseteq> synced_entries"
  shows "dir_ok env d" "map_of d (state_path env) \<in> S"
proof -
  obtain img where img: "dir_ok env img" "map_of img (state_path env) \<in> S" "crash_image img d"
    using assms(1,2) survives_all_images unfolding entry_in_def by blast
  show "dir_ok env d" using img(1,3) by (auto simp: dir_ok_def list_all_iff intro: crash_image_Dir)
  have "map_of d (state_path env) = map_of img (state_path env)"
    using img(3) subsetD [OF assms(3) img(2)] unfolding crash_image_def
    by (auto simp: synced_entries_def crash_node_def option_rel_Some1 dest!: spec [of _ "state_path env"]
        elim!: option.rel_cases split: node.splits if_splits)
  then show "map_of d (state_path env) \<in> S" using img(2) by simp
qed

lemma holds_after_crash: "holds env S w \<Longrightarrow> survives w d \<Longrightarrow> holds env S (after_crash d)"
  using crash_entry [of env "\<Union>st\<in>S. entry_holds env st" w d] entry_holds_synced(2)
  by (auto simp: holds_def entry_in_def all_images_def after_crash_def)

text \<open>After a crash, and in a fresh directory, every tree that a further crash can expose is the same.\<close>

definition settled :: "store_env \<Rightarrow> world \<Rightarrow> bool" where
  "settled env w \<longleftrightarrow> (\<exists>e \<in> synced_entries. entry_in env {e} w)"

lemma settled_after_crash: "ready env w \<Longrightarrow> survives w d \<Longrightarrow> settled env (after_crash d\<lparr>tick := t\<rparr>)"
  using crash_entry [of env synced_entries w d]
  by (auto simp: settled_def ready_def entry_in_def all_images_def after_crash_def)

lemma quiet_simps [simp]:
  "directory (quiet env) = directory env" "json_from_slice (quiet env) = json_from_slice env"
  "json_to_vec (quiet env) = json_to_vec env" "argon2 (quiet env) = argon2 env"
  "io_fault (io (quiet env)) t = False"
  by (simp_all add: quiet_def)

lemma quiet_paths [simp]: "state_path (quiet env) = state_path env" "temp_path (quiet env) = temp_path env"
  by (simp_all add: state_path_def temp_path_def)

lemma quiet_parse [simp]: "parse_state (quiet env) bytes = parse_state env bytes"
  by (simp add: parse_state_def valid_hash_def cong: option.case_cong if_cong)

lemma recovered_holds:
  assumes "holds env S w" "survives w d"
  shows "\<exists>st \<in> S. recovered env d = Inr st"
proof -
  have "entry_in env (\<Union>st\<in>S. entry_holds env st) (after_crash d)"
    using holds_after_crash [OF assms] by (simp add: holds_def)
  then obtain st where st: "st \<in> S" "dir_ok env d" "map_of d (state_path env) \<in> entry_holds env st"
    by (auto simp: entry_in_def all_images_def after_crash_def)
  moreover have "dir_ok (quiet env) d" "entry_holds (quiet env) st = entry_holds env st"
    using st(2) by (simp_all add: dir_ok_def entry_holds_def)
  ultimately have "recovered env d = Inr st"
    unfolding recovered_def by (intro load_entry) (simp_all add: after_crash_def)
  with st(1) show ?thesis by blast
qed

lemma store_write_succeeds:
  assumes "entry_in env S w" "json_to_vec env (to_state_file st) = Some bytes"
    and "\<And>t. \<not> io_fault (io env) t"
    and "map_of (disk w) (temp_path env) = None" "map_of (disk w) (state_path env) \<noteq> Some Dir"
  shows "wp (store_write env st) (\<lambda>_ w'. map_of (disk w') (temp_path env) = None \<and>
    map_of (disk w') (state_path env) \<noteq> Some Dir) (\<lambda>_ _. False) w"
proof -
  obtain e where "stat (disk w) (temp_path env) = Inl e" using assms(4) stat_Inl by (metis state_path_simps(2))
  then show ?thesis
    using assms entry_in_disk [OF assms(1)]
    by (simp add: store_write_def write_temporary_def wp_simps Let_def stat_Inr parent_check_ok [of env] dir_ok_stat
        split: sum.splits)
qed

section \<open>A concrete environment\<close>

text \<open>For the examples: a codec in place of JSON that writes the fields one after the other, each ended by a
  dot, and a hash that wraps its secret.\<close>

definition put_string :: "string \<Rightarrow> string" where
  "put_string s = concat (map (\<lambda>c. [CHR ''c'', c]) s) @ ''.''"

definition put_word :: "'a::len word \<Rightarrow> string" where
  "put_word w = replicate (unat w) CHR ''1'' @ ''.''"

definition put_option :: "('a \<Rightarrow> string) \<Rightarrow> 'a option \<Rightarrow> string" where
  "put_option f v = (case v of None \<Rightarrow> ''-'' | Some x \<Rightarrow> CHR ''+'' # f x)"

fun take_string :: "string \<Rightarrow> (string \<times> string) option" where
  "take_string (CHR ''c'' # x # r) = map_option (apfst (Cons x)) (take_string r)"
| "take_string (CHR ''.'' # r) = Some ([], r)"
| "take_string _ = None"

fun take_nat :: "string \<Rightarrow> (nat \<times> string) option" where
  "take_nat (CHR ''1'' # r) = map_option (apfst Suc) (take_nat r)"
| "take_nat (CHR ''.'' # r) = Some (0, r)"
| "take_nat _ = None"

definition take_word :: "string \<Rightarrow> ('a::len word \<times> string) option" where
  "take_word s = map_option (apfst word_of_nat) (take_nat s)"

fun take_option :: "(string \<Rightarrow> ('a \<times> string) option) \<Rightarrow> string \<Rightarrow> ('a option \<times> string) option" where
  "take_option f (CHR ''-'' # r) = Some (None, r)"
| "take_option f (CHR ''+'' # r) = map_option (apfst Some) (f r)"
| "take_option f _ = None"

definition demo_to_vec :: "state_file \<Rightarrow> string option" where
  "demo_to_vec f = Some (put_word (version f) @ put_string (state f) @ put_option put_string (password_hash f)
     @ put_option put_string (recovery_key_hash f) @ put_option put_word (confirmation_deadline f))"

definition demo_from_slice :: "string \<Rightarrow> state_file option" where
  "demo_from_slice b =
     (case take_word b of None \<Rightarrow> None | Some (v, b) \<Rightarrow>
      case take_string b of None \<Rightarrow> None | Some (s, b) \<Rightarrow>
      case take_option take_string b of None \<Rightarrow> None | Some (p, b) \<Rightarrow>
      case take_option take_string b of None \<Rightarrow> None | Some (r, b) \<Rightarrow>
      case take_option take_word b of None \<Rightarrow> None | Some (d, b) \<Rightarrow>
        if b = [] then Some \<lparr>version = v, state = s, password_hash = p, recovery_key_hash = r, confirmation_deadline = d\<rparr>
        else None)"

lemma take_put_string: "take_string (put_string s @ r) = Some (s, r)"
  by (induction s) (simp_all add: put_string_def)

lemma take_put_word: "take_word (put_word w @ r) = Some (w, r)"
proof -
  have "take_nat (replicate n CHR ''1'' @ ''.'' @ r) = Some (n, r)" for n by (induction n) simp_all
  from this [of "unat w"] show ?thesis by (simp add: take_word_def put_word_def)
qed

lemma take_put_option:
  "(\<And>x r. g (f x @ r) = Some (x, r)) \<Longrightarrow> take_option g (put_option f v @ r) = Some (v, r)"
  by (simp add: put_option_def split: option.splits)

lemma demo_codec: "demo_to_vec f = Some b \<Longrightarrow> demo_from_slice b = Some f"
  using take_put_option [of take_word put_word "confirmation_deadline f" "[]"]
  by (auto simp: demo_to_vec_def demo_from_slice_def take_put_string take_put_word take_put_option)

definition demo_argon2 :: argon2_env where
  "demo_argon2 =
     \<lparr>phc_new = \<lambda>s. if take 1 s = ''$'' then Some \<lparr>algorithm = ''argon2id'', phc_version = Some 19,
        hash_len = Some 32, salt_len = Some 16, params_ok = True\<rparr> else None,
      argon2_hash = \<lambda>_ secret _. Some (CHR ''$'' # secret),
      argon2_verify = \<lambda>_ secret phc. if phc = CHR ''$'' # secret then VerifyOk else VerifyWrongPassword\<rparr>"

definition demo_dir :: path where "demo_dir = [''var'', ''lib'']"

definition demo_fs :: fs where
  "demo_fs = [([''var''], Dir), (demo_dir, Dir)]"

definition demo_store :: "(nat \<Rightarrow> bool) \<Rightarrow> store_env" where
  "demo_store fault =
     \<lparr>io = \<lparr>io_fault = fault, io_partial = \<lambda>_. 0, link_fault = \<lambda>_. False\<rparr>, directory = demo_dir,
      json_to_vec = demo_to_vec, json_from_slice = demo_from_slice, argon2 = demo_argon2\<rparr>"

lemma demo_json_ok: "json_ok (demo_store fault)"
  by (simp add: json_ok_def demo_store_def demo_codec)

lemma demo_argon2_correct: "argon2_correct demo_argon2 params"
  by (auto simp: argon2_correct_def demo_argon2_def is_valid_phc_def OUTPUT_BYTES_def SALT_BYTES_def)

lemma demo_holds: "holds (demo_store fault) {Unenrolled} (after_crash demo_fs)"
  by (simp add: holds_def entry_in_def all_images_def after_crash_def entry_holds_def dir_ok_def
      demo_store_def demo_fs_def demo_dir_def state_path_def)

section \<open>Properties\<close>

text \<open>C4: a write of the state is atomic under crashes.  Whichever call fails, and whatever tree a crash
  then exposes, the next start reads the old state or the new one; the new one if the write
  reported success; the old one if it reported a failure before the rename.\<close>

theorem store_write_crash_atomic:
  assumes "json_ok env" "storable env new" "holds env {old} w"
    and "store_write env new w = (r, w')" "survives w' d"
  shows "recovered env d = Inr (if is_ok r then new else old) \<or>
         (r = Inl (WriteFailed True) \<and> recovered env d = Inr new)"
proof (cases r)
  case (Inr u)
  have "holds env {new} w'"
    using wp_Inr [OF state_store.put_atomic [OF _ assms(3)], of new u w'] assms Inr
    by (simp add: accepts_def)
  then show ?thesis using recovered_holds [OF _ assms(5)] Inr by fastforce
next
  case (Inl e)
  have "if after_rename e then holds env {new, old} w' else holds env {old} w'"
    using wp_Inl [OF state_store.put_atomic [OF _ assms(3)], of new e w'] assms Inl
    by (simp add: accepts_def split: if_splits)
  then show ?thesis
    using recovered_holds [OF _ assms(5)] Inl by (cases e) (fastforce split: if_splits)
qed

definition demo_enrolled :: persisted where
  "demo_enrolled = Enrolled ''$p'' ''$k''"

text \<open>The directory sync fails, the disk loses the rename: the write reports that it may be visible,
  and the old state comes back.\<close>

theorem store_write_crash_atomic_witness:
  "case store_write (demo_store (\<lambda>t. 4 \<le> t)) demo_enrolled (after_crash demo_fs) of
     (r, w') \<Rightarrow> r = Inl (WriteFailed True) \<and> survives w' demo_fs \<and>
       recovered (demo_store (\<lambda>t. 4 \<le> t)) demo_fs = Inr Unenrolled"
proof -
  let ?env = "demo_store (\<lambda>t. 4 \<le> t)"
  obtain r w' where run: "store_write ?env demo_enrolled (after_crash demo_fs) = (r, w')" by fastforce
  then have r: "r = Inl (WriteFailed True)" and imgs: "demo_fs \<in> set (images w')"
    by (simp_all add: store_write_def write_temporary_def and_then_def attempt_def map_err_def create_entry_def
        write_all_def sync_file_def rename_def sync_dir_def sys_def demo_store_def demo_enrolled_def demo_fs_def
        demo_dir_def after_crash_def state_path_def temp_path_def STATE_FILE_def TEMP_FILE_def stat_def
        parent_check_def put_disk_def missing_error_def FORMAT_VERSION_def demo_to_vec_def)
      (auto simp: Let_def)
  have crash: "crash_image demo_fs demo_fs"
    by (auto simp: crash_image_def demo_fs_def crash_node_def demo_dir_def)
  with imgs have surv: "survives w' demo_fs" by (auto simp: survives_def)
  have "storable ?env demo_enrolled"
    by (simp add: demo_enrolled_def demo_store_def is_valid_phc_def demo_argon2_def OUTPUT_BYTES_def SALT_BYTES_def)
  from store_write_crash_atomic [OF demo_json_ok this demo_holds run surv]
  have "recovered ?env demo_fs = Inr Unenrolled \<or> recovered ?env demo_fs = Inr demo_enrolled"
    using r by auto
  moreover have "recovered ?env demo_fs = Inr Unenrolled"
    by (simp add: recovered_def quiet_def load_def and_then_def attempt_def read_file_def sys_def ok_def
        demo_store_def demo_fs_def demo_dir_def after_crash_def state_path_def stat_def missing_error_def Let_def)
  ultimately show ?thesis using run r surv by simp
qed

text \<open>C29: the validation of the state file accepts exactly what a write produces: the bytes must decode to
  the file of a state whose hashes are valid, with the known version and no field missing or left over.\<close>

theorem load_accepts_exactly_written:
  "parse_state env bytes = Inr st \<longleftrightarrow>
     json_from_slice env bytes = Some (to_state_file st) \<and> storable env st"
  by (rule parse_state_iff)

end
