(* ===== verification/Machine.thy ===== *)
theory Machine
  imports Codes Store
begin

text \<open>
  The enrollment state machine of sl-authd (\<^verbatim>\<open>src/authd/src/machine.rs\<close>): pairing, provisional enrollment,
  confirmation, password verification, recovery and the back-off counters, over the durable store.

  The state is the record \<open>core\<close>; the file system it acts on is part of it.  The clocks and the random
  source are fields of \<open>machine_env\<close>, indexed by a clock of readings (the one of \<open>Fs\<close>), so that two
  readings inside one operation may differ.  Additions of the source that are unchecked in a release
  build wrap, as they do there.
\<close>

section \<open>Data\<close>

definition PAIRING_LIFETIME :: u64 where "PAIRING_LIFETIME = 600"
definition CONFIRMATION_WINDOW :: u64 where "CONFIRMATION_WINDOW = 600"
definition PAIRING_ATTEMPTS :: u8 where "PAIRING_ATTEMPTS = 5"
definition PASSWORD_MIN_CODE_POINTS :: nat where "PASSWORD_MIN_CODE_POINTS = 12"
definition PASSWORD_MAX_BYTES :: nat where "PASSWORD_MAX_BYTES = 1024"
definition CODE_MAX_BYTES :: nat where "CODE_MAX_BYTES = 64"
definition BACKOFF_THRESHOLD :: u32 where "BACKOFF_THRESHOLD = 5"
definition BACKOFF_CAP :: u64 where "BACKOFF_CAP = 900"

datatype failure =
    NotEnrolled | EnrollmentUnconfirmed | AlreadyEnrolled | NoPendingPairing | InvalidPairingCode
  | PairingAttemptsExhausted | NoProvisionalEnrollment | ConfirmationExpired | InvalidCredential
  | PasswordRejected | RateLimited | Busy | InvalidArgument | Unavailable

datatype scope = Password u32 | Recovery | Confirmation

record counter =
  failures :: u32
  last_failure :: u64

record pairing =
  code :: "u8 list"
  expires_boot :: u64
  expires_at :: u64
  wrong_attempts :: u8

record core =
  files :: world
  persisted :: "persisted option"
  pending :: "pairing option"  \<comment> \<open>the field \<^verbatim>\<open>pairing\<close>\<close>
  expired_provisional :: bool
  backoff :: "scope \<rightharpoonup> counter"

record machine_env =
  store :: store_env
  wall :: "nat \<Rightarrow> u64"
  boot :: "nat \<Rightarrow> u64 option"
  random :: "nat \<Rightarrow> (nat \<Rightarrow> u8) option"
  cost :: argon2_params

type_synonym 'a core_op = "(core, failure, 'a) op"

section \<open>Helpers\<close>

definition constant_time_eq :: "u8 list \<Rightarrow> u8 list \<Rightarrow> bool" where
  "constant_time_eq l r \<longleftrightarrow>
     length l = length r \<and> fold (\<lambda>(a, b) difference. difference OR (a XOR b)) (zip l r) 0 = 0"

definition deadline_expired :: "u64 \<Rightarrow> u64 \<Rightarrow> bool" where
  "deadline_expired deadline now \<longleftrightarrow> deadline \<le> now \<or> saturating_add now CONFIRMATION_WINDOW < deadline"

definition backoff_delay :: "u32 \<Rightarrow> u64" where
  "backoff_delay n =
     (if n < BACKOFF_THRESHOLD then 0
      else let exponent = n - BACKOFF_THRESHOLD
           in if 10 \<le> exponent then BACKOFF_CAP else min (push_bit (unat exponent) 1) BACKOFF_CAP)"

text \<open>A reading of a clock or of the random source.\<close>

definition reading :: "(nat \<Rightarrow> 'a) \<Rightarrow> 'a core_op" where
  "reading f s = (Inr (f (tick (files s))), s\<lparr>files := (files s)\<lparr>tick := tick (files s) + 1\<rparr>\<rparr>)"

definition wall_now :: "machine_env \<Rightarrow> u64 core_op" where
  "wall_now env = reading (wall env)"

definition boot_now :: "machine_env \<Rightarrow> u64 core_op" where
  "boot_now env = and_then (reading (boot env)) (\<lambda>b. lift_res (ok_or Unavailable b))"

definition commit :: "machine_env \<Rightarrow> persisted \<Rightarrow> unit core_op" where
  "commit env st =
     and_then (attempt (on_part files (\<lambda>w s. s\<lparr>files := w\<rparr>) (store_write (store env) st))) (\<lambda>r. case r of
       Inr _ \<Rightarrow> modify (\<lambda>s. s\<lparr>persisted := Some st\<rparr>)
     | Inl failed \<Rightarrow>
         and_then (if after_rename failed then modify (\<lambda>s. s\<lparr>persisted := None, pending := None\<rparr>) else ok ())
           (\<lambda>_. err Unavailable))"

definition drop_expired :: "u64 \<Rightarrow> core \<Rightarrow> core" where
  "drop_expired now s =
     (case pending s of
        None \<Rightarrow> s
      | Some p \<Rightarrow> if expires_boot p \<le> now then s\<lparr>pending := None\<rparr> else s)"

definition prepare :: "machine_env \<Rightarrow> unit core_op" where
  "prepare env =
     and_then get_st (\<lambda>s. case persisted s of
       None \<Rightarrow> err Unavailable
     | Some st \<Rightarrow>
         and_then (boot_now env) (\<lambda>now.
         and_then (modify (drop_expired now)) (\<lambda>_.
         case st of
           EnrolledUnconfirmed _ _ deadline \<Rightarrow>
             and_then (wall_now env) (\<lambda>now.
             if deadline_expired deadline now
             then and_then (commit env Unenrolled) (\<lambda>_. modify (\<lambda>s. s\<lparr>expired_provisional := True\<rparr>))
             else ok ())
         | _ \<Rightarrow> ok ())))"

definition check_backoff :: "machine_env \<Rightarrow> scope \<Rightarrow> unit core_op" where
  "check_backoff env sc =
     and_then get_st (\<lambda>s. case backoff s sc of
       None \<Rightarrow> ok ()
     | Some c \<Rightarrow>
         let til = saturating_add (last_failure c) (backoff_delay (failures c))
         in and_then (boot_now env) (\<lambda>now. if now < til then err RateLimited else ok ()))"

definition default_counter :: counter where
  "default_counter = \<lparr>failures = 0, last_failure = 0\<rparr>"

text \<open>The failure is counted even if the clock cannot be read.\<close>

definition record_failure :: "machine_env \<Rightarrow> scope \<Rightarrow> unit core_op" where
  "record_failure env sc =
     and_then (reading (boot env)) (\<lambda>now.
     and_then get_st (\<lambda>s.
     let c = (case backoff s sc of None \<Rightarrow> default_counter | Some c \<Rightarrow> c);
         c1 = c\<lparr>failures := saturating_add (failures c) 1\<rparr>
     in and_then (modify (\<lambda>s. s\<lparr>backoff := (backoff s)(sc \<mapsto> c1)\<rparr>)) (\<lambda>_.
        case now of
          None \<Rightarrow> err Unavailable
        | Some t \<Rightarrow> modify (\<lambda>s. s\<lparr>backoff := (backoff s)(sc \<mapsto> c1\<lparr>last_failure := t\<rparr>)\<rparr>))))"

definition record_success :: "scope \<Rightarrow> unit core_op" where
  "record_success sc = modify (\<lambda>s. s\<lparr>backoff := (backoff s)(sc := None)\<rparr>)"

definition random_bytes :: "machine_env \<Rightarrow> nat \<Rightarrow> u8 list core_op" where
  "random_bytes env n =
     and_then (reading (random env)) (\<lambda>r. case r of
       None \<Rightarrow> err Unavailable
     | Some b \<Rightarrow> ok (map b [0..<n]))"

definition hash :: "machine_env \<Rightarrow> string \<Rightarrow> string core_op" where
  "hash env secret =
     and_then (random_bytes env SALT_BYTES) (\<lambda>salt.
     lift_res (ok_or Unavailable (hasher_hash (argon2 (store env)) (cost env) secret salt)))"

definition verify :: "machine_env \<Rightarrow> string \<Rightarrow> string \<Rightarrow> bool core_op" where
  "verify env secret phc =
     lift_res (ok_or Unavailable (hasher_verify (argon2 (store env)) (cost env) secret phc))"

definition check_password_bound :: "string \<Rightarrow> failure + unit" where
  "check_password_bound password =
     (if PASSWORD_MAX_BYTES < length password then Inl InvalidArgument else Inr ())"

definition machine_parse_recovery_key :: "string \<Rightarrow> failure + u8 list" where
  "machine_parse_recovery_key input =
     (if CODE_MAX_BYTES < length input then Inl InvalidArgument
      else ok_or InvalidArgument (parse_recovery_key input))"

definition password_equals_key :: "string \<Rightarrow> u8 list \<Rightarrow> bool" where
  "password_equals_key password key \<longleftrightarrow> parse_recovery_key (to_ascii_uppercase password) = Some key"

definition check_new_password :: "string \<Rightarrow> failure + unit" where
  "check_new_password password =
     (if chars_count password < PASSWORD_MIN_CODE_POINTS then Inl PasswordRejected else Inr ())"

section \<open>Operations\<close>

text \<open>Startup: the stale temporary file is removed, the state loaded and normalized; a pending pairing
  never survives.\<close>

definition open_core :: "machine_env \<Rightarrow> world \<Rightarrow> core" where
  "open_core env w =
     (let (removed, w1) = remove_stale_temporary (store env) w;
          (loaded, w2) =
            (case removed of
               Inl _ \<Rightarrow> (None, w1)
             | Inr _ \<Rightarrow> (case load (store env) w1 of (Inl _, w2) \<Rightarrow> (None, w2) | (Inr st, w2) \<Rightarrow> (Some st, w2)))
      in snd (prepare env
           \<lparr>files = w2, persisted = loaded, pending = None, expired_provisional = False, backoff = Map.empty\<rparr>))"

definition verify_password :: "machine_env \<Rightarrow> u32 \<Rightarrow> string \<Rightarrow> unit core_op" where
  "verify_password env sender_uid password =
     and_then (prepare env) (\<lambda>_.
     and_then (lift_res (check_password_bound password)) (\<lambda>_.
     and_then get_st (\<lambda>s.
     case persisted s of
       Some (Enrolled ph _) \<Rightarrow>
         and_then (check_backoff env (Password sender_uid)) (\<lambda>_.
         and_then (verify env password ph) (\<lambda>matched.
         if matched then record_success (Password sender_uid)
         else and_then (record_failure env (Password sender_uid)) (\<lambda>_. err InvalidCredential)))
     | Some (EnrolledUnconfirmed _ _ _) \<Rightarrow> err EnrollmentUnconfirmed
     | _ \<Rightarrow> err NotEnrolled)))"

definition enroll :: "machine_env \<Rightarrow> u8 list \<Rightarrow> string \<Rightarrow> string core_op" where
  "enroll env pairing_code new_password =
     and_then (lift_res (check_new_password new_password)) (\<lambda>_.
     if parse_pairing_code new_password = Some pairing_code then err PasswordRejected
     else
       and_then (random_bytes env RECOVERY_KEY_BYTES) (\<lambda>key.
       if password_equals_key new_password key then err PasswordRejected
       else
         let encoded_key = encode_recovery_key key
         in and_then (hash env new_password) (\<lambda>ph.
            and_then (hash env encoded_key) (\<lambda>rh.
            and_then (wall_now env) (\<lambda>now.
            and_then (commit env (EnrolledUnconfirmed ph rh (now + CONFIRMATION_WINDOW))) (\<lambda>_.
            and_then (modify (\<lambda>s. s\<lparr>pending := None, expired_provisional := False\<rparr>)) (\<lambda>_.
            ok encoded_key)))))))"

text \<open>A wrong code: the attempt is counted in the pending pairing, and the last one drops it.\<close>

definition reject_code :: "pairing \<Rightarrow> string core_op" where
  "reject_code p =
     (let p = p\<lparr>wrong_attempts := wrong_attempts p + 1\<rparr>
      in if PAIRING_ATTEMPTS \<le> wrong_attempts p
         then and_then (modify (\<lambda>s. s\<lparr>pending := None\<rparr>)) (\<lambda>_. err PairingAttemptsExhausted)
         else and_then (modify (\<lambda>s. s\<lparr>pending := Some p\<rparr>)) (\<lambda>_. err InvalidPairingCode))"

definition consume_pairing :: "machine_env \<Rightarrow> string \<Rightarrow> string \<Rightarrow> string core_op" where
  "consume_pairing env pairing_code new_password =
     and_then (prepare env) (\<lambda>_.
     and_then (lift_res (check_password_bound new_password)) (\<lambda>_.
     if CODE_MAX_BYTES < length pairing_code then err InvalidArgument
     else
       and_then (lift_res (ok_or InvalidArgument (parse_pairing_code pairing_code))) (\<lambda>submitted.
       and_then get_st (\<lambda>s.
       case persisted s of
         Some (Enrolled _ _) \<Rightarrow> err AlreadyEnrolled
       | Some (EnrolledUnconfirmed _ _ _) \<Rightarrow> err EnrollmentUnconfirmed
       | _ \<Rightarrow>
           and_then (lift_res (ok_or NoPendingPairing (pending s))) (\<lambda>p.
           if \<not> constant_time_eq submitted (code p)
           then reject_code p
           else enroll env (code p) new_password)))))"

definition is_provisional :: "persisted option \<Rightarrow> bool" where
  "is_provisional o' = (case o' of Some (EnrolledUnconfirmed _ _ _) \<Rightarrow> True | _ \<Rightarrow> False)"

text \<open>After the verification: the deadline is checked again, and nothing is finalized late.\<close>

definition finish_confirmation :: "machine_env \<Rightarrow> string \<Rightarrow> string \<Rightarrow> bool \<Rightarrow> unit core_op" where
  "finish_confirmation env ph rh matches =
     and_then (prepare env) (\<lambda>_.
     and_then get_st (\<lambda>s.
     if expired_provisional s \<and> \<not> is_provisional (persisted s) then err ConfirmationExpired
     else if \<not> matches then and_then (record_failure env Confirmation) (\<lambda>_. err InvalidCredential)
     else and_then (commit env (Enrolled ph rh)) (\<lambda>_. record_success Confirmation)))"

definition confirm_recovery_key :: "machine_env \<Rightarrow> string \<Rightarrow> unit core_op" where
  "confirm_recovery_key env recovery_key =
     and_then (prepare env) (\<lambda>_.
     and_then (lift_res (machine_parse_recovery_key recovery_key)) (\<lambda>_.
     and_then get_st (\<lambda>s.
     case persisted s of
       Some (EnrolledUnconfirmed ph rh _) \<Rightarrow>
         and_then (check_backoff env Confirmation) (\<lambda>_.
         and_then (verify env recovery_key rh) (\<lambda>matches. finish_confirmation env ph rh matches))
     | _ \<Rightarrow> if expired_provisional s then err ConfirmationExpired else err NoProvisionalEnrollment)))"

text \<open>After the recovery key matched.\<close>

definition replace_password :: "machine_env \<Rightarrow> u8 list \<Rightarrow> string \<Rightarrow> string \<Rightarrow> unit core_op" where
  "replace_password env key rh new_password =
     and_then (record_success Recovery) (\<lambda>_.
     and_then (lift_res (check_new_password new_password)) (\<lambda>_.
     if password_equals_key new_password key then err PasswordRejected
     else and_then (hash env new_password) (\<lambda>ph. commit env (Enrolled ph rh))))"

definition recover_password :: "machine_env \<Rightarrow> string \<Rightarrow> string \<Rightarrow> unit core_op" where
  "recover_password env recovery_key new_password =
     and_then (prepare env) (\<lambda>_.
     and_then (lift_res (machine_parse_recovery_key recovery_key)) (\<lambda>key.
     and_then (lift_res (check_password_bound new_password)) (\<lambda>_.
     and_then get_st (\<lambda>s.
     case persisted s of
       Some (Enrolled _ rh) \<Rightarrow>
         and_then (check_backoff env Recovery) (\<lambda>_.
         and_then (verify env recovery_key rh) (\<lambda>matched.
         if \<not> matched then and_then (record_failure env Recovery) (\<lambda>_. err InvalidCredential)
         else replace_password env key rh new_password))
     | Some (EnrolledUnconfirmed _ _ _) \<Rightarrow> err EnrollmentUnconfirmed
     | _ \<Rightarrow> err NotEnrolled))))"

definition ensure_pending_pairing :: "machine_env \<Rightarrow> unit core_op" where
  "ensure_pending_pairing env =
     and_then (prepare env) (\<lambda>_.
     and_then get_st (\<lambda>s.
     if persisted s \<noteq> Some Unenrolled \<or> pending s \<noteq> None then ok ()
     else
       and_then (boot_now env) (\<lambda>now.
       let expires = now + PAIRING_LIFETIME
       in and_then (random_bytes env PAIRING_CODE_BYTES) (\<lambda>bytes.
          and_then (wall_now env) (\<lambda>w.
          modify (\<lambda>s. s\<lparr>pending := Some \<lparr>code = bytes, expires_boot = expires,
                                         expires_at = w + PAIRING_LIFETIME, wrong_attempts = 0\<rparr>,
                       expired_provisional := False\<rparr>))))))"

definition cancel_pending_pairing :: "machine_env \<Rightarrow> unit core_op" where
  "cancel_pending_pairing env =
     and_then (prepare env) (\<lambda>_. modify (\<lambda>s. s\<lparr>pending := None\<rparr>))"

definition reset_enrollment :: "machine_env \<Rightarrow> unit core_op" where
  "reset_enrollment env =
     and_then (commit env Unenrolled) (\<lambda>_.
     modify (\<lambda>s. s\<lparr>pending := None, expired_provisional := False, backoff := Map.empty\<rparr>))"

definition get_pending_pairing :: "machine_env \<Rightarrow> (bool \<times> string \<times> u64) core_op" where
  "get_pending_pairing env =
     and_then (prepare env) (\<lambda>_.
     and_then get_st (\<lambda>s.
     ok (case pending s of
           Some p \<Rightarrow> (True, encode_pairing_code (code p), expires_at p)
         | None \<Rightarrow> (False, [], 0))))"

definition is_enrolled :: "persisted option \<Rightarrow> bool" where
  "is_enrolled o' = (case o' of Some (Enrolled _ _) \<Rightarrow> True | _ \<Rightarrow> False)"

definition get_enrollment_state :: "machine_env \<Rightarrow> (bool \<times> bool) core_op" where
  "get_enrollment_state env =
     and_then (prepare env) (\<lambda>_.
     and_then get_st (\<lambda>s. ok (is_enrolled (persisted s), pending s \<noteq> None)))"

section \<open>The invariant\<close>

text \<open>What the daemon relies on of its crates.\<close>

definition env_ok :: "machine_env \<Rightarrow> bool" where
  "env_ok env \<longleftrightarrow> json_ok (store env) \<and> argon2_correct (argon2 (store env)) (cost env)"

text \<open>The state in memory is the one every crash exposes; without a state in memory the directory is at
  least usable.\<close>

definition core_disk :: "machine_env \<Rightarrow> core \<Rightarrow> bool" where
  "core_disk env s \<longleftrightarrow>
     (case persisted s of
        None \<Rightarrow> ready (store env) (files s)
      | Some st \<Rightarrow> storable (store env) st \<and> holds (store env) {st} (files s))"

text \<open>A pending pairing exists only while unenrolled and with attempts left; an expired provisional
  enrollment is remembered only when there is no provisional enrollment.\<close>

definition core_mem :: "core \<Rightarrow> bool" where
  "core_mem s \<longleftrightarrow>
     (\<forall>p. pending s = Some p \<longrightarrow> persisted s = Some Unenrolled \<and>
          length (code p) = PAIRING_CODE_BYTES \<and> wrong_attempts p < PAIRING_ATTEMPTS) \<and>
     (expired_provisional s \<longrightarrow> \<not> is_provisional (persisted s))"

definition core_inv :: "machine_env \<Rightarrow> core \<Rightarrow> bool" where
  "core_inv env s \<longleftrightarrow> core_disk env s \<and> core_mem s"

lemma holds_tick [simp]:
  "holds e S (w\<lparr>tick := t\<rparr>) = holds e S w" "ready e (w\<lparr>tick := t\<rparr>) = ready e w"
  by (simp_all add: holds_def ready_def)

lemma core_inv_tick [simp]: "core_inv env (s\<lparr>files := (files s)\<lparr>tick := t\<rparr>\<rparr>) = core_inv env s"
  by (simp add: core_inv_def core_disk_def core_mem_def cong: option.case_cong)

lemma core_inv_backoff [simp]: "core_inv env (s\<lparr>backoff := b\<rparr>) = core_inv env s"
  by (simp add: core_inv_def core_disk_def core_mem_def cong: option.case_cong)

lemma core_inv_unpair: "core_inv env s \<Longrightarrow> core_inv env (s\<lparr>pending := None\<rparr>)"
  by (simp add: core_inv_def core_disk_def core_mem_def cong: option.case_cong)

lemma core_inv_pair:
  "core_inv env s \<Longrightarrow> persisted s = Some Unenrolled \<Longrightarrow> length (code p) = PAIRING_CODE_BYTES \<Longrightarrow>
     wrong_attempts p < PAIRING_ATTEMPTS \<Longrightarrow> core_inv env (s\<lparr>pending := Some p\<rparr>)"
  by (simp add: core_inv_def core_disk_def core_mem_def)

lemma core_inv_ready: "core_inv env s \<Longrightarrow> ready (store env) (files s)"
  by (auto simp: core_inv_def core_disk_def split: option.splits intro: state_store.holds_usable)

lemma core_inv_pending:
  "core_inv env s \<Longrightarrow> pending s = Some p \<Longrightarrow> persisted s = Some Unenrolled"
  "core_inv env s \<Longrightarrow> pending s = Some p \<Longrightarrow> length (code p) = PAIRING_CODE_BYTES"
  "core_inv env s \<Longrightarrow> pending s = Some p \<Longrightarrow> wrong_attempts p < PAIRING_ATTEMPTS"
  by (simp_all add: core_inv_def core_mem_def)

lemma core_inv_storable: "core_inv env s \<Longrightarrow> persisted s = Some st \<Longrightarrow> storable (store env) st"
  by (simp add: core_inv_def core_disk_def)

section \<open>Rules for the helpers\<close>

lemma wp_reading [wp_simps]:
  "wp (reading f) Q E s = Q (f (tick (files s))) (s\<lparr>files := (files s)\<lparr>tick := tick (files s) + 1\<rparr>\<rparr>)"
  by (simp add: wp_def reading_def)

lemma wp_boot_now [wp_simps]:
  "wp (boot_now env) Q E s =
     (let s' = s\<lparr>files := (files s)\<lparr>tick := tick (files s) + 1\<rparr>\<rparr>
      in case boot env (tick (files s)) of None \<Rightarrow> E Unavailable s' | Some b \<Rightarrow> Q b s')"
  by (simp add: boot_now_def wp_simps split: option.splits)

lemma wp_wall_now [wp_simps]:
  "wp (wall_now env) Q E s =
     Q (wall env (tick (files s))) (s\<lparr>files := (files s)\<lparr>tick := tick (files s) + 1\<rparr>\<rparr>)"
  by (simp add: wall_now_def wp_simps)

lemma wp_record_success [wp_simps]:
  "wp (record_success sc) Q E s = Q () (s\<lparr>backoff := (backoff s)(sc := None)\<rparr>)"
  by (simp add: record_success_def wp_simps)

lemma wp_verify [wp_simps]:
  "wp (verify env secret phc) Q E s =
     (case hasher_verify (argon2 (store env)) (cost env) secret phc of None \<Rightarrow> E Unavailable s | Some b \<Rightarrow> Q b s)"
  by (simp add: verify_def wp_simps split: option.splits)

lemma wp_random_bytes [wp_simps]:
  "wp (random_bytes env n) Q E s =
     (let s' = s\<lparr>files := (files s)\<lparr>tick := tick (files s) + 1\<rparr>\<rparr>
      in case random env (tick (files s)) of None \<Rightarrow> E Unavailable s' | Some b \<Rightarrow> Q (map b [0..<n]) s')"
  by (simp add: random_bytes_def wp_simps split: option.splits)

text \<open>A computed hash is storable and verifies exactly its secret.\<close>

definition hash_of :: "machine_env \<Rightarrow> string \<Rightarrow> string \<Rightarrow> bool" where
  "hash_of env secret h \<longleftrightarrow>
     is_valid_phc (argon2 (store env)) h \<and>
     (\<forall>secret'. hasher_verify (argon2 (store env)) (cost env) secret' h = Some (secret' = secret))"

lemma hash_of_valid: "hash_of env secret h \<Longrightarrow> is_valid_phc (argon2 (store env)) h"
  by (simp add: hash_of_def)

lemma hash_of_verify: "hash_of env secret h \<Longrightarrow>
    hasher_verify (argon2 (store env)) (cost env) secret' h = Some (secret' = secret)"
  by (simp add: hash_of_def)

text \<open>Only the clock of readings moves.\<close>

definition ticked :: "core \<Rightarrow> core \<Rightarrow> bool" where
  "ticked s s' \<longleftrightarrow> (\<exists>t \<ge> tick (files s). s' = s\<lparr>files := (files s)\<lparr>tick := t\<rparr>\<rparr>)"

lemma ticked_simps:
  assumes "ticked s s'"
  shows "persisted s' = persisted s" "pending s' = pending s" "expired_provisional s' = expired_provisional s"
    "backoff s' = backoff s" "core_inv env s' = core_inv env s" "tick (files s) \<le> tick (files s')"
  using assms by (auto simp: ticked_def)

lemma ticked_refl [simp]: "ticked s s"
  unfolding ticked_def by (rule exI [of _ "tick (files s)"]) simp

lemma ticked_step [simp]: "ticked s (s\<lparr>files := (files s)\<lparr>tick := Suc (tick (files s))\<rparr>\<rparr>)"
  unfolding ticked_def by (rule exI [of _ "Suc (tick (files s))"]) simp

lemma ticked_trans: "ticked s s' \<Longrightarrow> ticked s' s'' \<Longrightarrow> ticked s s''"
  unfolding ticked_def by (elim exE conjE, rule exI [of _ "tick (files s'')"]) simp

lemma hash_of_hash:
  "env_ok env \<Longrightarrow> length salt = SALT_BYTES \<Longrightarrow>
     hasher_hash (argon2 (store env)) (cost env) secret salt = Some h \<Longrightarrow> hash_of env secret h"
  unfolding hash_of_def env_ok_def using hasher_hash_verify by blast

lemma wp_hash:
  assumes "env_ok env"
  shows "wp (hash env secret) (\<lambda>h s'. hash_of env secret h \<and> ticked s s') (\<lambda>e s'. e = Unavailable \<and> ticked s s') s"
  using assms hash_of_hash [of env "map b [0..<SALT_BYTES]" for b]
  by (auto simp: hash_def wp_simps Let_def split: option.splits)

text \<open>The clock of readings never goes back.\<close>

lemma store_write_tick: "tick w \<le> tick (snd (store_write env st w))"
proof -
  have "wp (store_write env st) (\<lambda>_ w'. tick w \<le> tick w') (\<lambda>_ w'. tick w \<le> tick w') w"
    by (cases "json_to_vec env (to_state_file st)")
      (auto simp: store_write_def write_temporary_def discard_temporary_def wp_simps Let_def
        split: sum.splits node.splits)
  then show ?thesis by (simp only: wp_post)
qed

lemma wp_commit:
  assumes inv: "core_inv env s" and "env_ok env" "storable (store env) st"
  shows "wp (commit env st)
    (\<lambda>_ s'. \<exists>w. s' = s\<lparr>files := w, persisted := Some st\<rparr> \<and> holds (store env) {st} w \<and> tick (files s) \<le> tick w)
    (\<lambda>e s'. e = Unavailable \<and> core_inv env s' \<and> (\<exists>w. tick (files s) \<le> tick w \<and>
       (s' = s\<lparr>files := w\<rparr> \<or> s' = s\<lparr>files := w, persisted := None, pending := None\<rparr>))) s"
proof -
  have acc: "accepts (store env) st" using assms by (simp add: accepts_def env_ok_def)
  have good: "wp (store_write (store env) st) (\<lambda>_. holds (store env) {st})
      (\<lambda>e w. ready (store env) w \<and> (\<not> after_rename e \<longrightarrow> core_disk env (s\<lparr>files := w\<rparr>))) (files s)"
  proof (cases "persisted s")
    case None
    show ?thesis
      by (rule wp_weaken [OF state_store.put_usable [OF acc core_inv_ready [OF inv]]])
        (simp_all add: core_disk_def None)
  next
    case (Some old)
    then have "holds (store env) {old} (files s)" "storable (store env) old"
      using inv by (simp_all add: core_inv_def core_disk_def)
    then show ?thesis
      by (intro wp_weaken [OF state_store.put_atomic [OF acc]])
        (auto simp: core_disk_def Some split: if_splits dest: state_store.holds_usable)
  qed
  have "wp (store_write (store env) st) (\<lambda>_ w. tick (files s) \<le> tick w) (\<lambda>_ w. tick (files s) \<le> tick w) (files s)"
    using store_write_tick by (simp only: wp_post)
  from wp_conj [OF good this] show ?thesis
    unfolding commit_def wp_simps
    by (rule wp_weaken) (use inv in \<open>auto simp: wp_simps core_inv_def core_mem_def core_disk_def is_provisional_def\<close>)
qed

section \<open>Preparation\<close>

text \<open>A reading taken between two states.\<close>

definition between :: "core \<Rightarrow> nat \<Rightarrow> core \<Rightarrow> bool" where
  "between s t s' \<longleftrightarrow> tick (files s) \<le> t \<and> t < tick (files s')"

text \<open>What a successful preparation leaves: a pairing that is not expired, and a provisional enrollment
  that is not expired, or none because it was durably discarded.\<close>

definition prepared :: "machine_env \<Rightarrow> core \<Rightarrow> core \<Rightarrow> bool" where
  "prepared env s s' \<longleftrightarrow>
     backoff s' = backoff s \<and> tick (files s) \<le> tick (files s') \<and>
     (pending s' = pending s \<or> pending s' = None) \<and>
     (\<forall>p. pending s' = Some p \<longrightarrow> (\<exists>t b. between s t s' \<and> boot env t = Some b \<and> b < expires_boot p)) \<and>
     (persisted s' = persisted s \<and> persisted s \<noteq> None \<and> expired_provisional s' = expired_provisional s \<and>
        (\<forall>ph rh d. persisted s = Some (EnrolledUnconfirmed ph rh d) \<longrightarrow>
           (\<exists>t. between s t s' \<and> \<not> deadline_expired d (wall env t))) \<or>
      persisted s' = Some Unenrolled \<and> expired_provisional s' \<and>
        (\<exists>ph rh d t. persisted s = Some (EnrolledUnconfirmed ph rh d) \<and> between s t s' \<and>
           deadline_expired d (wall env t)))"

text \<open>What a failed one leaves: nothing changed but a dropped pairing, or the state is lost from memory
  because the write may already be visible.\<close>

definition refused :: "core \<Rightarrow> core \<Rightarrow> bool" where
  "refused s s' \<longleftrightarrow>
     backoff s' = backoff s \<and> expired_provisional s' = expired_provisional s \<and>
     tick (files s) \<le> tick (files s') \<and>
     (pending s' = pending s \<or> pending s' = None) \<and> (persisted s' = persisted s \<or> persisted s' = None)"

lemma drop_expired_simps [simp]:
  "files (drop_expired b s) = files s" "persisted (drop_expired b s) = persisted s"
  "backoff (drop_expired b s) = backoff s" "expired_provisional (drop_expired b s) = expired_provisional s"
  by (simp_all add: drop_expired_def split: option.splits)

lemma drop_expired_pending:
  "pending (drop_expired b s) = pending s \<or> pending (drop_expired b s) = None"
  "pending (drop_expired b s) = Some p \<Longrightarrow> b < expires_boot p"
  by (auto simp: drop_expired_def split: option.splits if_splits)

lemma core_inv_drop_expired: "core_inv env s \<Longrightarrow> core_inv env (drop_expired b s)"
  by (simp add: drop_expired_def core_inv_unpair split: option.splits)

lemma core_inv_committed:
  "core_inv env s \<Longrightarrow> storable (store env) st \<Longrightarrow> holds (store env) {st} w \<Longrightarrow>
     (pending s = None \<or> st = Unenrolled) \<Longrightarrow> (\<not> is_provisional (Some st) \<or> \<not> expired_provisional s) \<Longrightarrow>
     core_inv env (s\<lparr>files := w, persisted := Some st\<rparr>)"
  by (auto simp: core_inv_def core_disk_def core_mem_def)

text \<open>The durable discard of an expired provisional enrollment.\<close>

lemma wp_discard_provisional:
  assumes "core_inv env s" "env_ok env"
  shows "wp (commit env Unenrolled)
    (\<lambda>_ s'. core_inv env s' \<and> persisted s' = Some Unenrolled \<and> pending s' = pending s \<and> backoff s' = backoff s
        \<and> tick (files s) \<le> tick (files s'))
    (\<lambda>e s'. e = Unavailable \<and> core_inv env s' \<and> refused s s') s"
  by (rule wp_weaken [OF wp_commit [OF assms]])
    (use assms in \<open>auto simp: refused_def is_provisional_def intro: core_inv_committed\<close>)

lemma wp_prepare:
  assumes inv: "core_inv env s" and env: "env_ok env"
  shows "wp (prepare env) (\<lambda>_ s'. core_inv env s' \<and> prepared env s s')
    (\<lambda>e s'. e = Unavailable \<and> core_inv env s' \<and> refused s s') s"
proof (cases "persisted s")
  case None
  then show ?thesis using inv by (simp add: prepare_def wp_simps refused_def)
next
  case (Some st)
  let ?s1 = "s\<lparr>files := (files s)\<lparr>tick := Suc (tick (files s))\<rparr>\<rparr>"
  show ?thesis
  proof (cases "boot env (tick (files s))")
    case None
    then show ?thesis using inv Some by (simp add: prepare_def wp_simps refused_def)
  next
    case (Some b)
    define s2 where "s2 = drop_expired b ?s1"
    have s2: "core_inv env s2" "persisted s2 = Some st" "backoff s2 = backoff s"
      "expired_provisional s2 = expired_provisional s" "tick (files s2) = Suc (tick (files s))"
      "pending s2 = pending s \<or> pending s2 = None"
      "\<And>p. pending s2 = Some p \<Longrightarrow> b < expires_boot p"
      using inv \<open>persisted s = Some st\<close> drop_expired_pending [of b ?s1]
      by (simp_all add: s2_def core_inv_drop_expired)
    have fresh: "prepared env s s'" if "ticked s2 s'"
      and "\<And>ph rh d. st = EnrolledUnconfirmed ph rh d \<Longrightarrow> \<exists>t. between s t s' \<and> \<not> deadline_expired d (wall env t)" for s'
      unfolding prepared_def ticked_simps [OF that(1)] s2(2-4)
      using that(2) s2 ticked_simps(6) [OF that(1)] \<open>persisted s = Some st\<close> Some
      by (auto simp: between_def intro!: exI [of _ "tick (files s)"])
    show ?thesis
    proof (cases st)
      case (EnrolledUnconfirmed ph rh d)
      let ?s3 = "s2\<lparr>files := (files s2)\<lparr>tick := Suc (tick (files s2))\<rparr>\<rparr>"
      have "wp (commit env Unenrolled)
          (\<lambda>_ s'. core_inv env (s'\<lparr>expired_provisional := True\<rparr>) \<and> prepared env s (s'\<lparr>expired_provisional := True\<rparr>))
          (\<lambda>e s'. e = Unavailable \<and> core_inv env s' \<and> refused s s') ?s3"
        if "deadline_expired d (wall env (tick (files s2)))"
        by (rule wp_weaken [OF wp_discard_provisional [of env ?s3]])
          (use s2 env that EnrolledUnconfirmed \<open>persisted s = Some st\<close>
            in \<open>auto simp: core_inv_def core_disk_def core_mem_def is_provisional_def prepared_def refused_def
                between_def Some intro!: exI [of _ "Suc (tick (files s))"]\<close>)
      moreover have "prepared env s ?s3" if "\<not> deadline_expired d (wall env (tick (files s2)))"
        by (rule fresh [OF ticked_step]) (use that EnrolledUnconfirmed s2 in \<open>auto simp: between_def intro!: exI [of _ "tick (files s2)"]\<close>)
      moreover have "core_inv env ?s3" using s2(1) by simp
      moreover have "files s2 = (files s)\<lparr>tick := Suc (tick (files s))\<rparr>" by (simp add: s2_def)
      ultimately show ?thesis using \<open>persisted s = Some st\<close> Some EnrolledUnconfirmed s2(1)
        by (simp add: prepare_def wp_simps wp_modify_fun Let_def flip: s2_def)
    qed (use \<open>persisted s = Some st\<close> Some s2(1) fresh [of s2] in
        \<open>simp_all add: prepare_def wp_simps Let_def flip: s2_def\<close>)
  qed
qed

section \<open>The enrollment life cycle\<close>

datatype request =
    VerifyPassword u32 string
  | ConsumePairing string string
  | ConfirmRecoveryKey string
  | RecoverPassword string string
  | EnsurePendingPairing
  | CancelPendingPairing
  | ResetEnrollment
  | GetPendingPairing
  | GetEnrollmentState

text \<open>A new password: long enough and within the bound.\<close>

definition acceptable :: "string \<Rightarrow> bool" where
  "acceptable password \<longleftrightarrow> PASSWORD_MIN_CODE_POINTS \<le> chars_count password \<and> length password \<le> PASSWORD_MAX_BYTES"

abbreviation verifies :: "machine_env \<Rightarrow> string \<Rightarrow> string \<Rightarrow> bool" where
  "verifies env secret h \<equiv> hasher_verify (argon2 (store env)) (cost env) secret h = Some True"

text \<open>The abstract life cycle: which changes of the enrollment a request may make, and what evidence each
  needs.  \<open>lost\<close> is a write that failed after its rename: the daemon then refuses until it is reset or
  restarted.\<close>

inductive enrollment_step :: "machine_env \<Rightarrow> core \<Rightarrow> request \<Rightarrow> core \<Rightarrow> bool" for env s req s' where
  unchanged: "persisted s' = persisted s \<Longrightarrow> enrollment_step env s req s'"
| lost: "persisted s' = None \<Longrightarrow> enrollment_step env s req s'"
| expire: "persisted s = Some (EnrolledUnconfirmed ph rh d) \<Longrightarrow> between s t s' \<Longrightarrow>
    deadline_expired d (wall env t) \<Longrightarrow> persisted s' = Some Unenrolled \<Longrightarrow> enrollment_step env s req s'"
| reset: "req = ResetEnrollment \<Longrightarrow> persisted s' = Some Unenrolled \<Longrightarrow> enrollment_step env s req s'"
| pair: "req = ConsumePairing text new_password \<Longrightarrow> persisted s = Some Unenrolled \<Longrightarrow> pending s = Some p \<Longrightarrow>
    parse_pairing_code text = Some (code p) \<Longrightarrow>
    between s t s' \<Longrightarrow> boot env t = Some b \<Longrightarrow> b < expires_boot p \<Longrightarrow>
    acceptable new_password \<Longrightarrow> parse_pairing_code new_password \<noteq> Some (code p) \<Longrightarrow>
    length key = RECOVERY_KEY_BYTES \<Longrightarrow> \<not> password_equals_key new_password key \<Longrightarrow>
    hash_of env new_password ph \<Longrightarrow> hash_of env (encode_recovery_key key) rh \<Longrightarrow> between s t' s' \<Longrightarrow>
    persisted s' = Some (EnrolledUnconfirmed ph rh (wall env t' + CONFIRMATION_WINDOW)) \<Longrightarrow>
    enrollment_step env s req s'"
| confirm: "req = ConfirmRecoveryKey recovery_key \<Longrightarrow> persisted s = Some (EnrolledUnconfirmed ph rh d) \<Longrightarrow>
    verifies env recovery_key rh \<Longrightarrow> between s t s' \<Longrightarrow> \<not> deadline_expired d (wall env t) \<Longrightarrow>
    persisted s' = Some (Enrolled ph rh) \<Longrightarrow> enrollment_step env s req s'"
| recover: "req = RecoverPassword recovery_key new_password \<Longrightarrow> persisted s = Some (Enrolled ph rh) \<Longrightarrow>
    verifies env recovery_key rh \<Longrightarrow> acceptable new_password \<Longrightarrow> hash_of env new_password ph' \<Longrightarrow>
    persisted s' = Some (Enrolled ph' rh) \<Longrightarrow> enrollment_step env s req s'"

text \<open>How many wrong pairing codes are left, and which replies report one.\<close>

definition budget :: "core \<Rightarrow> nat" where
  "budget s = (case pending s of None \<Rightarrow> 0 | Some p \<Rightarrow> unat PAIRING_ATTEMPTS - unat (wrong_attempts p))"

definition guess :: "failure \<Rightarrow> nat" where
  "guess e = (if e = InvalidPairingCode \<or> e = PairingAttemptsExhausted then 1 else 0)"

definition good :: "machine_env \<Rightarrow> core \<Rightarrow> request \<Rightarrow> nat \<Rightarrow> core \<Rightarrow> bool" where
  "good env s req n s' \<longleftrightarrow>
     core_inv env s' \<and> enrollment_step env s req s' \<and> (req \<noteq> EnsurePendingPairing \<longrightarrow> n + budget s' \<le> budget s)"

abbreviation sound :: "machine_env \<Rightarrow> core \<Rightarrow> request \<Rightarrow> 'a core_op \<Rightarrow> bool" where
  "sound env s req m \<equiv> wp m (\<lambda>_. good env s req 0) (\<lambda>e. good env s req (guess e)) s"

text \<open>From \<open>s\<close> to \<open>s'\<close> neither the enrollment nor the pairing changes.\<close>

definition calm :: "machine_env \<Rightarrow> core \<Rightarrow> core \<Rightarrow> bool" where
  "calm env s s' \<longleftrightarrow>
     core_inv env s' \<and> persisted s' = persisted s \<and> pending s' = pending s \<and>
     expired_provisional s' = expired_provisional s \<and> tick (files s) \<le> tick (files s')"

lemma between_mono: "between s t s1 \<Longrightarrow> tick (files s1) \<le> tick (files s') \<Longrightarrow> between s t s'"
  by (simp add: between_def)

lemma budget_prepared: "prepared env s s1 \<Longrightarrow> budget s1 \<le> budget s"
  by (auto simp: prepared_def budget_def)

lemma prepared_step:
  assumes "prepared env s s1" "tick (files s1) \<le> tick (files s')" "persisted s' = persisted s1"
  shows "enrollment_step env s req s'"
proof -
  have "persisted s1 = persisted s \<or> persisted s1 = Some Unenrolled \<and> (\<exists>ph rh d t.
      persisted s = Some (EnrolledUnconfirmed ph rh d) \<and> between s t s1 \<and> deadline_expired d (wall env t))"
    using assms(1) unfolding prepared_def by blast
  then show ?thesis
    using assms(2,3) by (auto intro: enrollment_step.unchanged enrollment_step.expire between_mono)
qed

text \<open>The rest of a request after its preparation.\<close>

lemma good_calm:
  "prepared env s s1 \<Longrightarrow> calm env s1 s' \<Longrightarrow> n = 0 \<Longrightarrow> good env s req n s'"
  using budget_prepared [of env s s1]
  by (auto simp: good_def calm_def intro: prepared_step) (auto simp: budget_def)

lemma good_refused: "core_inv env s' \<Longrightarrow> refused s s' \<Longrightarrow> n = 0 \<Longrightarrow> good env s req n s'"
  by (auto simp: good_def refused_def budget_def intro: enrollment_step.unchanged enrollment_step.lost)

lemma good_committed:
  "core_inv env s' \<Longrightarrow> enrollment_step env s req s' \<Longrightarrow> budget s' \<le> budget s \<Longrightarrow> n = 0 \<Longrightarrow> good env s req n s'"
  by (simp add: good_def)

lemma guess_simps [simp]:
  "guess Unavailable = 0" "guess NotEnrolled = 0" "guess EnrollmentUnconfirmed = 0" "guess AlreadyEnrolled = 0"
  "guess NoPendingPairing = 0" "guess NoProvisionalEnrollment = 0" "guess ConfirmationExpired = 0"
  "guess InvalidCredential = 0" "guess PasswordRejected = 0" "guess RateLimited = 0" "guess InvalidArgument = 0"
  "guess InvalidPairingCode = 1" "guess PairingAttemptsExhausted = 1"
  by (simp_all add: guess_def)

lemma sound_prepare:
  assumes inv: "core_inv env s" and env: "env_ok env"
    and rest: "\<And>s1. core_inv env s1 \<Longrightarrow> prepared env s s1 \<Longrightarrow>
      wp m (\<lambda>_. good env s req 0) (\<lambda>e. good env s req (guess e)) s1"
  shows "sound env s req (and_then (prepare env) (\<lambda>_. m))"
  unfolding wp_and_then
  by (rule wp_weaken [OF wp_prepare [OF inv env]]) (auto intro: rest good_refused)

lemma calm_refl: "core_inv env s \<Longrightarrow> calm env s s"
  by (simp add: calm_def)

lemma calm_trans: "calm env s s1 \<Longrightarrow> calm env s1 s2 \<Longrightarrow> calm env s s2"
  by (simp add: calm_def)

lemma calm_ticked: "ticked s s' \<Longrightarrow> core_inv env s \<Longrightarrow> calm env s s'"
  by (simp add: calm_def ticked_simps)

lemma wp_check_backoff:
  "wp (check_backoff env sc) (\<lambda>_ s'. ticked s s')
     (\<lambda>e s'. (e = RateLimited \<or> e = Unavailable) \<and> ticked s s') s"
  by (simp add: check_backoff_def wp_simps Let_def split: option.splits)

lemma wp_record_failure:
  "core_inv env s \<Longrightarrow> wp (record_failure env sc) (\<lambda>_ s'. calm env s s')
     (\<lambda>e s'. e = Unavailable \<and> calm env s s') s"
  by (simp add: record_failure_def wp_simps Let_def calm_def split: option.splits)

lemma calm_backoff: "calm env s s' \<Longrightarrow> calm env s (s'\<lparr>backoff := b\<rparr>)"
  by (simp add: calm_def)

section \<open>Soundness of the operations\<close>

lemma sound_calm:
  assumes inv: "core_inv env s" and env: "env_ok env"
    and rest: "\<And>s1. core_inv env s1 \<Longrightarrow> prepared env s s1 \<Longrightarrow>
      wp m (\<lambda>_. calm env s1) (\<lambda>e s'. guess e = 0 \<and> calm env s1 s') s1"
  shows "sound env s req (and_then (prepare env) (\<lambda>_. m))"
proof (rule sound_prepare [OF inv env])
  fix s1 assume s1: "core_inv env s1" "prepared env s s1"
  show "wp m (\<lambda>_. good env s req 0) (\<lambda>e. good env s req (guess e)) s1"
    by (rule wp_weaken [OF rest [OF s1]]) (auto intro: good_calm [OF s1(2)])
qed

text \<open>The check of the back-off, the verification and the recording of a failure.\<close>

lemma wp_check_backoff_bind:
  assumes "core_inv env s" and "\<And>s'. ticked s s' \<Longrightarrow> wp m Q E s'"
    and "\<And>e s'. e = RateLimited \<or> e = Unavailable \<Longrightarrow> calm env s s' \<Longrightarrow> E e s'"
  shows "wp (and_then (check_backoff env sc) (\<lambda>_. m)) Q E s"
  by (rule wp_bind [OF wp_check_backoff]) (use assms in \<open>auto intro: calm_ticked\<close>)

lemma wp_credential_refused:
  assumes "core_inv env s" and "\<And>e s'. e = InvalidCredential \<or> e = Unavailable \<Longrightarrow> calm env s s' \<Longrightarrow> E e s'"
  shows "wp (and_then (record_failure env sc) (\<lambda>_. err InvalidCredential)) Q E s"
  by (rule wp_bind [OF wp_record_failure]) (use assms in \<open>auto simp: wp_err\<close>)

lemma sound_verify_password:
  assumes "core_inv env s" "env_ok env"
  shows "sound env s (VerifyPassword uid pw) (verify_password env uid pw)"
  unfolding verify_password_def
proof (rule sound_calm [OF assms])
  fix s1 assume inv: "core_inv env s1"
  have attempt: "wp (and_then (check_backoff env sc) (\<lambda>_. and_then (verify env pw ph) (\<lambda>matched.
         if matched then record_success sc
         else and_then (record_failure env sc) (\<lambda>_. err InvalidCredential))))
      (\<lambda>_. calm env s1) (\<lambda>e s'. guess e = 0 \<and> calm env s1 s') s1" for sc ph
  proof (rule wp_check_backoff_bind [OF inv])
    fix s2 assume s2: "ticked s1 s2"
    then have "calm env s1 s2" "core_inv env s2" using inv by (simp_all add: calm_ticked ticked_simps)
    then show "wp (and_then (verify env pw ph) (\<lambda>matched.
         if matched then record_success sc
         else and_then (record_failure env sc) (\<lambda>_. err InvalidCredential)))
        (\<lambda>_. calm env s1) (\<lambda>e s'. guess e = 0 \<and> calm env s1 s') s2"
      by (auto simp: wp_and_then [where m = "verify env pw ph"] wp_verify wp_if wp_record_success calm_backoff
          split: option.splits intro!: wp_credential_refused intro: calm_trans)
  qed auto
  show "wp (and_then (lift_res (check_password_bound pw)) (\<lambda>_. and_then get_st (\<lambda>s.
     case persisted s of
       Some (Enrolled ph _) \<Rightarrow>
         and_then (check_backoff env (Password uid)) (\<lambda>_.
         and_then (verify env pw ph) (\<lambda>matched.
         if matched then record_success (Password uid)
         else and_then (record_failure env (Password uid)) (\<lambda>_. err InvalidCredential)))
     | Some (EnrolledUnconfirmed _ _ _) \<Rightarrow> err EnrollmentUnconfirmed
     | _ \<Rightarrow> err NotEnrolled)))
     (\<lambda>_. calm env s1) (\<lambda>e s'. guess e = 0 \<and> calm env s1 s') s1"
    using inv attempt by (auto simp: wp_and_then [where m = "lift_res r" for r] wp_and_then [where m = get_st]
        wp_lift_res wp_get_st check_password_bound_def wp_err calm_refl split: option.splits persisted.splits)
qed

lemma sound_queries:
  assumes "core_inv env s" "env_ok env"
  shows "sound env s GetPendingPairing (get_pending_pairing env)"
    and "sound env s GetEnrollmentState (get_enrollment_state env)"
  unfolding get_pending_pairing_def get_enrollment_state_def
  by (rule sound_calm [OF assms]; simp add: wp_simps calm_refl)+

lemma sound_cancel:
  assumes "core_inv env s" "env_ok env"
  shows "sound env s CancelPendingPairing (cancel_pending_pairing env)"
  unfolding cancel_pending_pairing_def
proof (rule sound_prepare [OF assms])
  fix s1 assume s1: "core_inv env s1" "prepared env s s1"
  then show "wp (modify (\<lambda>s. s\<lparr>pending := None\<rparr>)) (\<lambda>_. good env s CancelPendingPairing 0)
      (\<lambda>e. good env s CancelPendingPairing (guess e)) s1"
    by (auto simp: wp_modify good_def budget_def core_inv_unpair intro: prepared_step)
qed

lemma sound_reset:
  assumes "core_inv env s" "env_ok env"
  shows "sound env s ResetEnrollment (reset_enrollment env)"
  unfolding reset_enrollment_def
proof (rule wp_bind [OF wp_discard_provisional [OF assms]])
  fix s1 u assume s1: "core_inv env s1 \<and> persisted s1 = Some Unenrolled \<and> pending s1 = pending s \<and> backoff s1 = backoff s
        \<and> tick (files s) \<le> tick (files s1)"
  then show "wp (modify (\<lambda>s. s\<lparr>pending := None, expired_provisional := False, backoff := Map.empty\<rparr>))
      (\<lambda>_. good env s ResetEnrollment 0) (\<lambda>e. good env s ResetEnrollment (guess e)) s1"
    by (auto simp: wp_modify good_def budget_def core_inv_def core_disk_def core_mem_def intro: enrollment_step.reset)
qed (auto intro: good_refused)

lemma sound_ensure:
  assumes "core_inv env s" "env_ok env"
  shows "sound env s EnsurePendingPairing (ensure_pending_pairing env)"
  unfolding ensure_pending_pairing_def
proof (rule sound_prepare [OF assms])
  fix s1 assume s1: "core_inv env s1" "prepared env s s1"
  let ?good = "good env s EnsurePendingPairing"
  have keep: "?good 0 s'" if "core_inv env s'" "tick (files s1) \<le> tick (files s')" "persisted s' = persisted s1" for s'
    using that s1(2) by (auto simp: good_def intro: prepared_step)
  have fresh: "core_inv env (s'\<lparr>pending := Some p, expired_provisional := False\<rparr>)"
    if "core_inv env s'" "persisted s' = Some Unenrolled" "length (code p) = 5" "wrong_attempts p = 0" for s' p
    using that by (simp add: core_inv_def core_disk_def core_mem_def PAIRING_CODE_BYTES_def PAIRING_ATTEMPTS_def)
  show "wp (and_then get_st (\<lambda>s.
     if persisted s \<noteq> Some Unenrolled \<or> pending s \<noteq> None then ok ()
     else
       and_then (boot_now env) (\<lambda>now.
       let expires = now + PAIRING_LIFETIME
       in and_then (random_bytes env PAIRING_CODE_BYTES) (\<lambda>bytes.
          and_then (wall_now env) (\<lambda>w.
          modify (\<lambda>s. s\<lparr>pending := Some \<lparr>code = bytes, expires_boot = expires,
                                         expires_at = w + PAIRING_LIFETIME, wrong_attempts = 0\<rparr>,
                       expired_provisional := False\<rparr>))))))
     (\<lambda>_. ?good 0) (\<lambda>e. ?good (guess e)) s1"
    using s1(1)
    by (auto simp: wp_simps Let_def PAIRING_CODE_BYTES_def intro!: keep fresh split: option.splits)
qed

lemma constant_time_fold:
  fixes l :: "u8 list"
  assumes "length l = length r"
  shows "fold (\<lambda>(a, b) difference. difference OR (a XOR b)) (zip l r) d = 0 \<longleftrightarrow> d = 0 \<and> l = r"
  using assms
proof (induction l r arbitrary: d rule: list_induct2)
  case (Cons a l b r)
  have "a XOR b = 0 \<longleftrightarrow> a = b" by (auto simp: bit_eq_iff bit_xor_iff)
  then have "d OR (a XOR b) = 0 \<longleftrightarrow> d = 0 \<and> a = b" by (simp add: or_eq_0_iff)
  with Cons.IH show ?case by auto
qed simp

lemma constant_time_eq_iff: "constant_time_eq l r \<longleftrightarrow> l = r"
  using constant_time_fold [of l r 0] by (auto simp: constant_time_eq_def)

lemma wrong_attempts_Suc:
  assumes "n < PAIRING_ATTEMPTS"
  shows "unat (n + 1) = Suc (unat n)"
proof -
  have "unat n < 5" using assms by (simp add: PAIRING_ATTEMPTS_def word_less_nat_alt)
  then show ?thesis by (simp add: unat_word_ariths)
qed

text \<open>The enrollment proper, once the submitted code is the code of the pairing.\<close>

lemma wp_enroll:
  assumes env: "env_ok env" and inv: "core_inv env s1"
    and Q: "\<And>key ph rh w t. PASSWORD_MIN_CODE_POINTS \<le> chars_count pw \<Longrightarrow>
      parse_pairing_code pw \<noteq> Some c \<Longrightarrow> length key = RECOVERY_KEY_BYTES \<Longrightarrow> \<not> password_equals_key pw key \<Longrightarrow>
      hash_of env pw ph \<Longrightarrow> hash_of env (encode_recovery_key key) rh \<Longrightarrow>
      holds (store env) {EnrolledUnconfirmed ph rh (wall env t + CONFIRMATION_WINDOW)} w \<Longrightarrow>
      tick (files s1) \<le> t \<Longrightarrow> t < tick w \<Longrightarrow>
      Q (encode_recovery_key key) (s1\<lparr>files := w,
         persisted := Some (EnrolledUnconfirmed ph rh (wall env t + CONFIRMATION_WINDOW)), pending := None,
         expired_provisional := False\<rparr>)"
    and E: "\<And>e s'. e = PasswordRejected \<or> e = Unavailable \<Longrightarrow> core_inv env s' \<Longrightarrow> refused s1 s' \<Longrightarrow> E e s'"
  shows "wp (enroll env c pw) Q E s1"
proof -
  have refused: "E e s'" if "e = PasswordRejected \<or> e = Unavailable" "ticked s1 s'" for e s'
    using that inv ticked_simps [OF that(2)] by (intro E) (auto simp: refused_def)
  have finish: "wp (and_then (wall_now env) (\<lambda>now.
            and_then (commit env (EnrolledUnconfirmed ph rh (now + CONFIRMATION_WINDOW))) (\<lambda>_.
            and_then (modify (\<lambda>s. s\<lparr>pending := None, expired_provisional := False\<rparr>)) (\<lambda>_.
            ok (encode_recovery_key key))))) Q E s2"
    if s2: "ticked s1 s2" and ph: "hash_of env pw ph" and rh: "hash_of env (encode_recovery_key key) rh"
      and pw: "PASSWORD_MIN_CODE_POINTS \<le> chars_count pw" "parse_pairing_code pw \<noteq> Some c"
        "\<not> password_equals_key pw key" and key: "length key = RECOVERY_KEY_BYTES" for s2 ph rh key
  proof -
    obtain t where t: "s2 = s1\<lparr>files := (files s1)\<lparr>tick := t\<rparr>\<rparr>" "tick (files s1) \<le> t"
      using s2 by (auto simp: ticked_def)
    let ?s3 = "s1\<lparr>files := (files s1)\<lparr>tick := Suc t\<rparr>\<rparr>"
    have inv3: "core_inv env ?s3" using inv by simp
    have stor: "storable (store env) (EnrolledUnconfirmed ph rh d)" for d using ph rh by (simp add: hash_of_valid)
    show ?thesis
      unfolding wp_and_then wp_wall_now t(1)
      apply simp
      apply (rule wp_weaken [OF wp_commit [OF inv3 env stor]])
      using Q [OF _ pw(2) key pw(3) ph rh] t(2) pw(1)
       apply (force simp: wp_and_then_fun wp_modify_fun wp_ok)
      using t(2) by (force intro!: E simp: refused_def)
  qed
  have hashes: "wp (and_then (hash env pw) (\<lambda>ph. and_then (hash env (encode_recovery_key key)) (\<lambda>rh.
      and_then (wall_now env) (\<lambda>now.
            and_then (commit env (EnrolledUnconfirmed ph rh (now + CONFIRMATION_WINDOW))) (\<lambda>_.
            and_then (modify (\<lambda>s. s\<lparr>pending := None, expired_provisional := False\<rparr>)) (\<lambda>_.
            ok (encode_recovery_key key))))))) Q E s2"
    if s2: "ticked s1 s2" and pw: "PASSWORD_MIN_CODE_POINTS \<le> chars_count pw" "parse_pairing_code pw \<noteq> Some c"
        "\<not> password_equals_key pw key" and key: "length key = RECOVERY_KEY_BYTES" for s2 key
    by (rule wp_bind [OF wp_hash [OF env]], rule wp_bind [OF wp_hash [OF env]], rule finish)
      (use s2 pw key in \<open>auto intro: refused ticked_trans\<close>)
  show ?thesis
    using refused [OF _ ticked_refl] refused [OF _ ticked_step] hashes [OF ticked_step]
    by (auto simp: enroll_def wp_and_then [where m = "lift_res r" for r] wp_and_then [where m = "random_bytes e n" for e n]
        wp_lift_res check_new_password_def wp_random_bytes wp_err Let_def wp_if split: option.splits)
qed

lemma good_refused_prepared:
  assumes "prepared env s s1" "core_inv env s'" "refused s1 s'" "n = 0"
  shows "good env s req n s'"
proof -
  have "enrollment_step env s req s'"
    using assms prepared_step [of env s s1 s' req] by (auto simp: refused_def intro: enrollment_step.lost)
  moreover have "budget s' \<le> budget s"
    using assms budget_prepared [of env s s1] by (auto simp: refused_def budget_def)
  ultimately show ?thesis using assms by (simp add: good_def)
qed

lemma prepared_pending:
  assumes "prepared env s s1" "core_inv env s1" "pending s1 = Some p"
  shows "pending s = Some p"
    "\<exists>t b. between s t s1 \<and> boot env t = Some b \<and> b < expires_boot p"
  using assms by (auto simp: prepared_def)

lemma wp_wrong_code:
  assumes inv: "core_inv env s1" and prep: "prepared env s s1" and p: "pending s1 = Some p"
  shows "wp (reject_code p)
      Q (\<lambda>e. good env s (ConsumePairing input pw) (guess e)) s1"
proof -
  note att = core_inv_pending(3) [OF inv p]
  have step: "unat (wrong_attempts p + 1) = Suc (unat (wrong_attempts p))" by (rule wrong_attempts_Suc [OF att])
  have lt: "unat (wrong_attempts p) < 5" using att by (simp add: PAIRING_ATTEMPTS_def word_less_nat_alt)
  have b: "budget s = 5 - unat (wrong_attempts p)"
    using prepared_pending(1) [OF prep inv p] by (simp add: budget_def PAIRING_ATTEMPTS_def)
  have "enrollment_step env s (ConsumePairing input pw) (s1\<lparr>pending := x\<rparr>)" for x
    by (rule prepared_step [OF prep]) simp_all
  moreover have "core_inv env (s1\<lparr>pending := Some (p\<lparr>wrong_attempts := wrong_attempts p + 1\<rparr>)\<rparr>)"
    if "\<not> PAIRING_ATTEMPTS \<le> wrong_attempts p + 1"
    using core_inv_pair [OF inv core_inv_pending(1) [OF inv p], of "p\<lparr>wrong_attempts := wrong_attempts p + 1\<rparr>"]
      core_inv_pending(2) [OF inv p] that by simp
  ultimately show ?thesis
    using core_inv_unpair [OF inv] lt b step
    by (auto simp: reject_code_def wp_simps Let_def good_def budget_def PAIRING_ATTEMPTS_def)
qed

lemma sound_consume_pairing:
  assumes inv: "core_inv env s" and env: "env_ok env"
  shows "sound env s (ConsumePairing input pw) (consume_pairing env input pw)"
  unfolding consume_pairing_def
proof (rule sound_prepare [OF inv env])
  fix s1 assume s1: "core_inv env s1" "prepared env s s1"
  let ?req = "ConsumePairing input pw"
  have stop: "good env s ?req n s1" if "n = 0" for n
    using that calm_refl [OF s1(1)] by (rule good_calm [OF s1(2), rotated])
  have enrolls: "wp (enroll env (code p) pw) (\<lambda>_. good env s ?req 0) (\<lambda>e. good env s ?req (guess e)) s1"
    if p: "pending s1 = Some p" and parsed: "parse_pairing_code input = Some (code p)"
      and len: "length pw \<le> PASSWORD_MAX_BYTES" for p
  proof (rule wp_enroll [OF env s1(1)])
    fix e s' assume "e = PasswordRejected \<or> e = Unavailable" "core_inv env s'" "refused s1 s'"
    then show "good env s ?req (guess e) s'" by (auto intro: good_refused_prepared [OF s1(2)])
  next
    fix key ph rh w t
    assume a: "PASSWORD_MIN_CODE_POINTS \<le> chars_count pw" "parse_pairing_code pw \<noteq> Some (code p)"
      "length key = RECOVERY_KEY_BYTES" "\<not> password_equals_key pw key"
      "hash_of env pw ph" "hash_of env (encode_recovery_key key) rh"
      "holds (store env) {EnrolledUnconfirmed ph rh (wall env t + CONFIRMATION_WINDOW)} w"
      "tick (files s1) \<le> t" "t < tick w"
    let ?s' = "s1\<lparr>files := w, persisted := Some (EnrolledUnconfirmed ph rh (wall env t + CONFIRMATION_WINDOW)),
      pending := None, expired_provisional := False\<rparr>"
    obtain t0 b where t0: "between s t0 s1" "boot env t0 = Some b" "b < expires_boot p"
      using prepared_pending(2) [OF s1(2,1) p] by blast
    have "persisted s = Some Unenrolled" using prepared_pending(1) [OF s1(2,1) p] core_inv_pending(1) [OF inv] by blast
    moreover have "between s t0 ?s'" "between s t ?s'"
      using t0(1) a(8,9) s1(2) by (auto simp: between_def prepared_def)
    ultimately have "enrollment_step env s ?req ?s'"
      using prepared_pending(1) [OF s1(2,1) p] parsed t0 a len
      by (intro enrollment_step.pair [where p = p and t = t0 and b = b and key = key and t' = t])
        (simp_all add: acceptable_def)
    moreover have "core_inv env ?s'"
      using a s1(1) by (simp add: core_inv_def core_disk_def core_mem_def hash_of_valid)
    ultimately show "good env s ?req 0 ?s'" by (simp add: good_def budget_def)
  qed
  show "wp (and_then (lift_res (check_password_bound pw)) (\<lambda>_.
     if CODE_MAX_BYTES < length input then err InvalidArgument
     else
       and_then (lift_res (ok_or InvalidArgument (parse_pairing_code input))) (\<lambda>submitted.
       and_then get_st (\<lambda>s.
       case persisted s of
         Some (Enrolled _ _) \<Rightarrow> err AlreadyEnrolled
       | Some (EnrolledUnconfirmed _ _ _) \<Rightarrow> err EnrollmentUnconfirmed
       | _ \<Rightarrow>
           and_then (lift_res (ok_or NoPendingPairing (pending s))) (\<lambda>p.
           if \<not> constant_time_eq submitted (code p)
           then reject_code p
           else enroll env (code p) pw)))))
      (\<lambda>_. good env s ?req 0) (\<lambda>e. good env s ?req (guess e)) s1"
    using wp_wrong_code [OF s1] enrolls stop
    by (auto simp: wp_and_then [where m = "lift_res r" for r] wp_and_then [where m = get_st] wp_lift_res wp_get_st
        wp_err check_password_bound_def constant_time_eq_iff wp_if
        split: option.splits persisted.splits)
qed

lemma prepared_ticked:
  assumes p: "prepared env s s1" and t: "ticked s1 s2"
  shows "prepared env s s2"
proof -
  note eq = ticked_simps [OF t]
  have widen: "between s u s2" if "between s u s1" for u using that eq(6) by (rule between_mono)
  show ?thesis
    using p eq(6) unfolding prepared_def eq(1-4) by (auto 0 4 dest: widen)
qed

lemma refused_ticked: "ticked s1 s2 \<Longrightarrow> refused s2 s' \<Longrightarrow> refused s1 s'"
  using ticked_simps [of s1 s2] by (auto simp: refused_def)

lemma prepared_provisional:
  assumes "prepared env s s1" "persisted s1 = Some (EnrolledUnconfirmed ph rh d)"
  shows "persisted s = Some (EnrolledUnconfirmed ph rh d)" "expired_provisional s1 = expired_provisional s"
    "\<exists>t. between s t s1 \<and> \<not> deadline_expired d (wall env t)"
  using assms by (auto simp: prepared_def)

lemma prepared_again:
  assumes "prepared env s s1" "prepared env s1 s2" "persisted s1 = Some (EnrolledUnconfirmed ph rh d)"
  shows "prepared env s s2"
proof -
  have "tick (files s) \<le> tick (files s1)" using assms(1) by (simp add: prepared_def)
  then have widen: "between s t s2" if "between s1 t s2" for t using that by (simp add: between_def)
  show ?thesis
    using assms(2) prepared_provisional [OF assms(1,3)] assms(1) unfolding prepared_def
    by (auto 0 4 dest: widen simp: assms(3))
qed

lemma wp_finalize:
  assumes env: "env_ok env" and s3: "core_inv env s3" "prepared env s s3"
    and st3: "persisted s3 = Some (EnrolledUnconfirmed ph rh d)" and m: "verifies env key rh"
  shows "wp (and_then (commit env (Enrolled ph rh)) (\<lambda>_. record_success Confirmation))
    (\<lambda>_. good env s (ConfirmRecoveryKey key) 0) (\<lambda>e. good env s (ConfirmRecoveryKey key) (guess e)) s3"
proof (rule wp_bind [OF wp_commit [OF s3(1) env]])
  let ?req = "ConfirmRecoveryKey key"
  note st0 = prepared_provisional [OF s3(2) st3]
  have stor: "storable (store env) (EnrolledUnconfirmed ph rh d)"
    using s3(1) st3 by (rule core_inv_storable)
  then show "storable (store env) (Enrolled ph rh)" by simp
  have none: "pending s3 = None" using core_inv_pending(1) [OF s3(1)] st3 by (cases "pending s3") auto
  fix s4 v assume "\<exists>w. s4 = s3\<lparr>files := w, persisted := Some (Enrolled ph rh)\<rparr> \<and>
    holds (store env) {Enrolled ph rh} w \<and> tick (files s3) \<le> tick w"
  then obtain w where w: "s4 = s3\<lparr>files := w, persisted := Some (Enrolled ph rh)\<rparr>"
    "holds (store env) {Enrolled ph rh} w" "tick (files s3) \<le> tick w" by blast
  obtain t where t: "between s t s3" "\<not> deadline_expired d (wall env t)" using st0(3) by blast
  have "core_inv env s4" unfolding w(1)
    using s3 stor w(2) none by (intro core_inv_committed) (auto simp: is_provisional_def)
  moreover have "enrollment_step env s ?req (s4\<lparr>backoff := b\<rparr>)" for b
    using m t w st0(1) by (intro enrollment_step.confirm [where t = t]) (auto simp: between_def)
  ultimately show "wp (record_success Confirmation) (\<lambda>_. good env s ?req 0) (\<lambda>e. good env s ?req (guess e)) s4"
    using none by (simp add: wp_record_success good_def budget_def w(1))
next
  fix e s' assume "e = Unavailable \<and> core_inv env s' \<and> (\<exists>w. tick (files s3) \<le> tick w \<and>
    (s' = s3\<lparr>files := w\<rparr> \<or> s' = s3\<lparr>files := w, persisted := None, pending := None\<rparr>))"
  then show "good env s (ConfirmRecoveryKey key) (guess e) s'"
    by (intro good_refused_prepared [OF s3(2)]) (auto simp: refused_def)
qed

lemma wp_finish_confirmation:
  assumes env: "env_ok env" and s2: "core_inv env s2" "prepared env s s2"
    and st2: "persisted s2 = Some (EnrolledUnconfirmed ph rh d)" and m: "matches \<Longrightarrow> verifies env key rh"
  shows "wp (finish_confirmation env ph rh matches)
    (\<lambda>_. good env s (ConfirmRecoveryKey key) 0) (\<lambda>e. good env s (ConfirmRecoveryKey key) (guess e)) s2"
  unfolding finish_confirmation_def
proof (rule wp_bind [OF wp_prepare [OF s2(1) env]])
  let ?req = "ConfirmRecoveryKey key"
  fix s3 u assume s3: "core_inv env s3 \<and> prepared env s2 s3"
  then have p3: "prepared env s s3" by (auto intro: prepared_again [OF s2(2) _ st2])
  have calm3: "good env s ?req n s'" if "calm env s3 s'" "n = 0" for n s'
    using that by (rule good_calm [OF p3])
  have st3: "persisted s3 = Some (EnrolledUnconfirmed ph rh d)"
    if "\<not> (expired_provisional s3 \<and> \<not> is_provisional (persisted s3))"
    using s3 st2 that by (auto simp: prepared_def is_provisional_def)
  show "wp (and_then get_st (\<lambda>s.
       if expired_provisional s \<and> \<not> is_provisional (persisted s) then err ConfirmationExpired
       else if \<not> matches then and_then (record_failure env Confirmation) (\<lambda>_. err InvalidCredential)
       else and_then (commit env (Enrolled ph rh)) (\<lambda>_. record_success Confirmation)))
     (\<lambda>_. good env s ?req 0) (\<lambda>e. good env s ?req (guess e)) s3"
    using wp_finalize [OF env _ p3 st3 m] calm3 [OF calm_refl] s3
    by (auto simp: wp_and_then [where m = get_st] wp_get_st wp_if wp_err
        intro!: wp_credential_refused [where s = s3] intro: calm3)
qed (auto intro: good_refused_prepared [OF s2(2)])

lemma sound_confirm:
  assumes inv: "core_inv env s" and env: "env_ok env"
  shows "sound env s (ConfirmRecoveryKey key) (confirm_recovery_key env key)"
  unfolding confirm_recovery_key_def
proof (rule sound_prepare [OF inv env])
  fix s1 assume s1: "core_inv env s1" "prepared env s s1"
  let ?req = "ConfirmRecoveryKey key"
  have stop: "good env s ?req n s'" if "calm env s1 s'" "n = 0" for n s'
    using that by (rule good_calm [OF s1(2)])
  have finish: "wp (finish_confirmation env ph rh matches) (\<lambda>_. good env s ?req 0) (\<lambda>e. good env s ?req (guess e)) s2"
    if "ticked s1 s2" "persisted s1 = Some (EnrolledUnconfirmed ph rh d)" "matches \<Longrightarrow> verifies env key rh"
    for s2 ph rh d matches
    using that s1 by (intro wp_finish_confirmation [OF env]) (auto simp: ticked_simps intro: prepared_ticked)
  have body: "wp (and_then (check_backoff env Confirmation) (\<lambda>_. and_then (verify env key rh) (finish_confirmation env ph rh)))
      (\<lambda>_. good env s ?req 0) (\<lambda>e. good env s ?req (guess e)) s1"
    if "persisted s1 = Some (EnrolledUnconfirmed ph rh d)" for ph rh d
    using finish [OF _ that] s1(1)
    by (intro wp_check_backoff_bind [OF s1(1)])
      (auto simp: wp_and_then [where m = "verify e k h" for e k h] wp_verify intro: stop calm_ticked split: option.splits)
  show "wp (and_then (lift_res (machine_parse_recovery_key key)) (\<lambda>_.
     and_then get_st (\<lambda>s.
     case persisted s of
       Some (EnrolledUnconfirmed ph rh _) \<Rightarrow>
         and_then (check_backoff env Confirmation) (\<lambda>_. and_then (verify env key rh) (finish_confirmation env ph rh))
     | _ \<Rightarrow> if expired_provisional s then err ConfirmationExpired else err NoProvisionalEnrollment)))
      (\<lambda>_. good env s ?req 0) (\<lambda>e. good env s ?req (guess e)) s1"
    using body stop [OF calm_refl [OF s1(1)]]
    by (auto simp: wp_and_then [where m = "lift_res r" for r] wp_and_then [where m = get_st] wp_lift_res wp_get_st
        wp_err machine_parse_recovery_key_def split: option.splits persisted.splits)
qed

lemma good_kept:
  assumes "core_inv env s'" "persisted s' = persisted s \<or> persisted s' = None" "persisted s \<noteq> Some Unenrolled" "n = 0"
  shows "good env s req n s'"
proof -
  have "pending s' = None" using assms core_inv_pending(1) [OF assms(1)] by (cases "pending s'") auto
  then show ?thesis
    using assms by (auto simp: good_def budget_def intro: enrollment_step.unchanged enrollment_step.lost)
qed

lemma wp_change_password:
  assumes env: "env_ok env" and inv: "core_inv env s2" and st: "persisted s = Some (Enrolled ph rh)"
    "persisted s2 = Some (Enrolled ph rh)" and m: "verifies env key rh" and pw: "acceptable pw"
  shows "wp (and_then (hash env pw) (\<lambda>ph'. commit env (Enrolled ph' rh)))
    (\<lambda>_. good env s (RecoverPassword key pw) 0) (\<lambda>e. good env s (RecoverPassword key pw) (guess e)) s2"
proof (rule wp_bind [OF wp_hash [OF env]])
  let ?req = "RecoverPassword key pw"
  fix ph' s3 assume "hash_of env pw ph' \<and> ticked s2 s3"
  then have h: "hash_of env pw ph'" and inv3: "core_inv env s3" and st3: "persisted s3 = Some (Enrolled ph rh)"
    using inv st by (auto simp: ticked_simps [where s = s2 and s' = s3])
  have none: "pending s3 = None" using core_inv_pending(1) [OF inv3] st3 by (cases "pending s3") auto
  have stor: "storable (store env) (Enrolled ph' rh)"
    using core_inv_storable [OF inv3 st3] hash_of_valid [OF h] by simp
  show "wp (commit env (Enrolled ph' rh)) (\<lambda>_. good env s ?req 0) (\<lambda>e. good env s ?req (guess e)) s3"
  proof (rule wp_weaken [OF wp_commit [OF inv3 env stor]])
    fix u s' assume "\<exists>w. s' = s3\<lparr>files := w, persisted := Some (Enrolled ph' rh)\<rparr> \<and>
      holds (store env) {Enrolled ph' rh} w \<and> tick (files s3) \<le> tick w"
    then obtain w where w: "s' = s3\<lparr>files := w, persisted := Some (Enrolled ph' rh)\<rparr>"
      "holds (store env) {Enrolled ph' rh} w" by blast
    have "core_inv env s'" unfolding w(1)
      using inv3 stor w(2) none by (intro core_inv_committed) (auto simp: is_provisional_def)
    moreover have "enrollment_step env s ?req s'"
      using m pw h st w(1) by (intro enrollment_step.recover) auto
    ultimately show "good env s ?req 0 s'" using none by (simp add: good_def budget_def w(1))
  qed (auto intro!: good_kept simp: st st3)
next
  fix e s' assume "e = Unavailable \<and> ticked s2 s'"
  then show "good env s (RecoverPassword key pw) (guess e) s'"
    by (auto intro!: good_kept simp: st inv ticked_simps [where s = s2 and s' = s'])
qed

lemma sound_recover_password:
  assumes inv: "core_inv env s" and env: "env_ok env"
  shows "sound env s (RecoverPassword key pw) (recover_password env key pw)"
  unfolding recover_password_def
proof (rule sound_prepare [OF inv env])
  fix s1 assume s1: "core_inv env s1" "prepared env s s1"
  let ?req = "RecoverPassword key pw"
  let ?good = "\<lambda>m. wp m (\<lambda>_. good env s ?req 0) (\<lambda>e. good env s ?req (guess e))"
  have stop: "good env s ?req n s'" if "calm env s1 s'" "n = 0" for n s'
    using that by (rule good_calm [OF s1(2)])
  let ?wrong = "and_then (record_failure env Recovery) (\<lambda>_. err InvalidCredential) :: unit core_op"
  have wrong: "?good ?wrong s2" if "ticked s1 s2" for s2
    by (rule wp_credential_refused)
      (use that s1(1) in \<open>auto simp: ticked_simps intro!: stop intro: calm_trans calm_ticked\<close>)
  have right: "?good (replace_password env bytes rh pw) s2"
    if t: "ticked s1 s2" and st: "persisted s1 = Some (Enrolled ph rh)" and m: "verifies env key rh"
      and len: "length pw \<le> PASSWORD_MAX_BYTES" for s2 ph rh bytes
  proof -
    have st0: "persisted s = Some (Enrolled ph rh)" using s1(2) st by (auto simp: prepared_def)
    have s2: "core_inv env s2" "calm env s1 s2" "persisted s2 = Some (Enrolled ph rh)"
      using t s1 st by (simp_all add: ticked_simps calm_ticked)
    then show ?thesis
      using wp_change_password [OF env _ st0 _ m, of "s2\<lparr>backoff := (backoff s2)(Recovery := None)\<rparr>" pw] stop len
      by (auto simp: replace_password_def wp_and_then [where m = "record_success sc" for sc] wp_and_then [where m = "lift_res r" for r]
          wp_record_success wp_lift_res wp_err check_new_password_def calm_backoff acceptable_def)
  qed
  have body: "?good (and_then (check_backoff env Recovery) (\<lambda>_.
         and_then (verify env key rh) (\<lambda>matched. if \<not> matched then ?wrong else replace_password env bytes rh pw))) s1"
    if "persisted s1 = Some (Enrolled ph rh)" "length pw \<le> PASSWORD_MAX_BYTES" for ph rh bytes
    using right [OF _ that(1) _ that(2)] wrong s1(1)
    by (intro wp_check_backoff_bind [OF s1(1)])
      (auto simp: wp_and_then [where m = "verify e k h" for e k h] wp_verify wp_if
        intro: stop calm_ticked split: option.splits)
  show "?good (and_then (lift_res (machine_parse_recovery_key key)) (\<lambda>bytes.
     and_then (lift_res (check_password_bound pw)) (\<lambda>_.
     and_then get_st (\<lambda>s.
     case persisted s of
       Some (Enrolled _ rh) \<Rightarrow> and_then (check_backoff env Recovery) (\<lambda>_.
         and_then (verify env key rh) (\<lambda>matched. if \<not> matched then ?wrong else replace_password env bytes rh pw))
     | Some (EnrolledUnconfirmed _ _ _) \<Rightarrow> err EnrollmentUnconfirmed
     | _ \<Rightarrow> err NotEnrolled)))) s1"
    using body stop [OF calm_refl [OF s1(1)]]
    by (auto simp: wp_and_then [where m = "lift_res r" for r] wp_and_then [where m = get_st] wp_lift_res wp_get_st
        wp_err machine_parse_recovery_key_def check_password_bound_def split: option.splits persisted.splits)
qed

end
