(* ===== verification/Lifecycle.thy ===== *)
theory Lifecycle
  imports Machine
begin

text \<open>
  The state machine as a whole: the requests it serves, the states reachable through requests, restarts
  and crashes, and the properties of the enrollment life cycle.
\<close>

section \<open>Requests and reachable states\<close>

datatype reply = Done | Key string | Pending bool string u64 | Enrollment bool bool

fun execute :: "machine_env \<Rightarrow> request \<Rightarrow> reply core_op" where
  "execute env (VerifyPassword uid pw) = and_then (verify_password env uid pw) (\<lambda>_. ok Done)"
| "execute env (ConsumePairing input pw) = and_then (consume_pairing env input pw) (\<lambda>key. ok (Key key))"
| "execute env (ConfirmRecoveryKey key) = and_then (confirm_recovery_key env key) (\<lambda>_. ok Done)"
| "execute env (RecoverPassword key pw) = and_then (recover_password env key pw) (\<lambda>_. ok Done)"
| "execute env EnsurePendingPairing = and_then (ensure_pending_pairing env) (\<lambda>_. ok Done)"
| "execute env CancelPendingPairing = and_then (cancel_pending_pairing env) (\<lambda>_. ok Done)"
| "execute env ResetEnrollment = and_then (reset_enrollment env) (\<lambda>_. ok Done)"
| "execute env GetPendingPairing = and_then (get_pending_pairing env) (\<lambda>(p, c, e). ok (Pending p c e))"
| "execute env GetEnrollmentState = and_then (get_enrollment_state env) (\<lambda>(e, p). ok (Enrollment e p))"

text \<open>A run: the daemon starts on a settled directory, serves requests, and the machine may crash at any
  time and start again on what survived; the daemon alone may be restarted while it knows its state.\<close>

inductive reachable :: "machine_env \<Rightarrow> core \<Rightarrow> bool" for env where
  start: "settled (store env) w \<Longrightarrow> reachable env (open_core env w)"
| serve: "reachable env s \<Longrightarrow> reachable env (snd (execute env req s))"
| restart: "reachable env s \<Longrightarrow> persisted s \<noteq> None \<Longrightarrow> reachable env (open_core env (files s))"
| crash: "reachable env s \<Longrightarrow> survives (files s) d \<Longrightarrow>
    reachable env (open_core env (after_crash d\<lparr>tick := t\<rparr>))"

lemma sound_map_ok:
  assumes "sound env s req m"
  shows "sound env s req (and_then m (\<lambda>x. ok (f x)))"
  using assms by (auto simp: wp_def and_then_def ok_def split: prod.splits sum.splits)

lemma sound_execute:
  assumes "core_inv env s" "env_ok env"
  shows "sound env s req (execute env req)"
  by (cases req) (auto intro!: sound_map_ok sound_verify_password sound_consume_pairing sound_confirm
      sound_recover_password sound_ensure sound_cancel sound_reset sound_queries assms simp: case_prod_unfold)

section \<open>Startup\<close>

lemma wp_remove_stale:
  assumes "entry_in env S w"
  shows "wp (remove_stale_temporary env) (\<lambda>_. entry_in env S) (\<lambda>_. entry_in env S) w"
  using assms entry_in_disk [OF assms]
  by (auto simp: remove_stale_temporary_def wp_simps Let_def split: sum.splits)

lemma wp_load_settled:
  assumes e: "entry_in env {e} w" "e \<in> synced_entries"
  shows "wp (load env) (\<lambda>st w'. storable env st \<and> holds env {st} w') (\<lambda>_. ready env) w"
proof -
  have disk: "map_of (disk w) (state_path env) = e" using entry_in_disk(2) [OF e(1)] by simp
  have ready: "ready env w" using e by (auto simp: ready_def intro: entry_in_mono)
  have found: "storable env st \<and> holds env {st} w" if "stat (disk w) (state_path env) = Inr (File c b)"
    and "parse_state env c = Inr st" for c b st
  proof -
    have "e = Some (File c True)" using that(1) disk e(2) by (cases b) (auto simp: stat_Inr synced_entries_def)
    then have "{e} \<subseteq> entry_holds env st" using that(2) by (auto simp: entry_holds_def)
    moreover have "storable env st" using that(2) by (simp add: parse_state_iff)
    ultimately show ?thesis using e(1) by (auto simp: holds_def intro: entry_in_mono)
  qed
  have missing: "holds env {Unenrolled} w" if "stat (disk w) (state_path env) = Inl NotFound"
  proof -
    have "e = None" using that disk stat_Inl_None by fastforce
    then show ?thesis using e(1) by (auto simp: holds_def entry_holds_def intro: entry_in_mono)
  qed
  show ?thesis
    using found missing ready by (auto simp: wp_load Let_def split: sum.splits node.splits)
qed

lemma wp_load_holds:
  assumes h: "holds env {st} w"
  shows "wp (load env) (\<lambda>st' w'. st' = st \<and> holds env {st} w') (\<lambda>_. ready env) w"
proof (cases "io_fault (io env) (tick w)")
  case True
  then show ?thesis using state_store.holds_usable [OF h] by (simp add: wp_load Let_def)
next
  case False
  have "fst (load env w) = Inr st"
    using h entry_in_disk [of env "entry_holds env st" w] False by (intro load_entry) (auto simp: holds_def)
  moreover have "wp (load env) (\<lambda>_ w'. holds env {st} w') (\<lambda>_ _. True) w"
    using h by (auto simp: wp_load Let_def split: sum.splits node.splits)
  ultimately show ?thesis by (auto simp: wp_def split: prod.splits sum.splits)
qed

text \<open>The directories on which the daemon may start.\<close>

definition startable :: "store_env \<Rightarrow> world \<Rightarrow> bool" where
  "startable env w \<longleftrightarrow> settled env w \<or> (\<exists>st. storable env st \<and> holds env {st} w)"

lemma wp_startup:
  assumes "startable env w"
  shows "wp (and_then (attempt (remove_stale_temporary env)) (\<lambda>_. load env))
    (\<lambda>st w'. storable env st \<and> holds env {st} w') (\<lambda>_. ready env) w"
    and "wp (remove_stale_temporary env) (\<lambda>_. ready env) (\<lambda>_. ready env) w"
proof -
  have "wp (and_then (attempt (remove_stale_temporary env)) (\<lambda>_. load env))
      (\<lambda>st w'. storable env st \<and> holds env {st} w') (\<lambda>_. ready env) w \<and>
    wp (remove_stale_temporary env) (\<lambda>_. ready env) (\<lambda>_. ready env) w"
    using assms unfolding startable_def settled_def
  proof (elim disjE exE bexE conjE)
    fix e assume e: "e \<in> synced_entries" "entry_in env {e} w"
    show ?thesis
      unfolding wp_and_then wp_attempt
      by (intro conjI; rule wp_weaken [OF wp_remove_stale [OF e(2)]])
        (use e(1) in \<open>auto intro: wp_load_settled entry_in_mono simp: ready_def\<close>)
  next
    fix st assume st: "storable env st" "holds env {st} w"
    then have h: "wp (load env) (\<lambda>st w'. storable env st \<and> holds env {st} w') (\<lambda>_. ready env) w'"
      if "holds env {st} w'" for w' by (intro wp_weaken [OF wp_load_holds [OF that]]) auto
    have stale: "wp (remove_stale_temporary env) (\<lambda>_. holds env {st}) (\<lambda>_. holds env {st}) w"
      using wp_remove_stale [OF st(2) [unfolded holds_def]] by (simp add: wp_def holds_def)
    show ?thesis
      unfolding wp_and_then wp_attempt
      by (intro conjI; rule wp_weaken [OF stale])
        (auto intro: h state_store.holds_usable)
  qed
  then show "wp (and_then (attempt (remove_stale_temporary env)) (\<lambda>_. load env))
      (\<lambda>st w'. storable env st \<and> holds env {st} w') (\<lambda>_. ready env) w"
    "wp (remove_stale_temporary env) (\<lambda>_. ready env) (\<lambda>_. ready env) w" by blast+
qed

lemma core_inv_open:
  assumes "startable (store env) w" "env_ok env"
  shows "core_inv env (open_core env w)"
proof -
  have fresh: "core_inv env \<lparr>files = w', persisted = l, pending = None, expired_provisional = False, backoff = Map.empty\<rparr>"
    if "case l of None \<Rightarrow> ready (store env) w' | Some st \<Rightarrow> storable (store env) st \<and> holds (store env) {st} w'" for w' l
    using that by (simp add: core_inv_def core_disk_def core_mem_def cong: option.case_cong)
  have prep: "core_inv env (snd (prepare env s))" if "core_inv env s" for s
    unfolding wp_post [symmetric] by (rule wp_weaken [OF wp_prepare [OF that assms(2)]]) auto
  show ?thesis
    using wp_startup [OF assms(1)]
    by (auto simp: open_core_def wp_def and_then_def attempt_def intro!: prep fresh split: prod.splits sum.splits)
qed

lemma reachable_inv:
  assumes "env_ok env" "reachable env s"
  shows "core_inv env s"
  using assms(2)
proof induction
  case (serve s req)
  then show ?case using sound_execute [OF _ assms(1), of s req]
    by (auto simp: wp_def good_def split: prod.splits sum.splits)
next
  case (restart s)
  then have "startable (store env) (files s)"
    by (auto simp: startable_def core_inv_def core_disk_def)
  then show ?case by (rule core_inv_open [OF _ assms(1)])
next
  case (crash s d t)
  then have "settled (store env) (after_crash d\<lparr>tick := t\<rparr>)"
    by (auto intro: settled_after_crash core_inv_ready)
  then show ?case by (intro core_inv_open [OF _ assms(1)]) (simp add: startable_def)
qed (auto intro!: core_inv_open assms(1) simp: startable_def)

section \<open>Back-off\<close>

lemma backoff_delay_eq:
  "unat (backoff_delay n) = (if unat n < 5 then 0 else min (2 ^ (unat n - 5)) 900)"
proof (cases "unat n < 5")
  case True
  then show ?thesis by (simp add: backoff_delay_def BACKOFF_THRESHOLD_def word_less_nat_alt)
next
  case False
  have e: "unat (n - 5) = unat n - 5" using False by (simp add: unat_sub_if')
  have cap: "min (2 ^ (unat n - 5)) 900 = (900::nat)" if "10 \<le> unat n - 5"
  proof -
    have "(2::nat) ^ 10 \<le> 2 ^ (unat n - 5)" using that by (rule power_increasing) simp
    then show ?thesis by simp
  qed
  have small: "unat (push_bit (unat n - 5) 1 :: u64) = 2 ^ (unat n - 5)" if "unat n - 5 < 10"
  proof -
    have "(2::nat) ^ (unat n - 5) \<le> 2 ^ 9" using that by (intro power_increasing) simp_all
    then have le: "(2::nat) ^ (unat n - 5) \<le> 512" by simp
    have "push_bit (unat n - 5) (1 :: u64) = word_of_nat (2 ^ (unat n - 5))" by (simp add: push_bit_eq_mult)
    moreover have "unat (word_of_nat m :: u64) = m" if "m \<le> 512" for m using that by (simp add: unat_of_nat)
    ultimately show ?thesis using le by metis
  qed
  show ?thesis
    using False cap small
    by (auto simp: backoff_delay_def BACKOFF_THRESHOLD_def BACKOFF_CAP_def word_less_nat_alt word_le_nat_alt e Let_def
        min_def)
qed

text \<open>The counter of a scope, and when the scope is blocked.\<close>

definition counter_of :: "core \<Rightarrow> scope \<Rightarrow> counter" where
  "counter_of s sc = (case backoff s sc of None \<Rightarrow> default_counter | Some c \<Rightarrow> c)"

definition blocked_until :: "core \<Rightarrow> scope \<Rightarrow> u64" where
  "blocked_until s sc = saturating_add (last_failure (counter_of s sc)) (backoff_delay (failures (counter_of s sc)))"

lemma wp_check_backoff_exact:
  "wp (check_backoff env sc)
     (\<lambda>_ s'. ticked s s' \<and> (backoff s sc = None \<or> (\<exists>t b. between s t s' \<and> boot env t = Some b \<and> blocked_until s sc \<le> b)))
     (\<lambda>e s'. ticked s s' \<and> (e = Unavailable \<or>
        e = RateLimited \<and> (\<exists>t b. between s t s' \<and> boot env t = Some b \<and> b < blocked_until s sc))) s"
  by (auto simp: check_backoff_def wp_simps Let_def between_def blocked_until_def counter_of_def not_less
      split: option.splits intro!: exI [of _ "tick (files s)"])

lemma wp_record_failure_exact:
  "wp (record_failure env sc)
     (\<lambda>_ s'. \<exists>t b. between s t s' \<and> boot env t = Some b \<and> backoff s' = (backoff s)(sc \<mapsto>
        \<lparr>failures = saturating_add (failures (counter_of s sc)) 1, last_failure = b\<rparr>))
     (\<lambda>e s'. e = Unavailable \<and> failures (counter_of s' sc) = saturating_add (failures (counter_of s sc)) 1) s"
  by (auto simp: record_failure_def wp_simps Let_def between_def counter_of_def fun_eq_iff
      split: option.splits intro!: exI [of _ "tick (files s)"])

text \<open>What each answer to a password says.\<close>

definition login_spec :: "machine_env \<Rightarrow> core \<Rightarrow> u32 \<Rightarrow> string \<Rightarrow> failure + unit \<Rightarrow> core \<Rightarrow> bool" where
  "login_spec env s uid pw r s' \<longleftrightarrow>
     (let sc = Password uid;
          unblocked = (backoff s sc = None \<or> (\<exists>t b. between s t s' \<and> boot env t = Some b \<and> blocked_until s sc \<le> b))
      in case r of
           Inr _ \<Rightarrow> (\<exists>ph rh. persisted s = Some (Enrolled ph rh) \<and> verifies env pw ph) \<and> unblocked \<and>
             backoff s' = (backoff s)(sc := None)
         | Inl InvalidCredential \<Rightarrow>
             (\<exists>ph rh. persisted s = Some (Enrolled ph rh) \<and>
                hasher_verify (argon2 (store env)) (cost env) pw ph = Some False) \<and> unblocked \<and>
             (\<exists>t b. between s t s' \<and> boot env t = Some b \<and> backoff s' = (backoff s)(sc \<mapsto>
                \<lparr>failures = saturating_add (failures (counter_of s sc)) 1, last_failure = b\<rparr>))
         | Inl RateLimited \<Rightarrow>
             backoff s' = backoff s \<and> (\<exists>t b. between s t s' \<and> boot env t = Some b \<and> b < blocked_until s sc)
         | Inl EnrollmentUnconfirmed \<Rightarrow> is_provisional (persisted s')
         | Inl NotEnrolled \<Rightarrow> persisted s' = Some Unenrolled
         | Inl InvalidArgument \<Rightarrow> PASSWORD_MAX_BYTES < length pw
         | Inl e \<Rightarrow> e = Unavailable)"

lemma counter_of_cong: "backoff s = backoff s' \<Longrightarrow> counter_of s = counter_of s'"
  by (simp add: counter_of_def fun_eq_iff)

lemma between_widen: "between s1 t s2 \<Longrightarrow> tick (files s) \<le> tick (files s1) \<Longrightarrow> tick (files s2) \<le> tick (files s3) \<Longrightarrow> between s t s3"
  by (simp add: between_def)

text \<open>The part of a login after the preparation, for an enrolled device.\<close>

lemma wp_login_attempt:
  assumes st: "persisted s = Some (Enrolled ph rh)" and b: "backoff s1 = backoff s" and t: "tick (files s) \<le> tick (files s1)"
  shows "wp (and_then (check_backoff env (Password uid)) (\<lambda>_.
         and_then (verify env pw ph) (\<lambda>matched.
         if matched then record_success (Password uid)
         else and_then (record_failure env (Password uid)) (\<lambda>_. err InvalidCredential))))
     (\<lambda>_. login_spec env s uid pw (Inr ())) (\<lambda>e. login_spec env s uid pw (Inl e)) s1"
proof (rule wp_bind [OF wp_check_backoff_exact])
  let ?sc = "Password uid"
  have same: "blocked_until s1 = blocked_until s" using counter_of_cong [OF b] by (simp add: blocked_until_def fun_eq_iff)
  {
    fix u s2
    assume s2: "ticked s1 s2 \<and> (backoff s1 ?sc = None \<or>
      (\<exists>t b. between s1 t s2 \<and> boot env t = Some b \<and> blocked_until s1 ?sc \<le> b))"
    then have t2: "backoff s2 = backoff s" "tick (files s1) \<le> tick (files s2)"
      using b ticked_simps [of s1 s2] by auto
    have open': "backoff s ?sc = None \<or> (\<exists>t b. between s t s' \<and> boot env t = Some b \<and> blocked_until s ?sc \<le> b)"
      if "tick (files s2) \<le> tick (files s')" for s'
      using s2 t that by (auto simp: b same dest!: between_widen [of s1 _ s2 s s'])
    have counted: "wp (and_then (record_failure env ?sc) (\<lambda>_. err InvalidCredential))
        (\<lambda>_. login_spec env s uid pw (Inr ())) (\<lambda>e. login_spec env s uid pw (Inl e)) s2"
      if "hasher_verify (argon2 (store env)) (cost env) pw ph = Some False"
    proof (rule wp_bind [OF wp_record_failure_exact])
      fix u s3
      assume "\<exists>t b. between s2 t s3 \<and> boot env t = Some b \<and> backoff s3 = (backoff s2)(?sc \<mapsto>
        \<lparr>failures = saturating_add (failures (counter_of s2 ?sc)) 1, last_failure = b\<rparr>)"
      then obtain u b where u: "between s2 u s3" "boot env u = Some b" "backoff s3 = (backoff s)(?sc \<mapsto>
        \<lparr>failures = saturating_add (failures (counter_of s ?sc)) 1, last_failure = b\<rparr>)"
        using counter_of_cong [OF t2(1)] t2(1) by auto
      then have "between s u s3" "tick (files s2) \<le> tick (files s3)" using t t2 by (auto simp: between_def)
      then show "wp (err InvalidCredential) (\<lambda>_. login_spec env s uid pw (Inr ()))
          (\<lambda>e. login_spec env s uid pw (Inl e)) s3"
        using that st u open' [of s3] by (simp add: wp_err login_spec_def Let_def) blast
    qed (simp add: login_spec_def)
    show "wp (and_then (verify env pw ph) (\<lambda>matched.
         if matched then record_success ?sc
         else and_then (record_failure env ?sc) (\<lambda>_. err InvalidCredential)))
        (\<lambda>_. login_spec env s uid pw (Inr ())) (\<lambda>e. login_spec env s uid pw (Inl e)) s2"
      using counted open' [of "s2\<lparr>backoff := (backoff s2)(?sc := None)\<rparr>"] st t2
      by (auto simp: wp_and_then [where m = "verify e k h" for e k h] wp_verify wp_if wp_record_success
          login_spec_def Let_def split: option.splits)
  }
  fix e s' assume e: "ticked s1 s' \<and> (e = Unavailable \<or>
      e = RateLimited \<and> (\<exists>t b. between s1 t s' \<and> boot env t = Some b \<and> b < blocked_until s1 ?sc))"
  then have same': "backoff s' = backoff s" using b ticked_simps(4) by metis
  have "\<exists>t b. between s t s' \<and> boot env t = Some b \<and> b < blocked_until s ?sc" if "e = RateLimited"
    using e that t unfolding same by (metis between_widen failure.distinct order_refl)
  then show "login_spec env s uid pw (Inl e) s'"
    using e same' by (auto simp: login_spec_def Let_def)
qed

lemma wp_verify_password:
  assumes inv: "core_inv env s" and env: "env_ok env"
  shows "wp (verify_password env uid pw) (\<lambda>_. login_spec env s uid pw (Inr ())) (\<lambda>e. login_spec env s uid pw (Inl e)) s"
  unfolding verify_password_def
proof (rule wp_bind [OF wp_prepare [OF inv env]])
  fix u s1 assume s1: "core_inv env s1 \<and> prepared env s s1"
  have st: "persisted s = Some (Enrolled ph rh)" if "persisted s1 = Some (Enrolled ph rh)" for ph rh
    using s1 that by (auto simp: prepared_def)
  have "backoff s1 = backoff s" "tick (files s) \<le> tick (files s1)" "persisted s1 \<noteq> None"
    using s1 by (auto simp: prepared_def)
  then show "wp (and_then (lift_res (check_password_bound pw)) (\<lambda>_.
     and_then get_st (\<lambda>s.
     case persisted s of
       Some (Enrolled ph _) \<Rightarrow>
         and_then (check_backoff env (Password uid)) (\<lambda>_.
         and_then (verify env pw ph) (\<lambda>matched.
         if matched then record_success (Password uid)
         else and_then (record_failure env (Password uid)) (\<lambda>_. err InvalidCredential)))
     | Some (EnrolledUnconfirmed _ _ _) \<Rightarrow> err EnrollmentUnconfirmed
     | _ \<Rightarrow> err NotEnrolled)))
     (\<lambda>_. login_spec env s uid pw (Inr ())) (\<lambda>e. login_spec env s uid pw (Inl e)) s1"
    using wp_login_attempt [OF st]
    by (auto simp: wp_and_then [where m = "lift_res r" for r] wp_and_then [where m = get_st] wp_lift_res wp_get_st
        wp_err check_password_bound_def login_spec_def is_provisional_def Let_def split: option.splits persisted.splits)
qed (simp add: login_spec_def)

section \<open>Progress in a working environment\<close>

text \<open>No call fails, the random source and the hash deliver, and the exchange happens within the ten
  minutes of both windows, on a wall clock that does not go back.\<close>

definition working :: "machine_env \<Rightarrow> bool" where
  "working env \<longleftrightarrow> env_ok env \<and>
     (\<forall>t. \<not> io_fault (io (store env)) t) \<and> (\<forall>f. json_to_vec (store env) f \<noteq> None) \<and>
     (\<forall>t. random env t \<noteq> None) \<and> (\<forall>secret salt. argon2_hash (argon2 (store env)) (cost env) secret salt \<noteq> None) \<and>
     (\<forall>t t'. \<exists>b b'. boot env t = Some b \<and> boot env t' = Some b' \<and> unat b' < unat b + 600 \<and> unat b + 600 < 2 ^ 64) \<and>
     (\<forall>t t'. t \<le> t' \<longrightarrow> wall env t \<le> wall env t' \<and> unat (wall env t') < unat (wall env t) + 600 \<and>
        unat (wall env t) + 600 < 2 ^ 64)"

text \<open>The directory holds no temporary file and no directory in place of the state file.\<close>

definition clean :: "machine_env \<Rightarrow> world \<Rightarrow> bool" where
  "clean env w \<longleftrightarrow> map_of (disk w) (temp_path (store env)) = None \<and> map_of (disk w) (state_path (store env)) \<noteq> Some Dir"

definition idle :: "machine_env \<Rightarrow> core \<Rightarrow> bool" where
  "idle env s \<longleftrightarrow> core_inv env s \<and> clean env (files s)"

lemma clean_tick [simp]: "clean env (w\<lparr>tick := t\<rparr>) = clean env w"
  by (simp add: clean_def)

text \<open>Neither the pairing nor a provisional enrollment expires from here on.\<close>

definition unexpired :: "machine_env \<Rightarrow> core \<Rightarrow> bool" where
  "unexpired env s \<longleftrightarrow>
     (\<forall>p t b. pending s = Some p \<longrightarrow> boot env t = Some b \<longrightarrow> b < expires_boot p) \<and>
     (\<forall>ph rh d t. persisted s = Some (EnrolledUnconfirmed ph rh d) \<longrightarrow> tick (files s) \<le> t \<longrightarrow> \<not> deadline_expired d (wall env t))"

lemma working_env_ok: "working env \<Longrightarrow> env_ok env"
  by (simp add: working_def)

lemma working_boot: "working env \<Longrightarrow> \<exists>b. boot env t = Some b"
  unfolding working_def by blast

lemma working_calls:
  assumes "working env"
  shows "\<not> io_fault (io (store env)) t" "json_to_vec (store env) f \<noteq> None" "random env t \<noteq> None"
    "hasher_hash (argon2 (store env)) (cost env) secret salt \<noteq> None"
  using assms unfolding working_def hasher_hash_def by blast+

lemma working_pairing:
  assumes "working env" "boot env t = Some b" "boot env t' = Some b'"
  shows "b' < b + PAIRING_LIFETIME"
proof -
  have "unat b' < unat b + 600" "unat b + 600 < 2 ^ 64"
    using assms unfolding working_def by (metis option.inject)+
  then show ?thesis by (simp add: PAIRING_LIFETIME_def word_less_nat_alt unat_word_ariths)
qed

lemma working_deadline:
  assumes "working env" "t \<le> t'"
  shows "\<not> deadline_expired (wall env t + CONFIRMATION_WINDOW) (wall env t')"
proof -
  have w: "wall env t \<le> wall env t'" "unat (wall env t') < unat (wall env t) + 600"
    "unat (wall env t) + 600 < 2 ^ 64" "unat (wall env t') + 600 < 2 ^ 64"
    using assms unfolding working_def by blast+
  then show ?thesis
    by (simp add: deadline_expired_def CONFIRMATION_WINDOW_def word_less_nat_alt word_le_nat_alt
        unat_saturating_add unat_word_ariths)
qed

lemma idle_ticked: "idle env s \<Longrightarrow> ticked s s' \<Longrightarrow> idle env s'"
  by (auto simp: idle_def ticked_def)

lemma unexpired_ticked: "unexpired env s \<Longrightarrow> ticked s s' \<Longrightarrow> unexpired env s'"
  by (auto simp: unexpired_def ticked_def)

lemma prepare_ok:
  assumes "working env" "persisted s \<noteq> None" "unexpired env s"
  shows "wp (prepare env) (\<lambda>_. ticked s) (\<lambda>_ _. False) s"
proof -
  obtain st where st: "persisted s = Some st" using assms(2) by blast
  obtain b where b: "boot env (tick (files s)) = Some b" using working_boot [OF assms(1)] by blast
  let ?s1 = "s\<lparr>files := (files s)\<lparr>tick := Suc (tick (files s))\<rparr>\<rparr>"
  have "drop_expired b ?s1 = ?s1"
    using assms(3) b by (auto simp: drop_expired_def unexpired_def not_le [symmetric] split: option.splits)
  then show ?thesis
    using st b assms(3) ticked_step [of s] ticked_trans [OF ticked_step ticked_step]
    by (auto simp: prepare_def wp_simps Let_def unexpired_def ticked_def split: persisted.splits)
qed

lemma commit_ok:
  assumes w: "working env" and s: "idle env s" and st: "storable (store env) st"
  shows "wp (commit env st) (\<lambda>_ s'. \<exists>w. s' = s\<lparr>files := w, persisted := Some st\<rparr> \<and> holds (store env) {st} w \<and>
    clean env w \<and> tick (files s) \<le> tick w) (\<lambda>_ _. False) s"
proof -
  have inv: "core_inv env s" using s by (simp add: idle_def)
  obtain bytes where bytes: "json_to_vec (store env) (to_state_file st) = Some bytes"
    using working_calls(2) [OF w] by blast
  have "wp (store_write (store env) st) (\<lambda>_. clean env) (\<lambda>_ _. False) (files s)"
    using s working_calls(1) [OF w] core_inv_ready [OF inv] bytes unfolding clean_def
    by (intro store_write_succeeds) (auto simp: idle_def ready_def clean_def)
  then have "wp (commit env st) (\<lambda>_ s'. clean env (files s')) (\<lambda>_ _. False) s"
    by (auto simp: commit_def wp_simps elim!: wp_weaken)
  from wp_conj [OF this wp_commit [OF inv working_env_ok [OF w] st]] show ?thesis
    by (rule wp_weaken) auto
qed

lemma hash_ok:
  assumes "working env"
  shows "wp (hash env secret) (\<lambda>h s'. hash_of env secret h \<and> ticked s s') (\<lambda>_ _. False) s"
proof -
  obtain f where "random env (tick (files s)) = Some f" using working_calls(3) [OF assms] by blast
  moreover obtain h where "hasher_hash (argon2 (store env)) (cost env) secret (map f [0..<SALT_BYTES]) = Some h"
    using working_calls(4) [OF assms] by blast
  ultimately have "wp (hash env secret) (\<lambda>_ _. True) (\<lambda>_ _. False) s"
    by (simp add: hash_def wp_simps Let_def)
  from wp_conj [OF this wp_hash [OF working_env_ok [OF assms]]] show ?thesis
    by (rule wp_weaken) auto
qed

lemma ensure_ok:
  assumes w: "working env" and s: "idle env s" "persisted s = Some Unenrolled" "pending s = None"
  shows "wp (ensure_pending_pairing env) (\<lambda>_ s'. idle env s' \<and> unexpired env s' \<and> persisted s' = Some Unenrolled \<and>
    pending s' \<noteq> None \<and> backoff s' = backoff s) (\<lambda>_ _. False) s"
  unfolding ensure_pending_pairing_def
proof (rule wp_bind [OF prepare_ok [OF w]])
  fix u s1 assume t: "ticked s s1"
  have s1: "idle env s1" "persisted s1 = Some Unenrolled" "pending s1 = None" "backoff s1 = backoff s"
    using s ticked_simps [OF t] idle_ticked [OF s(1) t] by simp_all
  obtain b where b: "boot env (tick (files s1)) = Some b" using working_boot [OF w] by blast
  obtain f where f: "random env (Suc (tick (files s1))) = Some f" using working_calls(3) [OF w] by blast
  have fresh: "b' < b + PAIRING_LIFETIME" if "boot env t = Some b'" for t b'
    using working_pairing [OF w b that] .
  then show "wp (and_then get_st (\<lambda>s.
     if persisted s \<noteq> Some Unenrolled \<or> pending s \<noteq> None then ok ()
     else
       and_then (boot_now env) (\<lambda>now.
       let expires = now + PAIRING_LIFETIME
       in and_then (random_bytes env PAIRING_CODE_BYTES) (\<lambda>bytes.
          and_then (wall_now env) (\<lambda>w.
          modify (\<lambda>s. s\<lparr>pending := Some \<lparr>code = bytes, expires_boot = expires,
                                         expires_at = w + PAIRING_LIFETIME, wrong_attempts = 0\<rparr>,
                       expired_provisional := False\<rparr>))))))
     (\<lambda>_ s'. idle env s' \<and> unexpired env s' \<and> persisted s' = Some Unenrolled \<and> pending s' \<noteq> None \<and>
       backoff s' = backoff s) (\<lambda>_ _. False) s1"
    using s1 b f
    by (auto simp: wp_simps Let_def idle_def unexpired_def core_inv_def core_disk_def core_mem_def PAIRING_ATTEMPTS_def)
qed (use s in \<open>simp_all add: unexpired_def\<close>)

lemma get_pending_ok:
  assumes "working env" "unexpired env s" "persisted s \<noteq> None" "pending s = Some p"
  shows "wp (get_pending_pairing env) (\<lambda>r s'. ticked s s' \<and> fst r \<and> fst (snd r) = encode_pairing_code (code p)) (\<lambda>_ _. False) s"
  unfolding get_pending_pairing_def
  by (rule wp_bind [OF prepare_ok [OF assms(1,3,2)]]) (use assms(4) in \<open>auto simp: wp_simps ticked_simps\<close>)

text \<open>A password that does not read as a pairing code or a recovery key.\<close>

definition not_a_code :: "string \<Rightarrow> bool" where
  "not_a_code pw \<longleftrightarrow> parse_pairing_code pw = None \<and> parse_recovery_key (to_ascii_uppercase pw) = None"

text \<open>The state after the enrollment with \<open>pw\<close>, for which \<open>key\<close> was handed out.\<close>

definition enrolled_with :: "machine_env \<Rightarrow> string \<Rightarrow> string \<Rightarrow> persisted option \<Rightarrow> bool" where
  "enrolled_with env pw key o' \<longleftrightarrow>
     (case o' of
        Some (EnrolledUnconfirmed ph rh _) \<Rightarrow> hash_of env pw ph \<and> hash_of env key rh
      | Some (Enrolled ph rh) \<Rightarrow> hash_of env pw ph \<and> hash_of env key rh
      | _ \<Rightarrow> False)"

lemma idle_committed:
  "idle env s \<Longrightarrow> storable (store env) st \<Longrightarrow> holds (store env) {st} w \<Longrightarrow> clean env w \<Longrightarrow>
     st \<noteq> Unenrolled \<Longrightarrow> idle env (s\<lparr>files := w, persisted := Some st, pending := None, expired_provisional := False\<rparr>)"
  by (simp add: idle_def core_inv_def core_disk_def core_mem_def)

lemma enroll_ok:
  assumes w: "working env" and s: "idle env s" and pw: "acceptable pw" "not_a_code pw"
  shows "wp (enroll env c pw) (\<lambda>key s'. idle env s' \<and> unexpired env s' \<and> is_provisional (persisted s') \<and>
      enrolled_with env pw key (persisted s') \<and> parse_recovery_key key \<noteq> None \<and> backoff s' = backoff s) (\<lambda>_ _. False) s"
proof -
  let ?Q = "\<lambda>key s'. idle env s' \<and> unexpired env s' \<and> is_provisional (persisted s') \<and>
      enrolled_with env pw key (persisted s') \<and> parse_recovery_key key \<noteq> None \<and> backoff s' = backoff s"
  obtain f where f: "random env (tick (files s)) = Some f" using working_calls(3) [OF w] by blast
  let ?key = "map f [0..<RECOVERY_KEY_BYTES]"
  let ?s1 = "s\<lparr>files := (files s)\<lparr>tick := Suc (tick (files s))\<rparr>\<rparr>"
  have key: "parse_recovery_key (encode_recovery_key ?key) = Some ?key"
    by (rule recovery_key.dec_enc) (simp add: RECOVERY_KEY_BYTES_def)
  have finish: "wp (and_then (wall_now env) (\<lambda>now.
            and_then (commit env (EnrolledUnconfirmed ph rh (now + CONFIRMATION_WINDOW))) (\<lambda>_.
            and_then (modify (\<lambda>s. s\<lparr>pending := None, expired_provisional := False\<rparr>)) (\<lambda>_.
            ok (encode_recovery_key ?key))))) ?Q (\<lambda>_ _. False) s2"
    if s2: "ticked s s2" and h: "hash_of env pw ph" "hash_of env (encode_recovery_key ?key) rh" for s2 ph rh
  proof -
    let ?s3 = "s2\<lparr>files := (files s2)\<lparr>tick := Suc (tick (files s2))\<rparr>\<rparr>"
    define d where "d = wall env (tick (files s2)) + CONFIRMATION_WINDOW"
    have s3: "idle env ?s3" using idle_ticked [OF idle_ticked [OF s s2] ticked_step] .
    have stor: "storable (store env) (EnrolledUnconfirmed ph rh d)" using h by (simp add: hash_of_valid)
    have "\<not> deadline_expired d (wall env t)" if "tick (files s2) \<le> t" for t
      unfolding d_def by (rule working_deadline [OF w that])
    then have "wp (commit env (EnrolledUnconfirmed ph rh d)) (\<lambda>_ s'. ?Q (encode_recovery_key ?key)
        (s'\<lparr>pending := None, expired_provisional := False\<rparr>)) (\<lambda>_ _. False) ?s3"
      using idle_committed [OF s3 stor] h key ticked_simps(4) [OF s2]
      by (intro wp_weaken [OF commit_ok [OF w s3 stor]])
        (auto simp: unexpired_def is_provisional_def enrolled_with_def)
    then show ?thesis by (simp add: wp_simps wp_fun wp_ok d_def)
  qed
  have "wp (and_then (hash env pw) (\<lambda>ph. and_then (hash env (encode_recovery_key ?key)) (\<lambda>rh.
      and_then (wall_now env) (\<lambda>now.
            and_then (commit env (EnrolledUnconfirmed ph rh (now + CONFIRMATION_WINDOW))) (\<lambda>_.
            and_then (modify (\<lambda>s. s\<lparr>pending := None, expired_provisional := False\<rparr>)) (\<lambda>_.
            ok (encode_recovery_key ?key))))))) ?Q (\<lambda>_ _. False) ?s1"
    by (rule wp_bind [OF hash_ok [OF w]], rule wp_bind [OF hash_ok [OF w]], rule finish)
      (auto intro: ticked_trans ticked_step)
  then show ?thesis
    using pw f by (simp add: enroll_def wp_and_then [where m = "lift_res r" for r]
        wp_and_then [where m = "random_bytes e n" for e n] wp_lift_res check_new_password_def wp_random_bytes Let_def
        acceptable_def not_a_code_def password_equals_key_def)
qed

lemma consume_ok:
  assumes w: "working env" and s: "idle env s" "unexpired env s" "pending s = Some p"
    and pw: "acceptable pw" "not_a_code pw"
  shows "wp (consume_pairing env (encode_pairing_code (code p)) pw)
    (\<lambda>key s'. idle env s' \<and> unexpired env s' \<and> is_provisional (persisted s') \<and>
      enrolled_with env pw key (persisted s') \<and> parse_recovery_key key \<noteq> None \<and> backoff s' = backoff s) (\<lambda>_ _. False) s"
  unfolding consume_pairing_def
proof (rule wp_bind [OF prepare_ok [OF w _ s(2)]])
  have inv: "core_inv env s" using s(1) by (simp add: idle_def)
  have len: "length (code p) = 5" using core_inv_pending(2) [OF inv s(3)] by (simp add: PAIRING_CODE_BYTES_def)
  have parse: "parse_pairing_code (encode_pairing_code (code p)) = Some (code p)" by (rule pairing_code.dec_enc [OF len])
  have short: "\<not> CODE_MAX_BYTES < length (encode_pairing_code (code p))"
    using length_encode_pairing [OF len] by (simp add: encode_pairing_code_def CODE_MAX_BYTES_def)
  show "persisted s \<noteq> None" using core_inv_pending(1) [OF inv s(3)] by simp
  fix u s1 assume t: "ticked s s1"
  have s1: "idle env s1" "persisted s1 = Some Unenrolled" "pending s1 = Some p" "backoff s1 = backoff s"
    using idle_ticked [OF s(1) t] core_inv_pending(1) [OF inv s(3)] s(3) ticked_simps [OF t] by simp_all
  then show "wp (and_then (lift_res (check_password_bound pw)) (\<lambda>_.
     if CODE_MAX_BYTES < length (encode_pairing_code (code p)) then err InvalidArgument
     else
       and_then (lift_res (ok_or InvalidArgument (parse_pairing_code (encode_pairing_code (code p))))) (\<lambda>submitted.
       and_then get_st (\<lambda>s.
       case persisted s of
         Some (Enrolled _ _) \<Rightarrow> err AlreadyEnrolled
       | Some (EnrolledUnconfirmed _ _ _) \<Rightarrow> err EnrollmentUnconfirmed
       | _ \<Rightarrow>
           and_then (lift_res (ok_or NoPendingPairing (pending s))) (\<lambda>p.
           if \<not> constant_time_eq submitted (code p) then reject_code p
           else enroll env (code p) pw)))))
    (\<lambda>key s'. idle env s' \<and> unexpired env s' \<and> is_provisional (persisted s') \<and>
      enrolled_with env pw key (persisted s') \<and> parse_recovery_key key \<noteq> None \<and> backoff s' = backoff s) (\<lambda>_ _. False) s1"
    using enroll_ok [OF w s1(1) pw, of "code p"] pw(1) parse short
    by (simp add: wp_and_then [where m = "lift_res r" for r] wp_and_then [where m = get_st] wp_lift_res wp_get_st
        check_password_bound_def acceptable_def constant_time_eq_iff)
qed simp

lemma recovery_key_short: "parse_recovery_key key \<noteq> None \<Longrightarrow> machine_parse_recovery_key key = Inr (the (parse_recovery_key key))"
proof -
  assume "parse_recovery_key key \<noteq> None"
  then obtain k where k: "parse_recovery_key key = Some k" by blast
  then have "length key = 26" by (auto simp: parse_recovery_key_def RECOVERY_KEY_SYMBOLS_def split: if_splits)
  then show ?thesis using k by (simp add: machine_parse_recovery_key_def CODE_MAX_BYTES_def)
qed

lemma confirm_ok:
  assumes w: "working env" and s: "idle env s" "unexpired env s" "is_provisional (persisted s)"
    and e: "enrolled_with env pw key (persisted s)" "parse_recovery_key key \<noteq> None" "backoff s Confirmation = None"
  shows "wp (confirm_recovery_key env key)
    (\<lambda>_ s'. idle env s' \<and> is_enrolled (persisted s') \<and> enrolled_with env pw key (persisted s') \<and>
       backoff s' = backoff s) (\<lambda>_ _. False) s"
proof -
  let ?Q = "\<lambda>_ s'. idle env s' \<and> is_enrolled (persisted s') \<and> enrolled_with env pw key (persisted s') \<and>
       backoff s' = backoff s"
  obtain ph rh d where st: "persisted s = Some (EnrolledUnconfirmed ph rh d)"
    using s(3) by (auto simp: is_provisional_def split: option.splits persisted.splits)
  have h: "hash_of env pw ph" "hash_of env key rh" using e(1) by (simp_all add: st enrolled_with_def)
  have stor: "storable (store env) (Enrolled ph rh)" using h by (simp add: hash_of_valid)
  have finish: "wp (finish_confirmation env ph rh True) ?Q (\<lambda>_ _. False) s1" if t: "ticked s s1" for s1
    unfolding finish_confirmation_def
  proof (rule wp_bind [OF prepare_ok [OF w _ unexpired_ticked [OF s(2) t]]])
    show "persisted s1 \<noteq> None" using st ticked_simps(1) [OF t] by simp
    fix u s2 assume t2: "ticked s1 s2"
    note t' = ticked_trans [OF t t2]
    have s2: "idle env s2" using idle_ticked [OF s(1) t'] .
    have inv: "core_inv env s2" using s2 by (simp add: idle_def)
    have st2: "persisted s2 = Some (EnrolledUnconfirmed ph rh d)" using st ticked_simps(1) [OF t'] by simp
    have none: "pending s2 = None" "\<not> expired_provisional s2"
      using inv st2 core_inv_pending(1) [OF inv] by (auto simp: core_inv_def core_mem_def is_provisional_def)
    have "wp (commit env (Enrolled ph rh)) (\<lambda>_ s'. ?Q () (s'\<lparr>backoff := (backoff s')(Confirmation := None)\<rparr>))
        (\<lambda>_ _. False) s2"
      using idle_committed [OF s2 stor] none h e(3) ticked_simps(4) [OF t']
      by (intro wp_weaken [OF commit_ok [OF w s2 stor]])
        (auto simp: is_enrolled_def enrolled_with_def idle_def core_inv_def core_disk_def core_mem_def)
    then show "wp (and_then get_st (\<lambda>s.
       if expired_provisional s \<and> \<not> is_provisional (persisted s) then err ConfirmationExpired
       else if \<not> True then and_then (record_failure env Confirmation) (\<lambda>_. err InvalidCredential)
       else and_then (commit env (Enrolled ph rh)) (\<lambda>_. record_success Confirmation))) ?Q (\<lambda>_ _. False) s2"
      using none by (simp add: wp_and_then wp_get_st wp_record_success record_success_def wp_modify_fun)
  qed simp
  show ?thesis
    unfolding confirm_recovery_key_def
  proof (rule wp_bind [OF prepare_ok [OF w _ s(2)]])
    fix u s1 assume t: "ticked s s1"
    then show "wp (and_then (lift_res (machine_parse_recovery_key key)) (\<lambda>_.
       and_then get_st (\<lambda>s.
       case persisted s of
         Some (EnrolledUnconfirmed ph rh _) \<Rightarrow>
           and_then (check_backoff env Confirmation) (\<lambda>_. and_then (verify env key rh) (finish_confirmation env ph rh))
       | _ \<Rightarrow> if expired_provisional s then err ConfirmationExpired else err NoProvisionalEnrollment))) ?Q (\<lambda>_ _. False) s1"
      using finish [OF t] st e(2,3) h(2) ticked_simps [OF t]
      by (simp add: wp_and_then wp_lift_res wp_get_st recovery_key_short check_backoff_def wp_ok wp_verify hash_of_verify)
  qed (simp_all add: st)
qed

lemma login_ok:
  assumes w: "working env" and s: "idle env s" "is_enrolled (persisted s)" "enrolled_with env pw key (persisted s)"
    and b: "backoff s (Password uid) = None" and len: "length pw' \<le> PASSWORD_MAX_BYTES"
  shows "fst (verify_password env uid pw' s) = (if pw' = pw then Inr () else Inl InvalidCredential)"
proof -
  obtain ph rh where st: "persisted s = Some (Enrolled ph rh)"
    using s(2) by (auto simp: is_enrolled_def split: option.splits persisted.splits)
  have h: "hash_of env pw ph" using s(3) by (simp add: st enrolled_with_def)
  have un: "unexpired env s"
    using s(1) st core_inv_pending(1) [of env s] by (auto simp: unexpired_def idle_def)
  have "wp (verify_password env uid pw') (\<lambda>_ _. pw' = pw) (\<lambda>e _. pw' \<noteq> pw \<and> e = InvalidCredential) s"
    unfolding verify_password_def
  proof (rule wp_bind [OF prepare_ok [OF w _ un]])
    fix u s1 assume t: "ticked s s1"
    obtain c where "boot env (tick (files s1)) = Some c" using working_boot [OF w] by blast
    then show "wp (and_then (lift_res (check_password_bound pw')) (\<lambda>_.
       and_then get_st (\<lambda>s.
       case persisted s of
         Some (Enrolled ph _) \<Rightarrow>
           and_then (check_backoff env (Password uid)) (\<lambda>_.
           and_then (verify env pw' ph) (\<lambda>matched.
           if matched then record_success (Password uid)
           else and_then (record_failure env (Password uid)) (\<lambda>_. err InvalidCredential)))
       | Some (EnrolledUnconfirmed _ _ _) \<Rightarrow> err EnrollmentUnconfirmed
       | _ \<Rightarrow> err NotEnrolled)))
      (\<lambda>_ _. pw' = pw) (\<lambda>e _. pw' \<noteq> pw \<and> e = InvalidCredential) s1"
      using st h b len ticked_simps [OF t]
      by (auto simp: wp_simps check_password_bound_def check_backoff_def hash_of_verify record_failure_def Let_def)
  qed (simp_all add: st)
  then show ?thesis by (auto simp: wp_def split: prod.splits sum.splits)
qed

text \<open>The whole exchange: a pairing is opened, its code is read and used with a new password, the recovery
  key that comes back is confirmed, and a login is tried.\<close>

definition enroll_and_login :: "machine_env \<Rightarrow> string \<Rightarrow> u32 \<Rightarrow> string \<Rightarrow> unit core_op" where
  "enroll_and_login env pw uid pw' =
     and_then (ensure_pending_pairing env) (\<lambda>_.
     and_then (get_pending_pairing env) (\<lambda>(_, shown, _).
     and_then (consume_pairing env shown pw) (\<lambda>key.
     and_then (confirm_recovery_key env key) (\<lambda>_.
     verify_password env uid pw'))))"

lemma wp_fst_eq: "fst (m s) = r \<Longrightarrow> wp m (\<lambda>_ _. r = Inr ()) (\<lambda>e _. r = Inl e) s"
  by (auto simp: wp_def split: prod.splits sum.splits)

lemma wp_enroll_and_login:
  assumes w: "working env" and s: "idle env s" "persisted s = Some Unenrolled" "pending s = None" "backoff s = Map.empty"
    and pw: "acceptable pw" "not_a_code pw" and len: "length pw' \<le> PASSWORD_MAX_BYTES"
  defines "r \<equiv> (if pw' = pw then Inr () else Inl InvalidCredential)"
  shows "wp (enroll_and_login env pw uid pw') (\<lambda>_ _. r = Inr ()) (\<lambda>e _. r = Inl e) s"
  unfolding enroll_and_login_def
proof (rule wp_bind [OF ensure_ok [OF w s(1-3)]], goal_cases)
  case (1 u s1)
  then obtain p where s1: "idle env s1" "unexpired env s1" "persisted s1 \<noteq> None" "pending s1 = Some p"
    "backoff s1 = Map.empty" using s(4) by auto
  show ?case
  proof (rule wp_bind [OF get_pending_ok [OF w s1(2-4)]], goal_cases)
    case (1 shown s2)
    then have t: "ticked s1 s2" and code: "fst (snd shown) = encode_pairing_code (code p)" by auto
    have s2: "idle env s2" "unexpired env s2" "pending s2 = Some p" "backoff s2 = Map.empty"
      using s1 t idle_ticked [OF s1(1) t] unexpired_ticked [OF s1(2) t] by (simp_all add: ticked_simps)
    have login: "wp (verify_password env uid pw') (\<lambda>_ _. r = Inr ()) (\<lambda>e _. r = Inl e) s3"
      if "idle env s3" "is_enrolled (persisted s3)" "enrolled_with env pw key (persisted s3)" "backoff s3 = Map.empty"
      for s3 key
      unfolding r_def by (rule wp_fst_eq, rule login_ok [OF w that(1-3) _ len]) (simp add: that(4))
    have "wp (and_then (consume_pairing env (encode_pairing_code (code p)) pw) (\<lambda>key.
        and_then (confirm_recovery_key env key) (\<lambda>_. verify_password env uid pw')))
        (\<lambda>_ _. r = Inr ()) (\<lambda>e _. r = Inl e) s2"
      by (rule wp_bind [OF consume_ok [OF w s2(1-3) pw]], rule wp_bind [OF confirm_ok [OF w]],
          auto simp: s2 intro: login)
    then show ?case using code by (simp add: case_prod_unfold)
  qed simp
qed simp

text \<open>A reset replaces any state, and a stale temporary file costs one failed attempt.\<close>

lemma wp_reset_ok:
  assumes w: "working env" and s: "idle env s"
  shows "wp (reset_enrollment env) (\<lambda>_ s'. idle env s' \<and> persisted s' = Some Unenrolled \<and> pending s' = None \<and>
    \<not> expired_provisional s' \<and> backoff s' = Map.empty) (\<lambda>_ _. False) s"
  unfolding reset_enrollment_def
  by (rule wp_bind [OF commit_ok [OF w s]])
    (auto simp: wp_modify idle_def core_inv_def core_disk_def core_mem_def)

lemma store_write_stale:
  assumes "entry_in env S w" "json_to_vec env (to_state_file st) \<noteq> None" "\<And>t. \<not> io_fault (io env) t"
    and "map_of (disk w) (temp_path env) = Some n" "n \<noteq> Dir"
  shows "wp (store_write env st) Q (\<lambda>e w'. e = WriteFailed False \<and> map_of (disk w') (temp_path env) = None \<and>
    map_of (disk w') (state_path env) = map_of (disk w) (state_path env)) w"
  using assms by (auto simp: store_write_def write_temporary_def discard_temporary_def wp_simps Let_def stat_def)

lemma wp_reset_stale:
  assumes w: "working env" and s: "core_inv env s"
    and "map_of (disk (files s)) (temp_path (store env)) = Some n" "n \<noteq> Dir"
    "map_of (disk (files s)) (state_path (store env)) \<noteq> Some Dir"
  shows "wp (reset_enrollment env) Q (\<lambda>e. idle env) s"
proof -
  have stale: "wp (store_write (store env) Unenrolled) R (\<lambda>e w'. e = WriteFailed False \<and> clean env w') (files s)" for R
    by (rule wp_weaken [OF store_write_stale [OF core_inv_ready [OF s, unfolded ready_def] working_calls(2) [OF w]
        working_calls(1) [OF w] assms(3,4)]]) (use assms(5) in \<open>auto simp: clean_def\<close>)
  have "wp (commit env Unenrolled) R (\<lambda>e s'. clean env (files s')) s" for R
    unfolding commit_def wp_simps by (rule wp_weaken [OF stale]) (auto simp: wp_simps)
  from wp_conj [OF this wp_commit [OF s working_env_ok [OF w], of Unenrolled]]
  show ?thesis unfolding reset_enrollment_def wp_and_then
    by (rule wp_weaken) (auto simp: idle_def)
qed

section \<open>Sequences of requests\<close>

fun run_requests :: "machine_env \<Rightarrow> request list \<Rightarrow> core \<Rightarrow> (failure + reply) list \<times> core" where
  "run_requests env [] s = ([], s)"
| "run_requests env (req # reqs) s =
     (let (r, s1) = execute env req s; (rs, s2) = run_requests env reqs s1 in (r # rs, s2))"

definition wrong_codes :: "(failure + reply) list \<Rightarrow> nat" where
  "wrong_codes rs = length (filter (\<lambda>r. r = Inl InvalidPairingCode \<or> r = Inl PairingAttemptsExhausted) rs)"

lemma execute_good:
  assumes "core_inv env s" "env_ok env" "execute env req s = (r, s1)"
  shows "good env s req (wrong_codes [r]) s1"
  using sound_execute [OF assms(1,2), of req] assms(3)
  by (cases r) (auto simp: wp_def wrong_codes_def guess_def split: if_splits)

lemma wrong_codes_budget:
  assumes "env_ok env"
  shows "core_inv env s \<Longrightarrow> EnsurePendingPairing \<notin> set reqs \<Longrightarrow>
    wrong_codes (fst (run_requests env reqs s)) + budget (snd (run_requests env reqs s)) \<le> budget s"
proof (induction reqs arbitrary: s)
  case (Cons req reqs)
  obtain r s1 where r: "execute env req s = (r, s1)" by fastforce
  have g: "good env s req (wrong_codes [r]) s1" by (rule execute_good [OF Cons.prems(1) assms r])
  then have "wrong_codes [r] + budget s1 \<le> budget s" using Cons.prems(2) by (auto simp: good_def)
  moreover have "wrong_codes (fst (run_requests env reqs s1)) + budget (snd (run_requests env reqs s1)) \<le> budget s1"
    using Cons g by (auto simp: good_def)
  moreover have "wrong_codes (r # fst (run_requests env reqs s1)) =
      wrong_codes [r] + wrong_codes (fst (run_requests env reqs s1))" by (simp add: wrong_codes_def)
  ultimately show ?case by (simp add: r case_prod_unfold Let_def del: One_nat_def)
qed (simp add: wrong_codes_def)

section \<open>A concrete machine\<close>

definition demo_machine :: machine_env where
  "demo_machine = \<lparr>store = demo_store (\<lambda>_. False), wall = \<lambda>_. 1000, boot = \<lambda>_. Some 50,
     random = \<lambda>t. Some (\<lambda>i. word_of_nat (t + i)), cost = production\<rparr>"

definition demo_core :: core where
  "demo_core = open_core demo_machine (after_crash demo_fs)"

lemma demo_env_ok: "env_ok demo_machine"
  by (simp add: env_ok_def demo_machine_def demo_json_ok) (simp add: demo_store_def demo_argon2_correct)

lemma demo_working: "working demo_machine"
  using demo_env_ok by (simp add: working_def demo_machine_def demo_store_def demo_to_vec_def demo_argon2_def)

lemma demo_settled: "settled (demo_store fault) (after_crash demo_fs)"
  by (simp add: settled_def synced_entries_def entry_in_def all_images_def after_crash_def dir_ok_def
      demo_store_def demo_fs_def demo_dir_def state_path_def)

lemma demo_reachable: "reachable demo_machine demo_core"
  unfolding demo_core_def by (rule reachable.start) (simp add: demo_machine_def demo_settled)

lemma demo_core_eq:
  "demo_core = \<lparr>files = \<lparr>disk = demo_fs, images = [], tick = 3\<rparr>, persisted = Some Unenrolled, pending = None,
     expired_provisional = False, backoff = Map.empty\<rparr>"
  by (simp add: demo_core_def open_core_def demo_machine_def demo_store_def remove_stale_temporary_def and_then_def
      attempt_def remove_file_def sys_def after_crash_def stat_def demo_fs_def demo_dir_def temp_path_def TEMP_FILE_def
      missing_error_def load_def read_file_def state_path_def STATE_FILE_def ok_def prepare_def get_st_def boot_now_def
      reading_def lift_res_def modify_def drop_expired_def Let_def)

lemma demo_idle: "idle demo_machine demo_core"
  using reachable_inv [OF demo_env_ok demo_reachable]
  by (simp add: idle_def clean_def demo_core_eq demo_fs_def demo_dir_def demo_machine_def demo_store_def
      temp_path_def state_path_def)

section \<open>Properties\<close>

text \<open>C14: in every reachable state a pending pairing exists only while the device is unenrolled, has a
  five-byte code and has attempts left, and the memory of an expired provisional enrollment never
  coexists with a provisional enrollment.\<close>

theorem reachable_states_consistent:
  assumes "env_ok env" "reachable env s"
  shows "(\<forall>p. pending s = Some p \<longrightarrow> persisted s = Some Unenrolled \<and> length (code p) = PAIRING_CODE_BYTES \<and>
            wrong_attempts p < PAIRING_ATTEMPTS) \<and>
         (expired_provisional s \<longrightarrow> \<not> is_provisional (persisted s))"
  using reachable_inv [OF assms] by (simp add: core_inv_def core_mem_def)

theorem reachable_states_consistent_witness:
  "\<exists>s p. reachable demo_machine s \<and> pending s = Some p \<and> persisted s = Some Unenrolled \<and>
     length (code p) = PAIRING_CODE_BYTES \<and> wrong_attempts p < PAIRING_ATTEMPTS"
proof -
  let ?s = "snd (execute demo_machine EnsurePendingPairing demo_core)"
  have "wp (ensure_pending_pairing demo_machine) (\<lambda>_ s'. pending s' \<noteq> None) (\<lambda>_ _. False) demo_core"
    by (rule wp_mono [OF ensure_ok [OF demo_working demo_idle]]) (simp_all add: demo_core_eq)
  then obtain p where p: "pending ?s = Some p"
    by (auto simp: wp_def and_then_def ok_def split: prod.splits sum.splits)
  have r: "reachable demo_machine ?s" by (rule reachable.serve [OF demo_reachable])
  show ?thesis using reachable_states_consistent [OF demo_env_ok r] r p by blast
qed



text \<open>C16: every change of the enrollment follows the life cycle.  It goes from unenrolled to provisional
  only by the unexpired pairing's own code and an acceptable password; from provisional to enrolled
  only by the key that verifies against the stored hash, read before the deadline and with both hashes
  kept; a new password comes only with the verified recovery key; back to unenrolled only by a reset or
  an expired deadline.\<close>

theorem enrollment_follows_life_cycle:
  assumes "env_ok env" "reachable env s"
  shows "enrollment_step env s req (snd (execute env req s))"
  using execute_good [OF reachable_inv [OF assms] assms(1), of req] by (cases "execute env req s") (simp add: good_def)

theorem enrollment_follows_life_cycle_witness:
  "enrollment_step demo_machine demo_core (ConfirmRecoveryKey ''000G40R40M30E209185GR38E1W'')
     (snd (execute demo_machine (ConfirmRecoveryKey ''000G40R40M30E209185GR38E1W'') demo_core))"
  by (rule enrollment_follows_life_cycle [OF demo_env_ok demo_reachable])

text \<open>C2: a pairing admits at most five wrong codes: over any sequence of requests that does not open a new
  pairing, the replies that report a wrong code are no more than the attempts the pairing has left.\<close>

theorem pairing_guesses_bounded:
  assumes "env_ok env" "reachable env s" "EnsurePendingPairing \<notin> set reqs"
  shows "wrong_codes (fst (run_requests env reqs s)) \<le>
     (case pending s of None \<Rightarrow> 0 | Some p \<Rightarrow> 5 - unat (wrong_attempts p))"
  using wrong_codes_budget [OF assms(1) reachable_inv [OF assms(1,2)] assms(3)]
  by (simp add: budget_def PAIRING_ATTEMPTS_def split: option.splits)

definition demo_paired :: core where
  "demo_paired = snd (execute demo_machine EnsurePendingPairing demo_core)"

definition demo_guesses :: "request list" where
  "demo_guesses = replicate 7 (ConsumePairing ''00000000'' ''correct horse'')"

theorem pairing_guesses_bounded_witness:
  "EnsurePendingPairing \<notin> set demo_guesses \<and>
   wrong_codes (fst (run_requests demo_machine demo_guesses demo_paired)) \<le>
     (case pending demo_paired of None \<Rightarrow> 0 | Some p \<Rightarrow> 5 - unat (wrong_attempts p))"
proof -
  have reach: "reachable demo_machine demo_paired"
    unfolding demo_paired_def by (rule reachable.serve [OF demo_reachable])
  have "EnsurePendingPairing \<notin> set demo_guesses" by (simp add: demo_guesses_def)
  then show ?thesis using pairing_guesses_bounded [OF demo_env_ok reach] by blast
qed

text \<open>C17: what each answer to a password means.  Success: enrolled, the password verifies, the caller was not
  blocked, and its counter is cleared.  Wrong: enrolled, not blocked, and the caller's counter and time
  of failure are updated.  Rate-limited: the boot clock is before the end of the block and nothing is
  recorded.  No other caller's counter changes in any case.\<close>

theorem login_answers:
  assumes "env_ok env" "reachable env s" "verify_password env uid pw s = (r, s')"
  shows "login_spec env s uid pw r s'"
  using wp_verify_password [OF reachable_inv [OF assms(1,2)] assms(1), of uid pw] assms(3)
  by (cases r) (simp_all add: wp_def)

theorem login_answers_witness:
  "case verify_password demo_machine 7 ''guess'' demo_core of (r, s') \<Rightarrow> login_spec demo_machine demo_core 7 ''guess'' r s'"
  using login_answers [OF demo_env_ok demo_reachable] by (simp split: prod.split)

text \<open>The delay after \<open>n\<close> failures is zero below five and then doubles from one second up to fifteen
  minutes, on every 32-bit counter value.\<close>

theorem backoff_delay_doubles_to_cap:
  "unat (backoff_delay n) = (if unat n < 5 then 0 else min (2 ^ (unat n - 5)) 900)"
  by (rule backoff_delay_eq)

text \<open>The whole exchange succeeds.  On an unenrolled device in a working environment, opening a pairing,
  consuming its displayed code with an acceptable password, confirming the returned key and logging in
  ends in success exactly for that password, and in a credential error for every other one.\<close>

theorem enrollment_then_login:
  assumes "working env" "idle env s" "persisted s = Some Unenrolled" "pending s = None" "backoff s = Map.empty"
    and "acceptable pw" "not_a_code pw" "length pw' \<le> PASSWORD_MAX_BYTES"
  shows "fst (enroll_and_login env pw uid pw' s) = (if pw' = pw then Inr () else Inl InvalidCredential)"
  using wp_enroll_and_login [OF assms, of uid] by (auto simp: wp_def split: prod.splits sum.splits if_splits)

theorem enrollment_then_login_witness:
  "fst (enroll_and_login demo_machine ''correct horse'' 7 ''correct horse'' demo_core) = Inr () \<and>
   fst (enroll_and_login demo_machine ''correct horse'' 7 ''wrong horse'' demo_core) = Inl InvalidCredential"
proof -
  have s: "persisted demo_core = Some Unenrolled" "pending demo_core = None" "backoff demo_core = Map.empty"
    by (simp_all add: demo_core_eq)
  have pw: "acceptable ''correct horse''" "not_a_code ''correct horse''" by code_simp+
  note run = enrollment_then_login [OF demo_working demo_idle s pw, of _ 7]
  show ?thesis
    using run [of "''correct horse''"] run [of "''wrong horse''"] by (simp add: PASSWORD_MAX_BYTES_def)
qed



end
