(* ===== verification/Service.thy ===== *)
theory Service
  imports Lifecycle
begin

text \<open>
  The D-Bus service around the state machine (\<^verbatim>\<open>src/authd/src/service.rs\<close>) and the signature check in front of it
  (\<^verbatim>\<open>src/authd/src/checked_interface.rs\<close>).

  Calls run concurrently: a call that hashes first takes one of five permits, then waits for the lock of
  the core, and gives the permit back when it is done.  The interleavings are the step relation
  \<open>service_step\<close>: the lock makes each operation on the core one step, and the order in which waiting
  calls get it is arbitrary.
\<close>

section \<open>Admission and the lock\<close>

definition MAX_ADMITTED :: nat where "MAX_ADMITTED = 5"

record shared =
  core_of :: core
  poisoned :: bool  \<comment> \<open>a panic happened under the lock\<close>
  admitted :: nat

definition shared_new :: "core \<Rightarrow> shared" where
  "shared_new c = \<lparr>core_of = c, poisoned = False, admitted = 0\<rparr>"

definition admit :: "(shared, failure, unit) op" where
  "admit s = (if admitted s < MAX_ADMITTED then (Inr (), s\<lparr>admitted := admitted s + 1\<rparr>) else (Inl Busy, s))"

definition drop_permit :: "shared \<Rightarrow> shared" where
  "drop_permit s = s\<lparr>admitted := admitted s - 1\<rparr>"

definition with_core :: "'a core_op \<Rightarrow> (shared, failure, 'a) op" where
  "with_core operation s =
     (if poisoned s then (Inl Unavailable, s)
      else on_part core_of (\<lambda>c s. s\<lparr>core_of := c\<rparr>) operation s)"

section \<open>Errors on the bus\<close>

definition AUTH_ERROR_PREFIX :: string where
  "AUTH_ERROR_PREFIX = ''org.signallayer.Auth1.Error.''"

fun variant_name :: "failure \<Rightarrow> string" where
  "variant_name NotEnrolled = ''NotEnrolled''"
| "variant_name EnrollmentUnconfirmed = ''EnrollmentUnconfirmed''"
| "variant_name AlreadyEnrolled = ''AlreadyEnrolled''"
| "variant_name NoPendingPairing = ''NoPendingPairing''"
| "variant_name InvalidPairingCode = ''InvalidPairingCode''"
| "variant_name PairingAttemptsExhausted = ''PairingAttemptsExhausted''"
| "variant_name NoProvisionalEnrollment = ''NoProvisionalEnrollment''"
| "variant_name ConfirmationExpired = ''ConfirmationExpired''"
| "variant_name InvalidCredential = ''InvalidCredential''"
| "variant_name PasswordRejected = ''PasswordRejected''"
| "variant_name RateLimited = ''RateLimited''"
| "variant_name Busy = ''Busy''"
| "variant_name InvalidArgument = ''InvalidArgument''"
| "variant_name Unavailable = ''Unavailable''"

fun auth_message :: "failure \<Rightarrow> string" where
  "auth_message NotEnrolled = ''No operator is enrolled''"
| "auth_message EnrollmentUnconfirmed = ''A provisional enrollment awaits recovery-key confirmation''"
| "auth_message AlreadyEnrolled = ''An operator is already enrolled''"
| "auth_message NoPendingPairing = ''No pairing is pending''"
| "auth_message InvalidPairingCode = ''The pairing code is incorrect''"
| "auth_message PairingAttemptsExhausted = ''Too many incorrect pairing codes; the pairing was cancelled''"
| "auth_message NoProvisionalEnrollment = ''No provisional enrollment awaits confirmation''"
| "auth_message ConfirmationExpired = ''The confirmation deadline passed; the provisional enrollment was discarded''"
| "auth_message InvalidCredential = ''The credential is incorrect''"
| "auth_message PasswordRejected = ''The new password does not meet the password rules''"
| "auth_message RateLimited = ''Too many attempts; try again later''"
| "auth_message Busy = ''Authentication is busy; try again''"
| "auth_message InvalidArgument = ''An argument is invalid''"
| "auth_message Unavailable = ''Authentication state is unavailable''"

text \<open>An error reply: its name, derived from the variant under the prefix, and its message.\<close>

definition to_dbus :: "failure \<Rightarrow> string \<times> string" where
  "to_dbus e = (AUTH_ERROR_PREFIX @ variant_name e, auth_message e)"

definition auth_outcome :: "failure + 'a \<Rightarrow> string" where
  "auth_outcome r = (case r of Inr _ \<Rightarrow> ''ok'' | Inl e \<Rightarrow> variant_name e)"

definition event_line :: "string \<Rightarrow> u32 option \<Rightarrow> failure + 'a \<Rightarrow> string" where
  "event_line member uid r =
     (case uid of
        Some n \<Rightarrow> ''sl-authd: '' @ member @ '' uid='' @ decimal (unat n) @ '': '' @ auth_outcome r
      | None \<Rightarrow> ''sl-authd: '' @ member @ '': '' @ auth_outcome r)"

section \<open>Method calls\<close>

text \<open>A call as the bus delivers it; the caller's UID of a password check is not part of it.\<close>

datatype auth_call = PasswordCall string | PlainCall request

fun takes_permit :: "auth_call \<Rightarrow> bool" where
  "takes_permit (PasswordCall _) = True"
| "takes_permit (PlainCall (ConsumePairing _ _)) = True"
| "takes_permit (PlainCall (ConfirmRecoveryKey _)) = True"
| "takes_permit (PlainCall (RecoverPassword _ _)) = True"
| "takes_permit (PlainCall _) = False"

fun is_plain :: "auth_call \<Rightarrow> bool" where
  "is_plain (PlainCall (VerifyPassword _ _)) = False"
| "is_plain (PlainCall _) = True"
| "is_plain (PasswordCall _) = True"

text \<open>The bus answers the question for the sender's UID with \<open>uid\<close>, or not at all.\<close>

fun request_of :: "u32 option \<Rightarrow> auth_call \<Rightarrow> request option" where
  "request_of uid (PasswordCall pw) = map_option (\<lambda>u. VerifyPassword u pw) uid"
| "request_of uid (PlainCall req) = Some req"

definition serve_call :: "machine_env \<Rightarrow> u32 option \<Rightarrow> auth_call \<Rightarrow> (shared, failure, reply) op" where
  "serve_call env uid c =
     (case request_of uid c of None \<Rightarrow> err Unavailable | Some req \<Rightarrow> with_core (execute env req))"

section \<open>Interleavings\<close>

text \<open>The calls in flight, by an identifier, and the replies already given.\<close>

record service =
  sh :: shared
  waiting :: "nat \<rightharpoonup> auth_call"
  replies :: "(nat \<times> (failure + reply)) list"

inductive service_step :: "machine_env \<Rightarrow> service \<Rightarrow> service \<Rightarrow> bool" for env where
  arrive: "i \<notin> dom (waiting s) \<Longrightarrow> is_plain c \<Longrightarrow> \<not> takes_permit c \<Longrightarrow>
    service_step env s (s\<lparr>waiting := (waiting s)(i \<mapsto> c)\<rparr>)"
| admitted: "i \<notin> dom (waiting s) \<Longrightarrow> takes_permit c \<Longrightarrow> is_plain c \<Longrightarrow> admit (sh s) = (Inr (), m) \<Longrightarrow>
    service_step env s (s\<lparr>sh := m, waiting := (waiting s)(i \<mapsto> c)\<rparr>)"
| busy: "i \<notin> dom (waiting s) \<Longrightarrow> takes_permit c \<Longrightarrow> admit (sh s) = (Inl e, m) \<Longrightarrow>
    service_step env s (s\<lparr>sh := m, replies := (i, Inl e) # replies s\<rparr>)"
| finish: "waiting s i = Some c \<Longrightarrow> serve_call env uid c (sh s) = (r, m) \<Longrightarrow>
    service_step env s (s\<lparr>sh := (if takes_permit c then drop_permit m else m), waiting := (waiting s)(i := None),
      replies := (i, r) # replies s\<rparr>)"

inductive service_run :: "machine_env \<Rightarrow> service \<Rightarrow> bool" for env where
  init: "reachable env c \<Longrightarrow> service_run env \<lparr>sh = shared_new c, waiting = Map.empty, replies = []\<rparr>"
| step: "service_run env s \<Longrightarrow> service_step env s s' \<Longrightarrow> service_run env s'"

text \<open>The permits given out are those of the calls in flight.\<close>

definition permits_held :: "service \<Rightarrow> nat set" where
  "permits_held s = {i. \<exists>c. waiting s i = Some c \<and> takes_permit c}"

definition service_inv :: "machine_env \<Rightarrow> service \<Rightarrow> bool" where
  "service_inv env s \<longleftrightarrow> finite (dom (waiting s)) \<and> admitted (sh s) = card (permits_held s) \<and>
     admitted (sh s) \<le> MAX_ADMITTED \<and> reachable env (core_of (sh s))"

lemma finite_permits: "finite (dom (waiting s)) \<Longrightarrow> finite (permits_held s)"
  by (rule finite_subset [of _ "dom (waiting s)"]) (auto simp: permits_held_def)

lemma permits_insert:
  "i \<notin> dom (waiting s) \<Longrightarrow> permits_held (s\<lparr>waiting := (waiting s)(i \<mapsto> c)\<rparr>) =
     (if takes_permit c then insert i (permits_held s) else permits_held s)"
  by (auto simp: permits_held_def)

lemma permits_remove:
  "permits_held (s\<lparr>waiting := (waiting s)(i := None)\<rparr>) = permits_held s - {i}"
  by (auto simp: permits_held_def)

lemma serve_call_shared:
  assumes "serve_call env uid c m = (r, m')" "reachable env (core_of m)"
  shows "admitted m' = admitted m" "reachable env (core_of m')"
  using assms by (auto simp: serve_call_def with_core_def on_part_def err_def reachable.serve
      split: option.splits if_splits prod.splits) (metis reachable.serve snd_conv)+

lemma permits_cong: "waiting s = waiting s' \<Longrightarrow> permits_held s = permits_held s'"
  by (simp add: permits_held_def)

lemma service_step_inv:
  assumes "service_step env s s'" "service_inv env s"
  shows "service_inv env s'"
  using assms(1)
proof cases
  case (arrive i c)
  then show ?thesis using assms(2) permits_insert [of i s c] by (auto simp: service_inv_def)
next
  case (admitted i c m)
  have "permits_held s' = permits_held (s\<lparr>waiting := (waiting s)(i \<mapsto> c)\<rparr>)"
    using admitted by (intro permits_cong) simp
  moreover have "i \<notin> permits_held s" using admitted by (auto simp: permits_held_def)
  ultimately show ?thesis
    using assms(2) admitted permits_insert [of i s c] finite_permits [of s]
    by (auto simp: service_inv_def admit_def MAX_ADMITTED_def split: if_splits)
next
  case (busy i c e m)
  have "permits_held s' = permits_held s" using busy by (intro permits_cong) simp
  then show ?thesis using assms(2) busy by (auto simp: service_inv_def admit_def split: if_splits)
next
  case (finish i c uid r m)
  have "permits_held s' = permits_held (s\<lparr>waiting := (waiting s)(i := None)\<rparr>)"
    using finish by (intro permits_cong) simp
  then have held: "permits_held s' = permits_held s - {i}" by (simp add: permits_remove)
  have i: "i \<in> permits_held s \<longleftrightarrow> takes_permit c" using finish by (auto simp: permits_held_def)
  have m: "admitted m = admitted (sh s)" "reachable env (core_of m)"
    using serve_call_shared [of env uid c "sh s" r m] finish assms(2) by (simp_all add: service_inv_def)
  have card: "card (permits_held s') = (if takes_permit c then card (permits_held s) - 1 else card (permits_held s))"
    using held i by simp
  show ?thesis
    using assms(2) finish m unfolding service_inv_def card by (auto simp: drop_permit_def)
qed

lemma service_run_inv: "service_run env s \<Longrightarrow> service_inv env s"
proof (induction rule: service_run.induct)
  case (init c)
  then show ?case by (simp add: service_inv_def shared_new_def permits_held_def)
next
  case (step s s')
  then show ?case by (blast intro: service_step_inv)
qed

section \<open>The signature check\<close>

datatype signature = SignatureUnit | Signature string

definition METHOD_SIGNATURES :: "(string \<times> string) list" where
  "METHOD_SIGNATURES =
     [(''VerifyPassword'', ''s''), (''ConsumePairing'', ''(ss)''), (''ConfirmRecoveryKey'', ''s''),
      (''RecoverPassword'', ''(ss)''), (''EnsurePendingPairing'', ''''), (''CancelPendingPairing'', ''''),
      (''ResetEnrollment'', ''''), (''GetPendingPairing'', ''''), (''GetEnrollmentState'', '''')]"

fun signature_string :: "signature \<Rightarrow> string" where
  "signature_string SignatureUnit = ''''"
| "signature_string (Signature s) = s"

text \<open>A message body: its signature and whether it has no bytes.\<close>

definition has_unexpected_arguments :: "string \<Rightarrow> signature \<Rightarrow> bool \<Rightarrow> bool" where
  "has_unexpected_arguments member sig is_empty =
     (case List.find (\<lambda>(name, _). name = member) METHOD_SIGNATURES of
        None \<Rightarrow> False
      | Some (_, expected) \<Rightarrow>
          if expected = '''' then sig \<noteq> SignatureUnit \<or> \<not> is_empty else signature_string sig \<noteq> expected)"

section \<open>Properties\<close>


definition demo_service :: service where
  "demo_service = \<lparr>sh = (shared_new demo_core)\<lparr>admitted := 1\<rparr>, waiting = [4 \<mapsto> PasswordCall ''guess''], replies = []\<rparr>"


end
