(* ===== verification/Remote_State.thy ===== *)
theory Remote_State
  imports Fs
begin

text \<open>
  The layout of the remote-management state (\<^verbatim>\<open>src/crates/remote-state/src/lib.rs\<close>): the two markers, the TLS
  generations below \<^verbatim>\<open>tls\<close> with the link \<^verbatim>\<open>tls/current\<close>, and the strict texts of generation names and
  fingerprints.  The decoding as UTF-8 that precedes a check of a text is left out: the checks accept
  only ASCII.
\<close>

section \<open>Names and texts\<close>

definition STATE_DIR :: path where "STATE_DIR = [''var'', ''lib'', ''sl-remote-management'']"
definition ENABLED :: string where "ENABLED = ''enabled''"
definition RESET_PENDING :: string where "RESET_PENDING = ''reset-pending''"
definition TLS_DIR :: string where "TLS_DIR = ''tls''"
definition CURRENT :: string where "CURRENT = ''current''"
definition KEY_FILE :: string where "KEY_FILE = ''key.pem''"
definition CERT_FILE :: string where "CERT_FILE = ''cert.pem''"
definition FINGERPRINT_FILE :: string where "FINGERPRINT_FILE = ''fingerprint''"
definition GENERATION_PREFIX :: string where "GENERATION_PREFIX = ''gen-''"
definition OPENSSL_FINGERPRINT_PREFIX :: string where "OPENSSL_FINGERPRINT_PREFIX = ''sha256 Fingerprint=''"

lemmas name_defs = STATE_DIR_def ENABLED_def RESET_PENDING_def TLS_DIR_def CURRENT_def KEY_FILE_def CERT_FILE_def
  FINGERPRINT_FILE_def GENERATION_PREFIX_def

definition is_generation_name :: "string \<Rightarrow> bool" where
  "is_generation_name name =
     (case strip_prefix GENERATION_PREFIX name of
        None \<Rightarrow> False
      | Some hex \<Rightarrow> length hex = 16 \<and> list_all is_lower_hex hex)"

definition generation_name :: "u8 list \<Rightarrow> string" where
  "generation_name bytes = fold (\<lambda>b name. name @ hex_byte b) bytes GENERATION_PREFIX"

definition fingerprint_byte_ok :: "nat \<times> char \<Rightarrow> bool" where
  "fingerprint_byte_ok = (\<lambda>(i, b). if i mod 3 = 2 then b = CHR '':'' else is_upper_hex b)"

definition is_canonical_fingerprint :: "string \<Rightarrow> bool" where
  "is_canonical_fingerprint t \<longleftrightarrow>
     length t = 95 \<and> list_all fingerprint_byte_ok (List.enumerate 0 t)"

definition parse_openssl_fingerprint :: "string \<Rightarrow> string option" where
  "parse_openssl_fingerprint stdout =
     (case strip_suffix [CHR 0x0A] stdout of
        None \<Rightarrow> None
      | Some line \<Rightarrow>
          (case strip_prefix OPENSSL_FINGERPRINT_PREFIX line of
             None \<Rightarrow> None
           | Some f \<Rightarrow> if is_canonical_fingerprint f then Some f else None))"

definition fingerprint_file_contents :: "string \<Rightarrow> string" where
  "fingerprint_file_contents f = f @ [CHR 0x0A]"

definition parse_fingerprint_file :: "string \<Rightarrow> string option" where
  "parse_fingerprint_file contents =
     (case strip_suffix [CHR 0x0A] contents of
        None \<Rightarrow> None
      | Some f \<Rightarrow> if is_canonical_fingerprint f then Some f else None)"

section \<open>Reading the identity\<close>

datatype invalid_identity = InvalidIdentity

definition tls_path :: path where "tls_path = STATE_DIR @ [TLS_DIR]"

definition current_generation :: "io_env \<Rightarrow> (world, invalid_identity, string option) op" where
  "current_generation io =
     and_then (attempt (read_link io (tls_path @ [CURRENT]))) (\<lambda>r.
       case r of
         Inr target \<Rightarrow> if is_generation_name target then ok (Some target) else err InvalidIdentity
       | Inl e \<Rightarrow> if e = NotFound then ok None else err InvalidIdentity)"

definition current_fingerprint :: "io_env \<Rightarrow> (world, invalid_identity, string option) op" where
  "current_fingerprint io =
     and_then (current_generation io) (\<lambda>g.
       case g of
         None \<Rightarrow> ok None
       | Some generation \<Rightarrow>
           and_then (map_err (\<lambda>_. InvalidIdentity) (read_file io (tls_path @ [generation, FINGERPRINT_FILE]))) (\<lambda>contents.
             lift_res (map_sum (\<lambda>e. e) Some (ok_or InvalidIdentity (parse_fingerprint_file contents)))))"

definition is_kind :: "io_env \<Rightarrow> path \<Rightarrow> bool \<Rightarrow> (world, 'e, bool) op" where
  "is_kind io p directory =
     and_then (attempt (symlink_metadata io p)) (\<lambda>r.
       ok (case r of Inl _ \<Rightarrow> False | Inr n \<Rightarrow> (case n of Dir \<Rightarrow> directory | File _ _ \<Rightarrow> \<not> directory | Symlink _ \<Rightarrow> False)))"

text \<open>The three checks are combined by a lazy disjunction: the first that fails ends them.\<close>

definition current_identity :: "io_env \<Rightarrow> (world, invalid_identity, string option) op" where
  "current_identity io =
     and_then (current_generation io) (\<lambda>g.
       case g of
         None \<Rightarrow> ok None
       | Some generation \<Rightarrow>
           and_then (is_kind io (tls_path @ [generation]) True) (\<lambda>a.
             if \<not> a then err InvalidIdentity
             else and_then (is_kind io (tls_path @ [generation, KEY_FILE]) False) (\<lambda>b.
               if \<not> b then err InvalidIdentity
               else and_then (is_kind io (tls_path @ [generation, CERT_FILE]) False) (\<lambda>c.
                 if \<not> c then err InvalidIdentity
                 else and_then (current_fingerprint io) (\<lambda>_. ok (Some generation))))))"

section \<open>Hexadecimal texts\<close>

definition upper_hex_digit :: "nat \<Rightarrow> char" where
  "upper_hex_digit n = (if n < 10 then char_of (48 + n) else char_of (55 + n))"

definition upper_hex_byte :: "u8 \<Rightarrow> string" where
  "upper_hex_byte b = [upper_hex_digit (unat b div 16), upper_hex_digit (unat b mod 16)]"

text \<open>The text of a fingerprint: its bytes as pairs of digits with colons between them.\<close>

fun fingerprint_text :: "u8 list \<Rightarrow> string" where
  "fingerprint_text [] = []"
| "fingerprint_text [b] = upper_hex_byte b"
| "fingerprint_text (b # bs) = upper_hex_byte b @ CHR '':'' # fingerprint_text bs"

lemma lower_hex_digit_cases: "is_lower_hex c \<longleftrightarrow> (\<exists>n < 16. c = hex_digit n)"
proof
  assume c: "is_lower_hex c"
  let ?m = "of_char c :: nat"
  have eq: "c = char_of ?m" by simp
  show "\<exists>n < 16. c = hex_digit n"
  proof (cases "is_ascii_digit c")
    case True
    then have "?m - 48 < 10" "48 + (?m - 48) = ?m" by (auto simp: is_ascii_digit_def Let_def)
    then show ?thesis using eq by (intro exI [of _ "?m - 48"]) (simp add: hex_digit_def)
  next
    case False
    then have "?m - 87 < 16" "\<not> ?m - 87 < 10" "87 + (?m - 87) = ?m" using c by (auto simp: is_lower_hex_def Let_def)
    then show ?thesis using eq by (intro exI [of _ "?m - 87"]) (simp add: hex_digit_def)
  qed
qed (use is_lower_hex_hex_digit in blast)

lemma upper_hex_digit_cases: "is_upper_hex c \<longleftrightarrow> (\<exists>n < 16. c = upper_hex_digit n)"
proof
  assume c: "is_upper_hex c"
  let ?m = "of_char c :: nat"
  have eq: "c = char_of ?m" by simp
  show "\<exists>n < 16. c = upper_hex_digit n"
  proof (cases "is_ascii_digit c")
    case True
    then have "?m - 48 < 10" "48 + (?m - 48) = ?m" by (auto simp: is_ascii_digit_def Let_def)
    then show ?thesis using eq by (intro exI [of _ "?m - 48"]) (simp add: upper_hex_digit_def)
  next
    case False
    then have "?m - 55 < 16" "\<not> ?m - 55 < 10" "55 + (?m - 55) = ?m" using c by (auto simp: is_upper_hex_def Let_def)
    then show ?thesis using eq by (intro exI [of _ "?m - 55"]) (simp add: upper_hex_digit_def)
  qed
qed (auto simp: upper_hex_digit_def is_upper_hex_def is_ascii_digit_def Let_def split: if_splits)

lemma byte_of_digits: "m < 16 \<Longrightarrow> n < 16 \<Longrightarrow> \<exists>b :: u8. unat b div 16 = m \<and> unat b mod 16 = n"
proof -
  assume "m < 16" "n < 16"
  then have "unat (word_of_nat (16 * m + n) :: u8) = 16 * m + n" by (simp add: unat_of_nat del: of_nat_add of_nat_mult)
  then show ?thesis using \<open>n < 16\<close> by (intro exI [of _ "word_of_nat (16 * m + n)"]) (simp del: of_nat_add of_nat_mult)
qed

lemma unat_digits_lt: "unat (b :: u8) div 16 < 16" "unat b mod 16 < 16"
  using unat_u8_lt [of b] by simp_all

lemma hex_pair_exact: "is_lower_hex a \<and> is_lower_hex b \<longleftrightarrow> (\<exists>x. [a, b] = hex_byte x)"
proof
  assume "is_lower_hex a \<and> is_lower_hex b"
  then obtain m n where "m < 16" "n < 16" "a = hex_digit m" "b = hex_digit n" by (auto simp: lower_hex_digit_cases)
  then show "\<exists>x. [a, b] = hex_byte x" using byte_of_digits [of m n] by (auto simp: hex_byte_def)
next
  assume "\<exists>x. [a, b] = hex_byte x"
  then show "is_lower_hex a \<and> is_lower_hex b"
    unfolding hex_byte_def lower_hex_digit_cases using unat_digits_lt by blast
qed

lemma upper_hex_pair_exact: "is_upper_hex a \<and> is_upper_hex b \<longleftrightarrow> (\<exists>x. [a, b] = upper_hex_byte x)"
proof
  assume "is_upper_hex a \<and> is_upper_hex b"
  then obtain m n where "m < 16" "n < 16" "a = upper_hex_digit m" "b = upper_hex_digit n"
    by (auto simp: upper_hex_digit_cases)
  then show "\<exists>x. [a, b] = upper_hex_byte x" using byte_of_digits [of m n] by (auto simp: upper_hex_byte_def)
next
  assume "\<exists>x. [a, b] = upper_hex_byte x"
  then show "is_upper_hex a \<and> is_upper_hex b"
    unfolding upper_hex_byte_def upper_hex_digit_cases using unat_digits_lt by blast
qed

section \<open>The texts, exactly\<close>

lemma hex_string_exact: "length t = 2 * n \<Longrightarrow> list_all is_lower_hex t \<longleftrightarrow> (\<exists>bs. length bs = n \<and> t = hex_string bs)"
proof (induction n arbitrary: t)
  case 0
  then show ?case by (simp add: hex_string_def)
next
  case (Suc n)
  then obtain a b u where t: "t = a # b # u" "length u = 2 * n"
    by (cases t; cases "tl t") auto
  have "list_all is_lower_hex t \<longleftrightarrow> (\<exists>x. [a, b] = hex_byte x) \<and> (\<exists>bs. length bs = n \<and> u = hex_string bs)"
    using Suc.IH [OF t(2)] hex_pair_exact [of a b] by (auto simp: t(1))
  also have "\<dots> \<longleftrightarrow> (\<exists>x bs. length bs = n \<and> t = hex_string (x # bs))"
    by (auto simp: t(1) hex_string_def hex_byte_def)
  also have "\<dots> \<longleftrightarrow> (\<exists>bs. length bs = Suc n \<and> t = hex_string bs)"
    by (metis length_Suc_conv length_Cons)
  finally show ?case .
qed

lemma generation_name_hex: "generation_name bs = GENERATION_PREFIX @ hex_string bs"
proof -
  have "fold (\<lambda>b name. name @ hex_byte b) bs p = p @ hex_string bs" for p
    by (induction bs arbitrary: p) (simp_all add: hex_string_def)
  then show ?thesis by (simp add: generation_name_def)
qed

lemma fingerprint_byte_ok_simp:
  "fingerprint_byte_ok (i, b) \<longleftrightarrow> (if i mod 3 = 2 then b = CHR '':'' else is_upper_hex b)"
  by (simp add: fingerprint_byte_ok_def)

lemma numeral_3_plus: "3 + n = Suc (Suc (Suc n))"
  by simp

lemma canonical_from:
  "length t = 3 * n + 2 \<Longrightarrow>
   list_all fingerprint_byte_ok (List.enumerate (3 * k) t) \<longleftrightarrow>
     (\<exists>bs. length bs = Suc n \<and> t = fingerprint_text bs)"
proof (induction n arbitrary: t k)
  case 0
  then obtain a b where t: "t = [a, b]" by (cases t; cases "tl t") auto
  have "(3 * k) mod 3 = (0::nat)" "Suc (3 * k) mod 3 = 1" by simp presburger
  then have "?case \<longleftrightarrow> ((\<exists>x. [a, b] = upper_hex_byte x) \<longleftrightarrow> (\<exists>bs. length bs = Suc 0 \<and> t = fingerprint_text bs))"
    using upper_hex_pair_exact [of a b] by (simp add: t fingerprint_byte_ok_simp)
  then show ?case by (auto simp: t length_Suc_conv)
next
  case (Suc n)
  then obtain a b c u where t: "t = a # b # c # u" "length u = 3 * n + 2"
    by (cases t; cases "tl t"; cases "tl (tl t)") auto
  have "(3 * k) mod 3 = (0::nat)" "Suc (3 * k) mod 3 = 1" "Suc (Suc (3 * k)) mod 3 = 2" by simp presburger+
  then have "list_all fingerprint_byte_ok (List.enumerate (3 * k) t) \<longleftrightarrow>
    (\<exists>x. [a, b] = upper_hex_byte x) \<and> c = CHR '':'' \<and> (\<exists>bs. length bs = Suc n \<and> u = fingerprint_text bs)"
    using Suc.IH [OF t(2), of "Suc k", unfolded mult_Suc_right numeral_3_plus] upper_hex_pair_exact [of a b] by (simp add: t(1) fingerprint_byte_ok_simp) blast
  also have "\<dots> \<longleftrightarrow> (\<exists>x y bs. length bs = n \<and> t = fingerprint_text (x # y # bs))"
    by (auto simp: t(1) length_Suc_conv upper_hex_byte_def)
  also have "\<dots> \<longleftrightarrow> (\<exists>bs. length bs = Suc (Suc n) \<and> t = fingerprint_text bs)"
    by (metis length_Suc_conv)
  finally show ?case .
qed

lemma canonical_fingerprint_exact:
  "is_canonical_fingerprint t \<longleftrightarrow> (\<exists>bs. length bs = 32 \<and> t = fingerprint_text bs)"
proof -
  have len: "length (fingerprint_text bs) = 3 * n + 2" if "length bs = Suc n" for bs n
    using that by (induction bs arbitrary: n rule: fingerprint_text.induct) (auto simp: upper_hex_byte_def)
  have "is_canonical_fingerprint t \<longleftrightarrow> length t = 95 \<and> (\<exists>bs. length bs = 32 \<and> t = fingerprint_text bs)"
    using canonical_from [of t 31 0] unfolding is_canonical_fingerprint_def by auto
  then show ?thesis using len [of _ 31] by auto
qed

section \<open>Properties\<close>

text \<open>The names of TLS generations are exactly the printed forms of eight bytes, one name for each: a link
  can name nothing else, in particular no other directory.\<close>

theorem generation_names_exact:
  "(is_generation_name name \<longleftrightarrow> (\<exists>bs. length bs = 8 \<and> name = generation_name bs)) \<and>
   (generation_name as = generation_name bs \<longleftrightarrow> as = bs)"
proof -
  have "is_generation_name name \<longleftrightarrow> (\<exists>hex. name = GENERATION_PREFIX @ hex \<and> length hex = 16 \<and> list_all is_lower_hex hex)"
    by (auto simp: is_generation_name_def strip_prefix_Some split: option.splits)
  also have "\<dots> \<longleftrightarrow> (\<exists>bs. length bs = 8 \<and> name = generation_name bs)"
    using hex_string_exact [of _ 8] by (auto simp: generation_name_hex)
  finally show ?thesis by (simp add: generation_name_hex hex_string_inj)
qed

text \<open>A fingerprint file and the output of openssl are read exactly: what is accepted is the text of a 32-byte
  digest in canonical form, with the one line that was written or the one line that openssl prints, and
  nothing else.\<close>

theorem fingerprints_exact:
  "(parse_fingerprint_file contents = Some f \<longleftrightarrow>
      (\<exists>digest. length digest = 32 \<and> f = fingerprint_text digest) \<and> contents = fingerprint_file_contents f) \<and>
   (parse_openssl_fingerprint stdout = Some f \<longleftrightarrow>
      (\<exists>digest. length digest = 32 \<and> f = fingerprint_text digest) \<and>
      stdout = ''sha256 Fingerprint='' @ f @ [CHR 0x0A])"
proof -
  have s: "strip_suffix p (t @ p) = Some t" for p t by (simp add: strip_suffix_Some)
  have "parse_fingerprint_file contents = Some f \<longleftrightarrow> is_canonical_fingerprint f \<and> contents = fingerprint_file_contents f"
    by (auto simp: parse_fingerprint_file_def fingerprint_file_contents_def strip_suffix_Some s split: option.splits)
  moreover have "parse_openssl_fingerprint stdout = Some f \<longleftrightarrow>
      is_canonical_fingerprint f \<and> stdout = (OPENSSL_FINGERPRINT_PREFIX @ f) @ [CHR 0x0A]"
    by (auto simp: parse_openssl_fingerprint_def strip_suffix_Some strip_prefix_Some s
        simp del: append_assoc split: option.splits)
  ultimately show ?thesis
    by (simp add: canonical_fingerprint_exact [symmetric] OPENSSL_FINGERPRINT_PREFIX_def)
qed

end
