(* ===== verification/Worker.thy ===== *)
theory Worker
  imports Remote_State
begin

text \<open>
  The remote-management worker (\<^verbatim>\<open>src/remote-worker/src/worker.rs\<close>, \<^verbatim>\<open>main.rs\<close>): the only writer of the
  remote-management state.  Its five modes are operations on the file system of \<^verbatim>\<open>Fs\<close>, in which every call may
  fail and a crash may come at any time.

  What the worker calls outside is in \<open>worker_env\<close>: openssl is a program that reads its arguments and may
  change files, sl-authd is behind \<open>reset_enrollment\<close>, randomness behind \<open>random8\<close>.  The points at
  which the tests inject failures are kept as \<open>inject\<close>; in production it is constantly false.
\<close>

section \<open>Modes\<close>

datatype mode = Enable | Disable | RotateTls | BootReset | ClearResetPending

definition mode_parse :: "string \<Rightarrow> mode option" where
  "mode_parse a =
     (if a = ''enable'' then Some Enable
      else if a = ''disable'' then Some Disable
      else if a = ''rotate-tls'' then Some RotateTls
      else if a = ''boot-reset'' then Some BootReset
      else if a = ''clear-reset-pending'' then Some ClearResetPending
      else None)"

fun mode_name :: "mode \<Rightarrow> string" where
  "mode_name Enable = ''enable''"
| "mode_name Disable = ''disable''"
| "mode_name RotateTls = ''rotate-tls''"
| "mode_name BootReset = ''boot-reset''"
| "mode_name ClearResetPending = ''clear-reset-pending''"

fun writes_identity :: "mode \<Rightarrow> bool" where
  "writes_identity Enable = True"
| "writes_identity RotateTls = True"
| "writes_identity _ = False"

section \<open>Environment and state\<close>

datatype failed = Failed string

datatype ownership = RemotedGroup u32 | Unavailable

datatype point = CreateMarker string | RemoveMarker string | RemoveCurrent | RemoveGenerations | SwapCurrent

record 'a worker_env =
  io :: io_env
  openssl_runs :: "string list \<Rightarrow> nat \<Rightarrow> fs \<Rightarrow> fs \<times> string option"
  reset_enrollment :: "('a, unit, unit) op"
  random8 :: "nat \<Rightarrow> u8 list option"
  ownership :: ownership
  inject :: "nat \<Rightarrow> point \<Rightarrow> bool"

record 'a wstate =
  wd :: world
  auth :: 'a

definition on_world :: "(world, 'e, 'b) op \<Rightarrow> ('a wstate, 'e, 'b) op" where
  "on_world m = on_part wd (\<lambda>w s. s\<lparr>wd := w\<rparr>) m"

definition on_auth :: "('a, 'e, 'b) op \<Rightarrow> ('a wstate, 'e, 'b) op" where
  "on_auth m = on_part auth (\<lambda>a s. s\<lparr>auth := a\<rparr>) m"

definition io_failure :: "(world, io_error, 'b) op \<Rightarrow> string \<Rightarrow> ('a wstate, failed, 'b) op" where
  "io_failure m message = map_err (\<lambda>_. Failed message) (on_world m)"

definition fault :: "'a worker_env \<Rightarrow> point \<Rightarrow> ('a wstate, failed, unit) op" where
  "fault env p s = (if inject env (tick (wd s)) p then (Inl (Failed ''injected failure''), s) else (Inr (), s))"

section \<open>External programs\<close>

definition CERT_SUBJECT :: string where "CERT_SUBJECT = ''/CN=SignalLayer CoreOS remote management''"

definition os_path :: "path \<Rightarrow> string" where
  "os_path p = concat (map (\<lambda>c. CHR ''/'' # c) p)"

definition req_arguments :: "path \<Rightarrow> string list" where
  "req_arguments generation =
     [''req'', ''-x509'', ''-new'', ''-newkey'', ''ec'', ''-pkeyopt'', ''ec_paramgen_curve:P-256'', ''-pkeyopt'',
      ''ec_param_enc:named_curve'', ''-noenc'', ''-keyout''] @
     [os_path (generation @ [KEY_FILE]), ''-out'', os_path (generation @ [CERT_FILE])] @
     [''-subj'', CERT_SUBJECT, ''-not_after'', ''99991231235959Z'', ''-addext'', ''basicConstraints=critical,CA:FALSE'',
      ''-addext'', ''keyUsage=critical,digitalSignature'', ''-addext'', ''extendedKeyUsage=serverAuth'']"

definition fingerprint_arguments :: "path \<Rightarrow> string list" where
  "fingerprint_arguments generation =
     [''x509'', ''-in'', os_path (generation @ [CERT_FILE]), ''-noout'', ''-fingerprint'', ''-sha256'']"

definition openssl :: "'a worker_env \<Rightarrow> string list \<Rightarrow> (world, unit, string) op" where
  "openssl env arguments w =
     (case openssl_runs env arguments (tick w) (disk w) of
        (d, out) \<Rightarrow> (ok_or () out, put_disk d (w\<lparr>tick := tick w + 1\<rparr>)))"

definition random_bytes8 :: "'a worker_env \<Rightarrow> (world, unit, u8 list) op" where
  "random_bytes8 env w = (ok_or () (random8 env (tick w)), w\<lparr>tick := tick w + 1\<rparr>)"

section \<open>Directories and markers\<close>

definition marker_exists :: "'a worker_env \<Rightarrow> string \<Rightarrow> ('a wstate, failed, bool) op" where
  "marker_exists env name =
     and_then (attempt (on_world (symlink_metadata (io env) (STATE_DIR @ [name])))) (\<lambda>r.
       case r of
         Inr _ \<Rightarrow> ok True
       | Inl e \<Rightarrow> if e = NotFound then ok False else err (Failed ''a remote-management marker could not be checked''))"

definition apply_group :: "'a worker_env \<Rightarrow> path \<Rightarrow> ('a wstate, failed, unit) op" where
  "apply_group env p =
     (case ownership env of
        RemotedGroup gid \<Rightarrow> io_failure (set_attributes (io env) p) ''TLS file ownership could not be set''
      | Unavailable \<Rightarrow> err (Failed ''the sl-remoted group is unavailable''))"

definition ensure_directory :: "'a worker_env \<Rightarrow> path \<Rightarrow> bool \<Rightarrow> ('a wstate, failed, unit) op" where
  "ensure_directory env p grouped =
     and_then (attempt (on_world (create_entry (io env) p Dir))) (\<lambda>r.
       case r of
         Inr _ \<Rightarrow>
           and_then (io_failure (set_attributes (io env) p) ''a state directory could not be created'') (\<lambda>_.
           and_then (if grouped then apply_group env p else ok ()) (\<lambda>_.
           io_failure (sync_dir (io env) (butlast p)) ''a state directory could not be created''))
       | Inl e \<Rightarrow>
           if e = AlreadyExists
           then and_then (attempt (on_world (symlink_metadata (io env) p))) (\<lambda>m.
             if m = Inr Dir then ok () else err (Failed ''a state path is not a directory''))
           else err (Failed ''a state directory could not be created''))"

definition marker_tmp :: "string \<Rightarrow> path" where
  "marker_tmp name = STATE_DIR @ [name @ ''.tmp'']"

definition write_marker :: "'a worker_env \<Rightarrow> string \<Rightarrow> (world, io_error, unit) op" where
  "write_marker env name =
     and_then (create_entry (io env) (marker_tmp name) (File [] False)) (\<lambda>_.
     and_then (set_attributes (io env) (marker_tmp name)) (\<lambda>_.
     and_then (sync_file (io env) (marker_tmp name)) (\<lambda>_.
     and_then (rename (io env) (marker_tmp name) (STATE_DIR @ [name])) (\<lambda>_.
     sync_dir (io env) STATE_DIR))))"

definition create_marker :: "'a worker_env \<Rightarrow> string \<Rightarrow> ('a wstate, failed, unit) op" where
  "create_marker env name =
     and_then (ensure_directory env STATE_DIR False) (\<lambda>_.
     and_then (marker_exists env name) (\<lambda>present.
       if present then ok ()
       else
         and_then (fault env (CreateMarker name)) (\<lambda>_.
         and_then (attempt (on_world (write_marker env name))) (\<lambda>written.
           if is_ok written then ok ()
           else and_then (attempt (on_world (remove_file (io env) (marker_tmp name)))) (\<lambda>_.
             err (Failed ''a remote-management marker could not be written''))))))"

definition remove_marker :: "'a worker_env \<Rightarrow> string \<Rightarrow> ('a wstate, failed, unit) op" where
  "remove_marker env name =
     and_then (marker_exists env name) (\<lambda>present.
       if \<not> present then ok ()
       else
         and_then (fault env (RemoveMarker name)) (\<lambda>_.
         io_failure (and_then (remove_file (io env) (STATE_DIR @ [name])) (\<lambda>_. sync_dir (io env) STATE_DIR))
           ''a remote-management marker could not be removed''))"

section \<open>Generations\<close>

definition remove_entry :: "'a worker_env \<Rightarrow> path \<Rightarrow> ('a wstate, failed, unit) op" where
  "remove_entry env p =
     and_then (attempt (on_world (symlink_metadata (io env) p))) (\<lambda>m.
       io_failure (if m = Inr Dir then remove_dir_all (io env) p else remove_file (io env) p)
         ''an old TLS generation could not be removed'')"

fun remove_listed :: "'a worker_env \<Rightarrow> string option \<Rightarrow> string list \<Rightarrow> bool \<Rightarrow> ('a wstate, failed, unit) op" where
  "remove_listed env referenced [] removed =
     (if removed then io_failure (sync_dir (io env) tls_path) ''an old TLS generation could not be removed'' else ok ())"
| "remove_listed env referenced (name # names) removed =
     and_then (io_failure (sys (io env) (ok ())) ''TLS generations could not be listed'') (\<lambda>_.
       if \<not> is_generation_name name \<or> Some name = referenced then remove_listed env referenced names removed
       else and_then (remove_entry env (tls_path @ [name])) (\<lambda>_. remove_listed env referenced names True))"

definition remove_unreferenced_generations :: "'a worker_env \<Rightarrow> ('a wstate, failed, unit) op" where
  "remove_unreferenced_generations env =
     and_then (fault env RemoveGenerations) (\<lambda>_.
     and_then (attempt (on_world (current_generation (io env)))) (\<lambda>current.
       let referenced = (case current of Inr g \<Rightarrow> g | Inl _ \<Rightarrow> None) in
       and_then (attempt (on_world (read_dir (io env) tls_path))) (\<lambda>r.
         case r of
           Inr names \<Rightarrow> remove_listed env referenced names False
         | Inl e \<Rightarrow> if e = NotFound then ok () else err (Failed ''TLS generations could not be listed''))))"

fun finish_files :: "'a worker_env \<Rightarrow> path \<Rightarrow> string list \<Rightarrow> ('a wstate, failed, unit) op" where
  "finish_files env directory [] = ok ()"
| "finish_files env directory (name # names) =
     and_then (attempt (on_world (symlink_metadata (io env) (directory @ [name])))) (\<lambda>m.
       case m of
         Inr (File _ _) \<Rightarrow>
           and_then (io_failure (set_attributes (io env) (directory @ [name])) ''TLS file permissions could not be set'') (\<lambda>_.
           and_then (apply_group env (directory @ [name])) (\<lambda>_.
           and_then (io_failure (sync_file (io env) (directory @ [name])) ''a TLS file could not be synced'') (\<lambda>_.
           finish_files env directory names)))
       | _ \<Rightarrow> err (Failed ''openssl did not write the expected files''))"

definition write_fingerprint :: "'a worker_env \<Rightarrow> path \<Rightarrow> string \<Rightarrow> (world, io_error, unit) op" where
  "write_fingerprint env directory fingerprint =
     (let p = directory @ [FINGERPRINT_FILE] in
      and_then (create_entry (io env) p (File [] False)) (\<lambda>_.
      and_then (set_attributes (io env) p) (\<lambda>_.
      and_then (write_all (io env) p (fingerprint_file_contents fingerprint)) (\<lambda>_.
      and_then (sync_file (io env) p) (\<lambda>_.
      sync_dir (io env) directory)))))"

definition fill_generation :: "'a worker_env \<Rightarrow> path \<Rightarrow> ('a wstate, failed, unit) op" where
  "fill_generation env directory =
     and_then (io_failure (set_attributes (io env) directory) ''a TLS generation directory could not be created'') (\<lambda>_.
     and_then (apply_group env directory) (\<lambda>_.
     and_then (map_err (\<lambda>_. Failed ''openssl could not generate the TLS identity'')
       (on_world (openssl env (req_arguments directory)))) (\<lambda>_.
     and_then (map_err (\<lambda>_. Failed ''openssl could not compute the fingerprint'')
       (on_world (openssl env (fingerprint_arguments directory)))) (\<lambda>output.
     and_then (lift_res (ok_or (Failed ''openssl returned a malformed fingerprint'') (parse_openssl_fingerprint output))) (\<lambda>fingerprint.
     and_then (finish_files env directory [KEY_FILE, CERT_FILE]) (\<lambda>_.
     io_failure (write_fingerprint env directory fingerprint) ''the fingerprint could not be written''))))))"

definition generate_identity :: "'a worker_env \<Rightarrow> ('a wstate, failed, string) op" where
  "generate_identity env =
     and_then (ensure_directory env STATE_DIR False) (\<lambda>_.
     and_then (ensure_directory env tls_path True) (\<lambda>_.
     and_then (remove_unreferenced_generations env) (\<lambda>_.
     and_then (map_err (\<lambda>_. Failed ''randomness is unavailable'') (on_world (random_bytes8 env))) (\<lambda>bytes.
       let generation = generation_name bytes; directory = tls_path @ [generation] in
       and_then (io_failure (create_entry (io env) directory Dir) ''a TLS generation directory could not be created'') (\<lambda>_.
       and_then (attempt (fill_generation env directory)) (\<lambda>written.
         case written of
           Inr _ \<Rightarrow> ok generation
         | Inl e \<Rightarrow> and_then (attempt (on_world (remove_dir_all (io env) directory))) (\<lambda>_. err e)))))))"

definition current_tmp :: path where
  "current_tmp = tls_path @ [CURRENT @ ''.tmp'']"

definition swap_current :: "'a worker_env \<Rightarrow> string \<Rightarrow> ('a wstate, failed, unit) op" where
  "swap_current env generation =
     and_then (fault env SwapCurrent) (\<lambda>_.
     and_then (attempt (on_world
       (and_then (create_entry (io env) current_tmp (Symlink generation)) (\<lambda>_.
        and_then (rename (io env) current_tmp (tls_path @ [CURRENT])) (\<lambda>_.
        sync_dir (io env) tls_path))))) (\<lambda>swapped.
       if is_ok swapped then ok ()
       else and_then (attempt (on_world (remove_file (io env) current_tmp))) (\<lambda>_.
         err (Failed ''the TLS identity could not be installed''))))"

definition remove_current :: "'a worker_env \<Rightarrow> ('a wstate, failed, unit) op" where
  "remove_current env =
     and_then (fault env RemoveCurrent) (\<lambda>_.
     and_then (attempt (on_world (remove_file (io env) (tls_path @ [CURRENT])))) (\<lambda>r.
       case r of
         Inr _ \<Rightarrow> io_failure (sync_dir (io env) tls_path) ''the TLS identity could not be removed''
       | Inl e \<Rightarrow> if e = NotFound then ok () else err (Failed ''the TLS identity could not be removed'')))"

section \<open>The modes\<close>

fun remove_stale :: "'a worker_env \<Rightarrow> path list \<Rightarrow> ('a wstate, failed, unit) op" where
  "remove_stale env [] = ok ()"
| "remove_stale env (p # ps) =
     and_then (attempt (on_world (remove_file (io env) p))) (\<lambda>r.
       if r \<noteq> Inr () \<and> r \<noteq> Inl NotFound then err (Failed ''a stale temporary file could not be removed'')
       else remove_stale env ps)"

definition remove_stale_temporaries :: "'a worker_env \<Rightarrow> ('a wstate, failed, unit) op" where
  "remove_stale_temporaries env = remove_stale env [marker_tmp ENABLED, marker_tmp RESET_PENDING, current_tmp]"

definition rotate_tls :: "'a worker_env \<Rightarrow> ('a wstate, failed, unit) op" where
  "rotate_tls env =
     and_then (generate_identity env) (\<lambda>generation.
     and_then (swap_current env generation) (\<lambda>_.
     remove_unreferenced_generations env))"

definition enable :: "'a worker_env \<Rightarrow> ('a wstate, failed, unit) op" where
  "enable env =
     and_then (marker_exists env RESET_PENDING) (\<lambda>pending.
       if pending then err (Failed ''a remote-management reset is pending'')
       else
         and_then (attempt (on_world (current_identity (io env)))) (\<lambda>identity.
         and_then
           (case identity of
              Inr (Some _) \<Rightarrow> ok ()
            | Inr None \<Rightarrow> rotate_tls env
            | Inl _ \<Rightarrow> err (Failed ''the existing TLS identity is invalid'')) (\<lambda>_.
         create_marker env ENABLED)))"

definition boot_reset :: "'a worker_env \<Rightarrow> ('a wstate, failed, unit) op" where
  "boot_reset env =
     and_then (create_marker env RESET_PENDING) (\<lambda>_.
     and_then (remove_current env) (\<lambda>_.
     and_then (map_err (\<lambda>_. Failed ''sl-authd could not reset enrollment'') (on_auth (reset_enrollment env))) (\<lambda>_.
     and_then (remove_unreferenced_generations env) (\<lambda>_.
     remove_marker env RESET_PENDING))))"

definition run_worker :: "'a worker_env \<Rightarrow> mode \<Rightarrow> ('a wstate, failed, unit) op" where
  "run_worker env m =
     and_then (remove_stale_temporaries env) (\<lambda>_.
       case m of
         Enable \<Rightarrow> enable env
       | Disable \<Rightarrow> remove_marker env ENABLED
       | RotateTls \<Rightarrow> rotate_tls env
       | BootReset \<Rightarrow> boot_reset env
       | ClearResetPending \<Rightarrow> remove_marker env RESET_PENDING)"

text \<open>\<^verbatim>\<open>main\<close>: exactly one argument, and the group only where files are created for it.  The second component
  is the exit code.\<close>

definition parse_mode :: "string list \<Rightarrow> mode option" where
  "parse_mode arguments = (case arguments of [a] \<Rightarrow> mode_parse a | _ \<Rightarrow> None)"

definition worker_main :: "'a worker_env \<Rightarrow> u32 option \<Rightarrow> string list \<Rightarrow> 'a wstate \<Rightarrow> nat \<times> 'a wstate" where
  "worker_main env remoted_gid arguments s =
     (case parse_mode arguments of
        None \<Rightarrow> (2, s)
      | Some m \<Rightarrow>
          let run = (\<lambda>own. case run_worker (env\<lparr>ownership := own\<rparr>) m s of (r, s') \<Rightarrow> (if is_ok r then 0 else 1, s'))
          in if writes_identity m
             then (case remoted_gid of Some gid \<Rightarrow> run (RemotedGroup gid) | None \<Rightarrow> (1, s))
             else run Unavailable)"

end
