(* ===== verification/Worker_Crash.thy ===== *)
theory Worker_Crash
  imports Worker
begin

text \<open>
  What the worker guarantees against failures and crashes: the TLS identity is never torn, and a boot reset
  is never half done without the marker that says so.
\<close>

section \<open>Paths that an operation leaves alone\<close>

abbreviation cur_path :: path where "cur_path \<equiv> tls_path @ [CURRENT]"
abbreviation gen_path :: "string \<Rightarrow> path" where "gen_path g \<equiv> tls_path @ [g]"
abbreviation marker_path :: "string \<Rightarrow> path" where "marker_path name \<equiv> STATE_DIR @ [name]"

text \<open>Every tree that a crash may expose has at \<open>p\<close> what \<open>V\<close> says.\<close>

definition world_holds :: "path \<Rightarrow> (node option \<Rightarrow> bool) \<Rightarrow> world \<Rightarrow> bool" where
  "world_holds p V w \<longleftrightarrow> all_images (\<lambda>i. V (map_of i p)) w"

lemma wp_on_world [wp_simps]:
  "wp (on_world m) Q E s = wp m (\<lambda>x w. Q x (s\<lparr>wd := w\<rparr>)) (\<lambda>e w. E e (s\<lparr>wd := w\<rparr>)) (wd s)"
  by (simp add: on_world_def wp_on_part)

lemma wp_io_failure [wp_simps]:
  "wp (io_failure m msg) Q E s = wp m (\<lambda>x w. Q x (s\<lparr>wd := w\<rparr>)) (\<lambda>e w. E (Failed msg) (s\<lparr>wd := w\<rparr>)) (wd s)"
  by (simp add: io_failure_def wp_map_err wp_on_world)

lemma wp_on_auth [wp_simps]:
  "wp (on_auth m) Q E s = wp m (\<lambda>x a. Q x (s\<lparr>auth := a\<rparr>)) (\<lambda>e a. E e (s\<lparr>auth := a\<rparr>)) (auth s)"
  by (simp add: on_auth_def wp_on_part)

lemma wp_fault [wp_simps]:
  "wp (fault env p) Q E s = (if inject env (tick (wd s)) p then E (Failed ''injected failure'') s else Q () s)"
  by (simp add: wp_def fault_def)

lemma preserves_on_world [preserve_intros]: "preserves I m \<Longrightarrow> preserves (\<lambda>s. I (wd s)) (on_world m)"
  by (auto simp: preserves_def on_world_def on_part_def split: prod.splits)

lemma preserves_io_failure [preserve_intros]: "preserves I m \<Longrightarrow> preserves (\<lambda>s. I (wd s)) (io_failure m msg)"
  unfolding io_failure_def by (intro preserve_intros)

lemma preserves_fault [preserve_intros]: "preserves I (fault env p)"
  by (simp add: preserves_def fault_def)

text \<open>Calls that only look.\<close>

lemma preserves_look [preserve_intros]:
  assumes "\<And>w t. I (w\<lparr>tick := t\<rparr>) = I w"
  shows "preserves I (symlink_metadata e p)" "preserves I (set_attributes e p)" "preserves I (read_dir e p)"
    "preserves I (read_link e p)" "preserves I (read_file e p)" "preserves I (sys e (ok ()))" "preserves I (random_bytes8 env)"
  using assms
  by (simp_all add: preserves_def symlink_metadata_def set_attributes_def read_dir_def read_link_def read_file_def
      random_bytes8_def sys_def ok_def Let_def)

text \<open>Calls that change one entry, or several, of a tree.\<close>

lemma preserves_change:
  assumes "\<And>w t. I (w\<lparr>tick := t\<rparr>) = I w"
    and "\<And>w n. I w \<Longrightarrow> I (put_disk (AList.update p n (disk w)) w)" "\<And>w. I w \<Longrightarrow> I (put_disk (AList.delete p (disk w)) w)"
  shows "preserves I (remove_file e p)" "preserves I (create_entry e p n)" "preserves I (write_all e p b)"
    "preserves I (sync_file e p)" "preserves I (unlink_any e p)"
proof -
  have upd: "I (put_disk (AList.update p n (disk w)) (w\<lparr>tick := t\<rparr>))" if "I w" for w n t
    using assms(2) [of "w\<lparr>tick := t\<rparr>" n] assms(1) that by simp
  have del: "I (put_disk (AList.delete p (disk w)) (w\<lparr>tick := t\<rparr>))" if "I w" for w t
    using assms(3) [of "w\<lparr>tick := t\<rparr>"] assms(1) that by simp
  show "preserves I (remove_file e p)" "preserves I (create_entry e p n)" "preserves I (write_all e p b)"
    "preserves I (sync_file e p)" "preserves I (unlink_any e p)"
    using upd del assms(1)
    by (auto simp: preserves_def remove_file_def create_entry_def write_all_def sync_file_def unlink_any_def sys_def Let_def
        split: sum.splits node.splits)
qed

lemma preserves_rename:
  assumes "\<And>w t. I (w\<lparr>tick := t\<rparr>) = I w"
    and "\<And>w n. I w \<Longrightarrow> I (put_disk (AList.update q n (AList.delete p (disk w))) w)"
  shows "preserves I (rename e p q)"
proof -
  have "I (put_disk (AList.update q n (AList.delete p (disk w))) (w\<lparr>tick := t\<rparr>))" if "I w" for w n t
    using assms(2) [of "w\<lparr>tick := t\<rparr>" n] assms(1) that by simp
  then show ?thesis using assms(1) by (auto simp: preserves_def rename_def sys_def Let_def split: sum.splits)
qed

lemma preserves_sync_dir:
  assumes "\<And>w t. I (w\<lparr>tick := t\<rparr>) = I w"
    and "\<And>w. I w \<Longrightarrow> I (w\<lparr>images := map (overlay p (disk w)) (images w)\<rparr>)"
  shows "preserves I (sync_dir e p)"
proof -
  have "I (w\<lparr>tick := t, images := map (overlay p (disk w)) (images w)\<rparr>)" if "I w" for w t
    using assms(2) [of "w\<lparr>tick := t\<rparr>"] assms(1) that by simp
  then show ?thesis using assms(1) by (auto simp: preserves_def sync_dir_def sys_def Let_def split: sum.splits)
qed

lemma preserves_unlink_each:
  assumes "\<And>q. q \<in> set ps \<Longrightarrow> preserves I (unlink_any e q)"
  shows "preserves I (unlink_each e ps)"
  using assms by (induction ps) (auto intro!: preserve_intros)

lemma preserves_remove_dir_all:
  assumes "\<And>q. below p q \<Longrightarrow> preserves I (unlink_any e q)"
  shows "preserves I (remove_dir_all e p)"
proof -
  have "preserves I (unlink_each e (rev (sort_key length (filter (below p) (map fst (disk w))))))" for w
    by (rule preserves_unlink_each) (auto intro: assms)
  then show ?thesis unfolding preserves_def remove_dir_all_def by blast
qed

lemma world_holds_tick [simp]: "world_holds p V (w\<lparr>tick := t\<rparr>) = world_holds p V w"
  by (simp add: world_holds_def)

lemma world_holds_disk: "world_holds p V w \<Longrightarrow> V (map_of (disk w) p)"
  by (simp add: world_holds_def all_images_def)

lemma world_holds_overlay: "world_holds p V w \<Longrightarrow> world_holds p V (w\<lparr>images := map (overlay q (disk w)) (images w)\<rparr>)"
  by (auto simp: world_holds_def all_images_def map_of_overlay)

lemma world_holds_synced:
  "p \<noteq> [] \<Longrightarrow> butlast p = q \<Longrightarrow> V (map_of (disk w) p) \<Longrightarrow>
    world_holds p V (w\<lparr>tick := t, images := map (overlay q (disk w)) (images w)\<rparr>)"
  by (auto simp: world_holds_def all_images_def map_of_overlay)

lemma world_holds_put: "world_holds p V (put_disk d w) \<longleftrightarrow> V (map_of d p) \<and> world_holds p V w"
  by (simp add: world_holds_def)

lemma world_keeps [preserve_intros]:
  assumes "p \<noteq> q"
  shows "preserves (world_holds p V) (remove_file e q)" "preserves (world_holds p V) (create_entry e q n)"
    "preserves (world_holds p V) (write_all e q b)" "preserves (world_holds p V) (sync_file e q)"
    "preserves (world_holds p V) (unlink_any e q)"
  using assms by (auto intro!: preserves_change simp: world_holds_put dest: world_holds_disk)

lemma world_keeps_rename [preserve_intros]: "p \<noteq> q \<Longrightarrow> p \<noteq> q' \<Longrightarrow> preserves (world_holds p V) (rename e q q')"
  by (auto intro!: preserves_rename simp: world_holds_put dest: world_holds_disk)

lemma world_keeps_sync_dir [preserve_intros]: "preserves (world_holds p V) (sync_dir e q)"
  by (auto intro!: preserves_sync_dir world_holds_overlay)

lemma world_keeps_remove_dir_all [preserve_intros]: "\<not> below q p \<Longrightarrow> preserves (world_holds p V) (remove_dir_all e q)"
  by (rule preserves_remove_dir_all, rule world_keeps) auto

lemma world_keeps_look [preserve_intros]:
  "preserves (world_holds p V) (symlink_metadata e q)" "preserves (world_holds p V) (set_attributes e q)"
  "preserves (world_holds p V) (read_dir e q)" "preserves (world_holds p V) (read_link e q)"
  "preserves (world_holds p V) (read_file e q)" "preserves (world_holds p V) (sys e (ok ()))"
  by (rule preserves_look; simp)+

lemma ensure_directory_keeps [preserve_intros]:
  "p \<noteq> q \<Longrightarrow> preserves (\<lambda>s. world_holds p V (wd s)) (ensure_directory env q grouped)"
  unfolding ensure_directory_def apply_group_def
  by (cases "ownership env") (auto intro!: preserve_intros)

lemma marker_exists_keeps [preserve_intros]: "preserves (\<lambda>s. world_holds p V (wd s)) (marker_exists env name)"
  unfolding marker_exists_def by (auto intro!: preserve_intros)

lemma create_marker_keeps [preserve_intros]:
  "p \<noteq> STATE_DIR \<Longrightarrow> p \<noteq> marker_tmp name \<Longrightarrow> p \<noteq> marker_path name \<Longrightarrow>
    preserves (\<lambda>s. world_holds p V (wd s)) (create_marker env name)"
  unfolding create_marker_def write_marker_def by (auto intro!: preserve_intros)

lemma path_defs: "tls_path = [''var'', ''lib'', ''sl-remote-management'', ''tls'']"
  "current_tmp = [''var'', ''lib'', ''sl-remote-management'', ''tls'', ''current.tmp'']"
  "marker_tmp ENABLED = [''var'', ''lib'', ''sl-remote-management'', ''enabled.tmp'']"
  "marker_tmp RESET_PENDING = [''var'', ''lib'', ''sl-remote-management'', ''reset-pending.tmp'']"
  by (simp_all add: tls_path_def current_tmp_def marker_tmp_def name_defs)

lemma not_generation: "\<not> is_generation_name CURRENT" "\<not> is_generation_name ''current.tmp''"
  by (simp_all add: is_generation_name_def name_defs strip_prefix_def)

lemma below_gen_path: "below (gen_path g) q \<longleftrightarrow> (\<exists>r. q = gen_path g @ r)"
  unfolding below_def by (metis append_eq_conv_conj append_take_drop_id)

lemma remove_stale_keeps [preserve_intros]:
  "p \<notin> set ps \<Longrightarrow> preserves (\<lambda>s. world_holds p V (wd s)) (remove_stale env ps)"
  by (induction ps) (auto intro!: preserve_intros)

lemma remove_current_keeps [preserve_intros]:
  "p \<noteq> cur_path \<Longrightarrow> preserves (\<lambda>s. world_holds p V (wd s)) (remove_current env)"
  unfolding remove_current_def by (auto intro!: preserve_intros)

lemma remove_marker_keeps [preserve_intros]:
  "p \<noteq> marker_path name \<Longrightarrow> preserves (\<lambda>s. world_holds p V (wd s)) (remove_marker env name)"
  unfolding remove_marker_def by (auto intro!: preserve_intros)

text \<open>A path below no generation.\<close>

definition off_generations :: "path \<Rightarrow> bool" where
  "off_generations p \<longleftrightarrow> (\<forall>g. is_generation_name g \<longrightarrow> \<not> below (gen_path g) p)"

lemma off_generations: "off_generations cur_path" "off_generations (marker_path name)"
  using not_generation(1)
  by (auto simp: off_generations_def below_gen_path) (simp add: path_defs STATE_DIR_def)

lemma remove_entry_keeps:
  "\<not> below q p \<Longrightarrow> preserves (\<lambda>s. world_holds p V (wd s)) (remove_entry env q)"
proof -
  assume "\<not> below q p"
  then have "p \<noteq> q" by (auto simp: below_def)
  then show ?thesis unfolding remove_entry_def using \<open>\<not> below q p\<close> by (auto intro!: preserve_intros)
qed

lemma remove_listed_keeps [preserve_intros]:
  "off_generations p \<Longrightarrow> preserves (\<lambda>s. world_holds p V (wd s)) (remove_listed env r names b)"
  by (induction names arbitrary: b) (auto intro!: preserve_intros remove_entry_keeps simp: off_generations_def)

lemma current_generation_keeps [preserve_intros]: "preserves (world_holds p V) (current_generation e)"
  unfolding current_generation_def by (auto intro!: preserve_intros)

lemma remove_unreferenced_keeps [preserve_intros]:
  "off_generations p \<Longrightarrow> preserves (\<lambda>s. world_holds p V (wd s)) (remove_unreferenced_generations env)"
  unfolding remove_unreferenced_generations_def by (auto intro!: preserve_intros)

text \<open>The state of sl-authd is touched by one operation only.\<close>

lemma on_world_auth [preserve_intros]: "preserves (\<lambda>s. auth s = a) (on_world m)"
  by (auto simp: preserves_def on_world_def on_part_def split: prod.splits)

lemma io_failure_auth [preserve_intros]: "preserves (\<lambda>s. auth s = a) (io_failure m msg)"
  unfolding io_failure_def by (intro preserve_intros)

lemma ensure_directory_auth [preserve_intros]: "preserves (\<lambda>s. auth s = a) (ensure_directory env q grouped)"
  unfolding ensure_directory_def apply_group_def by (cases "ownership env") (auto intro!: preserve_intros)

lemma marker_exists_auth [preserve_intros]: "preserves (\<lambda>s. auth s = a) (marker_exists env name)"
  unfolding marker_exists_def by (auto intro!: preserve_intros)

lemma create_marker_auth [preserve_intros]: "preserves (\<lambda>s. auth s = a) (create_marker env name)"
  unfolding create_marker_def by (auto intro!: preserve_intros)

lemma remove_marker_auth [preserve_intros]: "preserves (\<lambda>s. auth s = a) (remove_marker env name)"
  unfolding remove_marker_def by (auto intro!: preserve_intros)

lemma remove_stale_auth [preserve_intros]: "preserves (\<lambda>s. auth s = a) (remove_stale env ps)"
  by (induction ps) (auto intro!: preserve_intros)

lemma remove_current_auth [preserve_intros]: "preserves (\<lambda>s. auth s = a) (remove_current env)"
  unfolding remove_current_def by (auto intro!: preserve_intros)

lemma remove_listed_auth [preserve_intros]: "preserves (\<lambda>s. auth s = a) (remove_listed env r names b)"
  by (induction names arbitrary: b) (auto intro!: preserve_intros simp: remove_entry_def)

lemma remove_unreferenced_auth [preserve_intros]: "preserves (\<lambda>s. auth s = a) (remove_unreferenced_generations env)"
  unfolding remove_unreferenced_generations_def by (auto intro!: preserve_intros)

section \<open>Effects of the steps of a reset\<close>

lemma wp_True: "wp m (\<lambda>_ _. True) (\<lambda>_ _. True) s"
  by (simp add: wp_def split: prod.splits sum.splits)

lemma sync_dir_durable:
  assumes "p \<noteq> []" "butlast p = q" "V (map_of (disk w) p)"
  shows "wp (sync_dir e q) (\<lambda>_. world_holds p V) (\<lambda>_ _. True) w"
  using assms by (auto simp: wp_simps Let_def split: sum.splits intro!: world_holds_synced)

lemma remove_file_gone:
  assumes "p \<noteq> []" "world_holds p (\<lambda>v. v = c0) w"
  shows "wp (remove_file e p) (\<lambda>_ w'. map_of (disk w') p = None)
    (\<lambda>x w'. x = NotFound \<longrightarrow> world_holds p (\<lambda>v. v = None) w') w"
  using assms world_holds_disk [OF assms(2)]
  by (auto simp: wp_simps Let_def dest: stat_Inl_None [OF assms(1)] split: sum.splits)

lemma write_marker_durable:
  "wp (write_marker env name) (\<lambda>_. world_holds (marker_path name) (\<lambda>v. v \<noteq> None)) (\<lambda>_ _. True) w"
  unfolding write_marker_def
proof (intro wp_bind)
  show "wp (rename (io env) (marker_tmp name) (marker_path name))
      (\<lambda>_ w. map_of (disk w) (marker_path name) \<noteq> None) (\<lambda>_ _. True) w'" for w'
    by (auto simp: wp_simps Let_def split: sum.splits)
  show "wp (sync_dir (io env) STATE_DIR) (\<lambda>_. world_holds (marker_path name) (\<lambda>v. v \<noteq> None)) (\<lambda>_ _. True) w'"
    if "map_of (disk w') (marker_path name) \<noteq> None" for w'
    using that by (intro sync_dir_durable) simp_all
qed (rule wp_True | simp)+

lemma create_marker_durable:
  assumes "world_holds (marker_path name) (\<lambda>v. v = m0) (wd s)"
  shows "wp (create_marker env name) (\<lambda>_ s. world_holds (marker_path name) (\<lambda>v. v \<noteq> None) (wd s)) (\<lambda>_ _. True) s"
  unfolding create_marker_def
proof (intro wp_bind)
  let ?I = "\<lambda>s. world_holds (marker_path name) (\<lambda>v. v = m0) (wd s)"
  show "wp (ensure_directory env STATE_DIR False) (\<lambda>_. ?I) (\<lambda>_. ?I) s"
    using assms by (intro preservesD) (auto intro!: preserve_intros)
  show "wp (marker_exists env name) (\<lambda>b s. ?I s \<and> (b \<longrightarrow> m0 \<noteq> None)) (\<lambda>_ _. True) t" if "?I t" for t
    using that world_holds_disk [OF that]
    by (auto simp: marker_exists_def wp_simps stat_Inr Let_def split: sum.splits)
  show "wp (if b then ok () else and_then (fault env (CreateMarker name)) (\<lambda>_.
      and_then (attempt (on_world (write_marker env name))) (\<lambda>written.
        if is_ok written then ok ()
        else and_then (attempt (on_world (remove_file (io env) (marker_tmp name)))) (\<lambda>_.
          err (Failed ''a remote-management marker could not be written'')))))
      (\<lambda>_ s. world_holds (marker_path name) (\<lambda>v. v \<noteq> None) (wd s)) (\<lambda>_ _. True) t"
    if "?I t \<and> (b \<longrightarrow> m0 \<noteq> None)" for b t
  proof (cases b)
    case True
    then show ?thesis using that by (auto simp: wp_simps world_holds_def all_images_def)
  next
    case False
    have "wp (attempt (on_world (write_marker env name)))
      (\<lambda>r u. is_ok r \<longrightarrow> world_holds (marker_path name) (\<lambda>v. v \<noteq> None) (wd u)) (\<lambda>_ _. True) t" for t :: "'a wstate"
      unfolding wp_attempt wp_on_world by (rule wp_weaken [OF write_marker_durable]) simp_all
    then have "wp (and_then (attempt (on_world (write_marker env name))) (\<lambda>written.
        if is_ok written then ok ()
        else and_then (attempt (on_world (remove_file (io env) (marker_tmp name)))) (\<lambda>_.
          err (Failed ''a remote-management marker could not be written''))))
      (\<lambda>_ s. world_holds (marker_path name) (\<lambda>v. v \<noteq> None) (wd s)) (\<lambda>_ _. True) t" for t :: "'a wstate"
      by (rule wp_bind) (auto simp: wp_simps wp_fun Let_def split: sum.splits)
    then show ?thesis using False by (simp add: wp_and_then wp_fault)
  qed
qed auto

lemma remove_current_durable:
  assumes "world_holds cur_path (\<lambda>v. v = c0) (wd s)"
  shows "wp (remove_current env) (\<lambda>_ s. world_holds cur_path (\<lambda>v. v = None) (wd s)) (\<lambda>_ _. True) s"
  unfolding remove_current_def
proof (intro wp_bind)
  let ?gone = "world_holds cur_path (\<lambda>v. v = None)"
  show "wp (fault env RemoveCurrent) (\<lambda>_ t. t = s) (\<lambda>_ _. True) s" by (simp add: wp_fault)
  show "wp (attempt (on_world (remove_file (io env) cur_path)))
      (\<lambda>r t. (r = Inl NotFound \<longrightarrow> ?gone (wd t)) \<and> (is_ok r \<longrightarrow> map_of (disk (wd t)) cur_path = None)) (\<lambda>_ _. True) t"
    if "t = s" for t
    unfolding wp_attempt wp_on_world using that assms
    by (auto intro: wp_weaken [OF remove_file_gone])
  show "wp (case r of
        Inl e \<Rightarrow> if e = NotFound then ok () else err (Failed ''the TLS identity could not be removed'')
      | Inr _ \<Rightarrow> io_failure (sync_dir (io env) tls_path) ''the TLS identity could not be removed'')
      (\<lambda>_ s. ?gone (wd s)) (\<lambda>_ _. True) t"
    if "(r = Inl NotFound \<longrightarrow> ?gone (wd t)) \<and> (is_ok r \<longrightarrow> map_of (disk (wd t)) cur_path = None)" for r and t :: "'a wstate"
  proof (cases r)
    case (Inl e)
    then show ?thesis using that by (simp add: wp_simps)
  next
    case (Inr u)
    then show ?thesis
      using that sync_dir_durable [of cur_path tls_path "\<lambda>v. v = None" "wd t" "io env"] by (simp add: wp_io_failure)
  qed
qed simp_all

lemma remove_marker_durable:
  assumes "world_holds (marker_path name) (\<lambda>v. v \<noteq> None) (wd s)"
  shows "wp (remove_marker env name) (\<lambda>_ s. world_holds (marker_path name) (\<lambda>v. v = None) (wd s)) (\<lambda>_ _. True) s"
  unfolding remove_marker_def
proof (intro wp_bind)
  show "wp (marker_exists env name) (\<lambda>b _. b) (\<lambda>_ _. True) s"
    using world_holds_disk [OF assms]
    by (auto simp: marker_exists_def wp_simps Let_def dest: stat_Inl_None [rotated] split: sum.splits)
  show "wp (if \<not> b then ok ()
      else and_then (fault env (RemoveMarker name)) (\<lambda>_.
        io_failure (and_then (remove_file (io env) (marker_path name)) (\<lambda>_. sync_dir (io env) STATE_DIR))
          ''a remote-management marker could not be removed''))
      (\<lambda>_ s. world_holds (marker_path name) (\<lambda>v. v = None) (wd s)) (\<lambda>_ _. True) t" if b for b t
  proof -
    have gone: "wp (remove_file (io env) (marker_path name)) (\<lambda>_ w. map_of (disk w) (marker_path name) = None) (\<lambda>_ _. True) w" for w
      by (auto simp: wp_remove_file Let_def split: sum.splits)
    have "wp (and_then (remove_file (io env) (marker_path name)) (\<lambda>_. sync_dir (io env) STATE_DIR))
        (\<lambda>_. world_holds (marker_path name) (\<lambda>v. v = None)) (\<lambda>_ _. True) w" for w
      by (rule wp_bind [OF gone sync_dir_durable]) simp_all
    then show ?thesis using that by (simp add: wp_and_then wp_fault wp_io_failure)
  qed
qed simp_all

section \<open>Removal of the generations\<close>

text \<open>Absence of an entry in the present tree is kept by every removal.\<close>

definition absent :: "path \<Rightarrow> world \<Rightarrow> bool" where
  "absent p w \<longleftrightarrow> map_of (disk w) p = None"

lemma absent_keeps [preserve_intros]:
  "preserves (absent p) (remove_file e q)" "preserves (absent p) (unlink_any e q)" "preserves (absent p) (sync_dir e q)"
  "preserves (absent p) (symlink_metadata e q)" "preserves (absent p) (sys e (ok ()))"
  by (auto simp: absent_def preserves_def remove_file_def unlink_any_def sync_dir_def symlink_metadata_def sys_def ok_def Let_def
      split: sum.splits node.splits)

lemma absent_remove_dir_all [preserve_intros]: "preserves (absent p) (remove_dir_all e q)"
  by (rule preserves_remove_dir_all) (rule absent_keeps)

lemma absent_remove_entry [preserve_intros]: "preserves (\<lambda>s. absent p (wd s)) (remove_entry env q)"
  unfolding remove_entry_def by (auto intro!: preserve_intros)

lemma absent_remove_listed [preserve_intros]: "preserves (\<lambda>s. absent p (wd s)) (remove_listed env r names b)"
  by (induction names arbitrary: b) (auto intro!: preserve_intros)

lemma unlink_each_gone: "wp (unlink_each e ps) (\<lambda>_ w. \<forall>q \<in> set ps. absent q w) (\<lambda>_ _. True) w"
proof (induction ps arbitrary: w)
  case (Cons p ps)
  have "wp (unlink_any e p) (\<lambda>_. absent p) (\<lambda>_ _. True) w"
    by (simp add: wp_def unlink_any_def sys_def absent_def Let_def)
  moreover have "wp (unlink_each e ps) (\<lambda>_ w. absent p w \<and> (\<forall>q \<in> set ps. absent q w)) (\<lambda>_ _. True) w" if "absent p w" for w
    by (rule wp_weaken [OF wp_preserves [where I = "absent p", OF preserves_unlink_each that Cons.IH]]) (auto intro: absent_keeps)
  ultimately show ?case by (auto intro!: wp_bind)
qed (simp add: wp_simps)

lemma remove_dir_all_gone:
  assumes "map_of (disk w) p = Some n"
  shows "wp (remove_dir_all e p) (\<lambda>_. absent p) (\<lambda>_ _. True) w"
proof -
  have "p \<in> set (rev (sort_key length (filter (below p) (map fst (disk w)))))"
    using map_of_SomeD [OF assms] by (force simp: below_def)
  then show ?thesis
    using wp_weaken [OF unlink_each_gone] by (fastforce simp: wp_def remove_dir_all_def)
qed

lemma remove_entry_gone: "wp (remove_entry env (gen_path g)) (\<lambda>_ s. absent (gen_path g) (wd s)) (\<lambda>_ _. True) s"
  unfolding remove_entry_def
proof (rule wp_bind)
  show "wp (attempt (on_world (symlink_metadata (io env) (gen_path g))))
      (\<lambda>r t. r = Inr Dir \<longrightarrow> map_of (disk (wd t)) (gen_path g) = Some Dir) (\<lambda>_ _. True) s"
    by (auto simp: wp_simps Let_def stat_Inr split: sum.splits)
  show "wp (io_failure (if r = Inr Dir then remove_dir_all (io env) (gen_path g) else remove_file (io env) (gen_path g))
      ''an old TLS generation could not be removed'') (\<lambda>_ s. absent (gen_path g) (wd s)) (\<lambda>_ _. True) t"
    if "r = Inr Dir \<longrightarrow> map_of (disk (wd t)) (gen_path g) = Some Dir" for r t
    using that remove_dir_all_gone [of "wd t" "gen_path g" Dir "io env"]
    by (auto simp: wp_io_failure wp_remove_file absent_def [abs_def] Let_def split: sum.splits)
qed simp

lemma remove_listed_gone:
  "wp (remove_listed env r names b)
    (\<lambda>_ s. \<forall>n \<in> set names. is_generation_name n \<and> Some n \<noteq> r \<longrightarrow> absent (gen_path n) (wd s)) (\<lambda>_ _. True) s"
proof (induction names arbitrary: b s)
  case Nil
  then show ?case by (simp add: wp_True)
next
  case (Cons n names)
  let ?all = "\<lambda>s. \<forall>n \<in> set names. is_generation_name n \<and> Some n \<noteq> r \<longrightarrow> absent (gen_path n) (wd s)"
  have rest: "wp (remove_listed env r names b) (\<lambda>_ s. absent (gen_path n) (wd s) \<and> ?all s) (\<lambda>_ _. True) t"
    if "absent (gen_path n) (wd t)" for b t
    by (rule wp_weaken [OF wp_preserves [OF absent_remove_listed that Cons.IH]]) auto
  have "wp (and_then (remove_entry env (gen_path n)) (\<lambda>_. remove_listed env r names True))
      (\<lambda>_ s. absent (gen_path n) (wd s) \<and> ?all s) (\<lambda>_ _. True) t" for t
    by (rule wp_bind [OF remove_entry_gone rest]) auto
  then have step: "wp (if \<not> is_generation_name n \<or> Some n = r then remove_listed env r names b
      else and_then (remove_entry env (gen_path n)) (\<lambda>_. remove_listed env r names True))
      (\<lambda>_ s. \<forall>n \<in> set (n # names). is_generation_name n \<and> Some n \<noteq> r \<longrightarrow> absent (gen_path n) (wd s)) (\<lambda>_ _. True) t" for t
    using Cons.IH [of b t] by (auto elim: wp_weaken)
  show ?case
    unfolding remove_listed.simps by (rule wp_bind [OF wp_True]) (use step in auto)
qed

definition no_generations :: "fs \<Rightarrow> bool" where
  "no_generations d \<longleftrightarrow>
     map_of d tls_path = None \<or> (\<forall>n. is_generation_name n \<longrightarrow> map_of d (gen_path n) = None)"

lemma not_listed: "n \<notin> set (entries_of d tls_path) \<Longrightarrow> map_of d (gen_path n) = None"
proof (rule ccontr)
  assume "n \<notin> set (entries_of d tls_path)" "map_of d (gen_path n) \<noteq> None"
  moreover from this(2) have "gen_path n \<in> fst ` set d" by (simp add: map_of_eq_None_iff)
  then have "n \<in> set (entries_of d tls_path)"
    unfolding entries_of_def by (force simp: image_iff intro!: bexI [of _ "gen_path n"])
  ultimately show False by simp
qed

lemma listed_all_gone:
  assumes "disk (wd s) = d"
  shows "wp (remove_listed env None (entries_of d tls_path) b) (\<lambda>_ s. no_generations (disk (wd s))) (\<lambda>_ _. True) s"
proof -
  let ?names = "entries_of d tls_path"
  have "wp (remove_listed env None ?names b) (\<lambda>_ t. absent (gen_path n) (wd t)) (\<lambda>_ _. True) s" if "is_generation_name n" for n
  proof (cases "n \<in> set ?names")
    case True
    then show ?thesis using that by (auto intro: wp_weaken [OF remove_listed_gone [where r = None]])
  next
    case False
    then have "absent (gen_path n) (wd s)" using not_listed assms by (simp add: absent_def)
    then show ?thesis by (rule wp_weaken [OF preservesD [OF absent_remove_listed]]) auto
  qed
  then have "\<forall>n. is_generation_name n \<longrightarrow> absent (gen_path n) (wd t)"
    if "remove_listed env None ?names b s = (Inr x, t)" for x t
    using that wp_Inr by fastforce
  then show ?thesis unfolding wp_run no_generations_def absent_def by blast
qed

lemma all_generations_removed:
  assumes "absent cur_path (wd s)"
  shows "wp (remove_unreferenced_generations env) (\<lambda>_ s. no_generations (disk (wd s))) (\<lambda>_ _. True) s"
  unfolding remove_unreferenced_generations_def
proof (intro wp_bind)
  show "wp (fault env RemoveGenerations) (\<lambda>_ t. t = s) (\<lambda>_ _. True) s" by (simp add: wp_fault)
  show "wp (attempt (on_world (current_generation (io env)))) (\<lambda>r _. \<forall>g. r = Inr g \<longrightarrow> g = None) (\<lambda>_ _. True) t" if "t = s" for t
    using that assms by (auto simp: current_generation_def wp_simps wp_fun Let_def absent_def stat_Inr
        split: sum.splits node.splits)
  show "wp (let referenced = case r of Inl x \<Rightarrow> None | Inr g \<Rightarrow> g in
      and_then (attempt (on_world (read_dir (io env) tls_path))) (\<lambda>r.
        case r of
          Inl e \<Rightarrow> if e = NotFound then ok () else err (Failed ''TLS generations could not be listed'')
        | Inr names \<Rightarrow> remove_listed env referenced names False)) (\<lambda>_ s. no_generations (disk (wd s))) (\<lambda>_ _. True) t"
    if "\<forall>g. r = Inr g \<longrightarrow> g = None" for r and t :: "'a wstate"
  proof -
    have none: "(case r of Inl x \<Rightarrow> None | Inr g \<Rightarrow> g) = None" using that by (cases r) auto
    have "wp (attempt (on_world (read_dir (io env) tls_path)))
        (\<lambda>q u. (q = Inl NotFound \<longrightarrow> no_generations (disk (wd u))) \<and> (\<forall>names. q = Inr names \<longrightarrow> names = entries_of (disk (wd u)) tls_path))
        (\<lambda>_ _. True) t"
      by (auto simp: wp_simps Let_def no_generations_def path_defs(1) dest: stat_Inl_None [rotated] split: sum.splits)
    then show ?thesis unfolding Let_def none
      by (rule wp_bind) (auto simp: wp_simps intro!: listed_all_gone split: sum.splits)
  qed
qed simp_all

lemma no_generations_delete: "no_generations d \<Longrightarrow> no_generations (AList.delete p d)"
  by (auto simp: no_generations_def)

lemma no_generations_keeps [preserve_intros]:
  "preserves (\<lambda>w. no_generations (disk w)) (remove_file e q)" "preserves (\<lambda>w. no_generations (disk w)) (sync_dir e q)"
  "preserves (\<lambda>w. no_generations (disk w)) (symlink_metadata e q)"
  by (auto simp: preserves_def remove_file_def sync_dir_def symlink_metadata_def sys_def Let_def no_generations_delete
      split: sum.splits node.splits)

lemma remove_marker_no_generations: "preserves (\<lambda>s. no_generations (disk (wd s))) (remove_marker env name)"
proof -
  have "preserves (\<lambda>s. no_generations (disk (wd s))) (on_world m)" "preserves (\<lambda>s. no_generations (disk (wd s))) (io_failure m' msg)"
    if "preserves (\<lambda>w. no_generations (disk w)) m" "preserves (\<lambda>w. no_generations (disk w)) m'"
    for m :: "(world, io_error, node) op" and m' :: "(world, io_error, unit) op" and msg
    using preserves_on_world [OF that(1)] preserves_io_failure [OF that(2)] by auto
  then show ?thesis
    unfolding remove_marker_def marker_exists_def by (auto intro!: preserve_intros)
qed

lemma preserves_conj: "preserves I m \<Longrightarrow> preserves J m \<Longrightarrow> preserves (\<lambda>s. I s \<and> J s) m"
  by (auto simp: preserves_def)

section \<open>The boot reset\<close>

definition untouched :: "node option \<Rightarrow> 'a \<Rightarrow> 'a wstate \<Rightarrow> bool" where
  "untouched c a s \<longleftrightarrow> world_holds cur_path (\<lambda>v. v = c) (wd s) \<and> auth s = a"

definition announced :: "'a wstate \<Rightarrow> bool" where
  "announced s \<longleftrightarrow> world_holds (marker_path RESET_PENDING) (\<lambda>v. v \<noteq> None) (wd s)"

definition identity_gone :: "'a wstate \<Rightarrow> bool" where
  "identity_gone s \<longleftrightarrow> world_holds cur_path (\<lambda>v. v = None) (wd s)"

lemma reset_paths: "cur_path \<noteq> STATE_DIR" "cur_path \<noteq> marker_tmp name" "cur_path \<noteq> marker_path name"
  "marker_path name \<noteq> cur_path" "marker_path RESET_PENDING \<noteq> marker_tmp ENABLED"
  "marker_path RESET_PENDING \<noteq> marker_tmp RESET_PENDING" "marker_path name \<noteq> current_tmp" "cur_path \<noteq> current_tmp"
  by (simp_all add: path_defs name_defs marker_tmp_def)

lemma tls_not_state [simp]: "tls_path \<noteq> STATE_DIR" "STATE_DIR \<noteq> tls_path"
  by (simp_all add: tls_path_def)

lemma untouched_keeps:
  assumes "preserves (\<lambda>s. world_holds cur_path (\<lambda>v. v = c) (wd s)) m" "preserves (\<lambda>s. auth s = a) m"
  shows "preserves (untouched c a) m"
  using preserves_conj [OF assms] by (simp add: untouched_def [abs_def])

lemma create_marker_step:
  assumes "untouched c a s" "world_holds (marker_path RESET_PENDING) (\<lambda>v. v = m0) (wd s)"
  shows "wp (create_marker env RESET_PENDING) (\<lambda>_ t. untouched c a t \<and> announced t) (\<lambda>_ t. untouched c a t) s"
proof -
  have "preserves (untouched c a) (create_marker env RESET_PENDING)"
    by (rule untouched_keeps) (auto intro!: preserve_intros simp: reset_paths)
  then show ?thesis
    by (rule wp_keep [where I = "untouched c a", OF _ assms(1) create_marker_durable [OF assms(2)]]) (auto simp: announced_def)
qed

lemma remove_current_step:
  assumes "untouched c a s" "announced s"
  shows "wp (remove_current env) (\<lambda>_ t. announced t \<and> auth t = a \<and> identity_gone t) (\<lambda>_ t. announced t) s"
proof -
  have p: "preserves (\<lambda>s. world_holds (marker_path RESET_PENDING) (\<lambda>v. v \<noteq> None) (wd s) \<and> auth s = a) (remove_current env)"
    by (rule preserves_conj) (auto intro!: preserve_intros simp: reset_paths)
  have "wp (remove_current env) (\<lambda>_ s. world_holds cur_path (\<lambda>v. v = None) (wd s)) (\<lambda>_ _. True) s"
    using assms(1) by (intro remove_current_durable [of c]) (simp add: untouched_def)
  from wp_keep [OF p _ this] show ?thesis using assms by (simp add: untouched_def announced_def identity_gone_def)
qed

lemma remove_generations_step:
  assumes "announced s" "auth s = a" "identity_gone s"
  shows "wp (remove_unreferenced_generations env)
    (\<lambda>_ t. announced t \<and> auth t = a \<and> identity_gone t \<and> no_generations (disk (wd t))) (\<lambda>_ t. announced t) s"
proof -
  have p: "preserves (\<lambda>s. world_holds (marker_path RESET_PENDING) (\<lambda>v. v \<noteq> None) (wd s) \<and> auth s = a \<and>
      world_holds cur_path (\<lambda>v. v = None) (wd s)) (remove_unreferenced_generations env)"
    by (intro preserves_conj) (auto intro!: preserve_intros simp: off_generations)
  have "absent cur_path (wd s)" using assms(3) world_holds_disk by (simp add: identity_gone_def absent_def)
  then have "wp (remove_unreferenced_generations env) (\<lambda>_ s. no_generations (disk (wd s))) (\<lambda>_ _. True) s"
    by (rule all_generations_removed)
  from wp_keep [OF p _ this] show ?thesis using assms by (simp add: announced_def identity_gone_def)
qed

lemma remove_marker_step:
  assumes "announced s" "auth s = a" "identity_gone s" "no_generations (disk (wd s))"
  shows "wp (remove_marker env RESET_PENDING)
    (\<lambda>_ t. auth t = a \<and> identity_gone t \<and> no_generations (disk (wd t)) \<and>
       world_holds (marker_path RESET_PENDING) (\<lambda>v. v = None) (wd t))
    (\<lambda>_ t. auth t = a \<and> identity_gone t) s"
proof -
  have p: "preserves (\<lambda>s. auth s = a \<and> world_holds cur_path (\<lambda>v. v = None) (wd s) \<and> no_generations (disk (wd s)))
      (remove_marker env RESET_PENDING)"
    by (intro preserves_conj) (auto intro!: preserve_intros remove_marker_no_generations simp: reset_paths)
  have d: "wp (remove_marker env RESET_PENDING) (\<lambda>_ s. world_holds (marker_path RESET_PENDING) (\<lambda>v. v = None) (wd s)) (\<lambda>_ _. True) s"
    using assms(1) by (intro remove_marker_durable) (simp add: announced_def)
  from wp_keep [OF p _ d] show ?thesis using assms by (simp add: identity_gone_def)
qed

definition reset_done :: "'a worker_env \<Rightarrow> 'a \<Rightarrow> 'a wstate \<Rightarrow> bool" where
  "reset_done env a s \<longleftrightarrow> identity_gone s \<and> reset_enrollment env a = (Inr (), auth s)"

lemma boot_reset_spec:
  assumes "untouched c a s" "world_holds (marker_path RESET_PENDING) (\<lambda>v. v = m0) (wd s)"
  shows "wp (boot_reset env)
    (\<lambda>_ t. reset_done env a t \<and> no_generations (disk (wd t)) \<and> world_holds (marker_path RESET_PENDING) (\<lambda>v. v = None) (wd t))
    (\<lambda>_ t. untouched c a t \<or> announced t \<or> reset_done env a t) s"
  unfolding boot_reset_def
proof (intro wp_bind)
  show "wp (create_marker env RESET_PENDING) (\<lambda>_ t. untouched c a t \<and> announced t) (\<lambda>_ t. untouched c a t) s"
    by (rule create_marker_step [OF assms])
  show "wp (remove_current env) (\<lambda>_ t. announced t \<and> auth t = a \<and> identity_gone t) (\<lambda>_ t. announced t) t"
    if "untouched c a t \<and> announced t" for t using that by (intro remove_current_step) auto
  show "wp (map_err (\<lambda>_. Failed ''sl-authd could not reset enrollment'') (on_auth (reset_enrollment env)))
      (\<lambda>_ t. announced t \<and> reset_done env a t) (\<lambda>_ t. announced t) t"
    if "announced t \<and> auth t = a \<and> identity_gone t" for t
    unfolding wp_map_err wp_on_auth using that
    by (auto simp: wp_def announced_def reset_done_def identity_gone_def split: prod.splits sum.splits)
  show "wp (remove_unreferenced_generations env)
      (\<lambda>_ t. announced t \<and> reset_done env a t \<and> no_generations (disk (wd t))) (\<lambda>_ t. announced t) t"
    if "announced t \<and> reset_done env a t" for t
    using that remove_generations_step [of t "auth t" env] by (auto simp: reset_done_def elim: wp_weaken)
  show "wp (remove_marker env RESET_PENDING)
      (\<lambda>_ t. reset_done env a t \<and> no_generations (disk (wd t)) \<and> world_holds (marker_path RESET_PENDING) (\<lambda>v. v = None) (wd t))
      (\<lambda>_ t. untouched c a t \<or> announced t \<or> reset_done env a t) t"
    if "announced t \<and> reset_done env a t \<and> no_generations (disk (wd t))" for t
    using that remove_marker_step [of t "auth t" env] by (auto simp: reset_done_def elim: wp_weaken)
qed auto

lemma run_boot_reset:
  assumes "images (wd s) = []"
  shows "wp (run_worker env BootReset)
    (\<lambda>_ t. reset_done env (auth s) t \<and> no_generations (disk (wd t)) \<and>
       world_holds (marker_path RESET_PENDING) (\<lambda>v. v = None) (wd t))
    (\<lambda>_ t. untouched (map_of (disk (wd s)) cur_path) (auth s) t \<or> announced t \<or> reset_done env (auth s) t) s"
  unfolding run_worker_def mode.case
proof (rule wp_bind)
  let ?c = "map_of (disk (wd s)) cur_path" and ?m = "map_of (disk (wd s)) (marker_path RESET_PENDING)"
  let ?I = "\<lambda>t. untouched ?c (auth s) t \<and> world_holds (marker_path RESET_PENDING) (\<lambda>v. v = ?m) (wd t)"
  have "preserves ?I (remove_stale_temporaries env)"
    unfolding remove_stale_temporaries_def
    by (intro preserves_conj untouched_keeps) (auto intro!: preserve_intros simp: reset_paths)
  moreover have "?I s" using assms by (simp add: untouched_def world_holds_def all_images_def)
  ultimately show "wp (remove_stale_temporaries env) (\<lambda>_. ?I) (\<lambda>_. ?I) s" by (rule preservesD)
  show "wp (boot_reset env)
      (\<lambda>_ t. reset_done env (auth s) t \<and> no_generations (disk (wd t)) \<and>
         world_holds (marker_path RESET_PENDING) (\<lambda>v. v = None) (wd t))
      (\<lambda>_ t. untouched ?c (auth s) t \<or> announced t \<or> reset_done env (auth s) t) t" if "?I t" for t
    using that by (intro boot_reset_spec) auto
qed auto

text \<open>The target of the link \<^verbatim>\<open>tls/current\<close>.\<close>

definition current_link :: "fs \<Rightarrow> string option" where
  "current_link d = (case map_of d cur_path of Some (Symlink t) \<Rightarrow> Some t | _ \<Rightarrow> None)"

lemma crash_image_link: "crash_image img d \<Longrightarrow> current_link d = current_link img"
  unfolding crash_image_def current_link_def
  by (drule spec [of _ cur_path])
    (auto simp: crash_node_def option_rel_Some1 split: option.splits node.splits if_splits elim!: option.rel_cases)

lemma crash_image_absent: "crash_image img d \<Longrightarrow> map_of d p = None \<longleftrightarrow> map_of img p = None"
  unfolding crash_image_def by (drule spec [of _ p]) (auto elim!: option.rel_cases)

lemma survives_holds:
  assumes "world_holds p V w" "survives w d"
  shows "\<exists>img. crash_image img d \<and> V (map_of img p)"
  using assms by (auto simp: world_holds_def survives_def all_images_def)


end
