(* ===== verification/Worker_Identity.thy ===== *)
theory Worker_Identity
  imports Worker_Crash
begin

text \<open>
  The TLS identity is never torn: whatever the worker does, whichever calls fail and whenever power is
  lost, \<^verbatim>\<open>tls/current\<close> is absent or names a generation that is complete on the disk.
\<close>

section \<open>Complete identities\<close>

text \<open>\<open>pem\<close> says of the contents of two files that they are a key and a certificate that belong together.\<close>

definition files_ok :: "(string \<Rightarrow> string \<Rightarrow> bool) \<Rightarrow> string \<Rightarrow> fs \<Rightarrow> bool" where
  "files_ok pem g d \<longleftrightarrow>
     (\<exists>key cert. pem key cert \<and> map_of d (gen_path g @ [KEY_FILE]) = Some (File key True) \<and>
        map_of d (gen_path g @ [CERT_FILE]) = Some (File cert True)) \<and>
     (\<exists>f. is_canonical_fingerprint f \<and>
        map_of d (gen_path g @ [FINGERPRINT_FILE]) = Some (File (fingerprint_file_contents f) True))"

definition complete :: "(string \<Rightarrow> string \<Rightarrow> bool) \<Rightarrow> string \<Rightarrow> fs \<Rightarrow> bool" where
  "complete pem g d \<longleftrightarrow> map_of d (gen_path g) = Some Dir \<and> files_ok pem g d"

definition TOP :: "path list" where
  "TOP = map (\<lambda>k. take k tls_path) [1, 2, 3, 4]"

definition prefix_ok :: "fs \<Rightarrow> bool" where
  "prefix_ok d \<longleftrightarrow> list_all (\<lambda>p. map_of d p \<in> {None, Some Dir}) TOP"

definition sound :: "(string \<Rightarrow> string \<Rightarrow> bool) \<Rightarrow> fs \<Rightarrow> bool" where
  "sound pem d \<longleftrightarrow>
     prefix_ok d \<and>
     (case map_of d cur_path of
        None \<Rightarrow> True
      | Some n \<Rightarrow> (case n of Symlink g \<Rightarrow> is_generation_name g \<and> complete pem g d | _ \<Rightarrow> False))"

text \<open>The invariant, with the present link: in every tree that a crash may expose the identity is complete,
  and the files of the generation that is linked now are in all of them.\<close>

definition J :: "(string \<Rightarrow> string \<Rightarrow> bool) \<Rightarrow> node option \<Rightarrow> world \<Rightarrow> bool" where
  "J pem c w \<longleftrightarrow>
     all_images (sound pem) w \<and> map_of (disk w) cur_path = c \<and> (\<forall>g. c = Some (Symlink g) \<longrightarrow> all_images (files_ok pem g) w)"

definition gen_ok :: "node option \<Rightarrow> bool" where
  "gen_ok c \<longleftrightarrow> c = None \<or> (\<exists>g. c = Some (Symlink g) \<and> is_generation_name g)"

lemma J_tick [simp]: "J pem c (w\<lparr>tick := t\<rparr>) = J pem c w"
  by (simp add: J_def)

lemma J_live:
  assumes "J pem c w"
  shows "gen_ok c" "prefix_ok (disk w)" "c = Some (Symlink g) \<Longrightarrow> complete pem g (disk w)" "map_of (disk w) cur_path = c"
  using assms all_images_disk [of "sound pem" w]
  by (auto simp: J_def sound_def gen_ok_def split: option.splits node.splits)

lemma J_put:
  assumes "J pem c w" "map_of d cur_path = c" "prefix_ok d" "\<And>g. c = Some (Symlink g) \<Longrightarrow> complete pem g d"
  shows "J pem c (put_disk d w)"
  using assms J_live(1) [OF assms(1)] by (auto simp: J_def sound_def gen_ok_def complete_def)

lemma TOP_paths: "STATE_DIR \<in> set TOP" "tls_path \<in> set TOP" "cur_path \<notin> set TOP" "gen_path g \<notin> set TOP"
  "gen_path g @ r \<notin> set TOP" "marker_path name \<in> set TOP \<longleftrightarrow> name = TLS_DIR"
  by (auto simp: TOP_def path_defs(1) name_defs)

definition outside :: "node option \<Rightarrow> path \<Rightarrow> bool" where
  "outside c p \<longleftrightarrow> p \<noteq> cur_path \<and> p \<notin> set TOP \<and> (\<forall>g. c = Some (Symlink g) \<longrightarrow> \<not> below (gen_path g) p)"

lemma below_files: "below (gen_path g) (gen_path g)" "below (gen_path g) (gen_path g @ r)"
  by (simp_all add: below_def)

lemma complete_cong:
  assumes "\<And>p. below (gen_path g) p \<Longrightarrow> map_of d' p = map_of d p"
  shows "complete pem g d' = complete pem g d" "files_ok pem g d' = files_ok pem g d"
  using assms [OF below_files(1)] assms [OF below_files(2)] by (simp_all add: complete_def files_ok_def)

lemma complete_other:
  assumes "\<not> below (gen_path g) p"
  shows "complete pem g (AList.update p n d) = complete pem g d" "files_ok pem g (AList.update p n d) = files_ok pem g d"
    "complete pem g (AList.delete p d) = complete pem g d" "files_ok pem g (AList.delete p d) = files_ok pem g d"
proof -
  have "map_of (AList.update p n d) q = map_of d q" "map_of (AList.delete p d) q = map_of d q" if "below (gen_path g) q" for q
    using that assms by auto
  then show "complete pem g (AList.update p n d) = complete pem g d" "files_ok pem g (AList.update p n d) = files_ok pem g d"
    "complete pem g (AList.delete p d) = complete pem g d" "files_ok pem g (AList.delete p d) = files_ok pem g d"
    by (auto intro!: complete_cong)
qed

lemma prefix_ok_cong: "(\<And>p. p \<in> set TOP \<Longrightarrow> map_of d' p = map_of d p) \<Longrightarrow> prefix_ok d' = prefix_ok d"
  by (simp add: prefix_ok_def list_all_iff)

lemma prefix_ok_other: "p \<notin> set TOP \<Longrightarrow> prefix_ok (AList.update p n d) = prefix_ok d"
  "p \<notin> set TOP \<Longrightarrow> prefix_ok (AList.delete p d) = prefix_ok d"
  by (auto simp: prefix_ok_def list_all_iff)

lemma J_frame:
  assumes "J pem c w" "\<And>p. \<not> outside c p \<Longrightarrow> map_of d p = map_of (disk w) p"
  shows "J pem c (put_disk d w)"
proof (rule J_put [OF assms(1)])
  note live = J_live [OF assms(1)]
  show "map_of d cur_path = c" using assms(2) [of cur_path] live(4) by (simp add: outside_def)
  show "prefix_ok d" using assms(2) prefix_ok_cong [of d "disk w"] live(2) by (simp add: outside_def)
  show "complete pem g d" if "c = Some (Symlink g)" for g
    using live(3) [OF that] complete_cong(1) [of g d "disk w"] assms(2) that by (simp add: outside_def)
qed

lemma J_overlay:
  assumes "J pem c w" "\<And>g. q = gen_path g \<Longrightarrow> files_ok pem g (disk w)"
  shows "J pem c (w\<lparr>images := map (overlay q (disk w)) (images w)\<rparr>)"
proof -
  note live = J_live [OF assms(1)]
  have pre: "prefix_ok (overlay q (disk w) img)" if "prefix_ok img" for img
    using that live(2) by (auto simp: prefix_ok_def list_all_iff map_of_overlay)
  have files: "files_ok pem g (overlay q (disk w) img)" if "files_ok pem g img" for g img
  proof (cases "q = gen_path g")
    case True
    then show ?thesis using assms(2) by (simp add: files_ok_def map_of_overlay butlast_append)
  next
    case False
    then show ?thesis using that by (simp add: files_ok_def map_of_overlay butlast_append)
  qed
  have snd': "sound pem (overlay q (disk w) img)" if "img \<in> set (images w)" for img
  proof -
    have img: "sound pem img" "\<And>g. c = Some (Symlink g) \<Longrightarrow> files_ok pem g img"
      using assms(1) that by (auto simp: J_def all_images_def)
    show ?thesis
    proof (cases "q = tls_path")
      case True
      have "c = None \<or> (\<exists>g. c = Some (Symlink g) \<and> is_generation_name g)" using live(1) by (simp add: gen_ok_def)
      then show ?thesis
        using True pre files img live(3,4) by (auto simp: sound_def complete_def map_of_overlay)
    next
      case False
      then show ?thesis
        using pre files img(1) by (auto simp: sound_def complete_def map_of_overlay split: option.splits node.splits)
    qed
  qed
  show ?thesis
    using assms(1) snd' files by (auto simp: J_def all_images_def)
qed

section \<open>Operations\<close>

lemma J_change:
  assumes "gen_ok c \<Longrightarrow> outside c p"
  shows "preserves (J pem c) (remove_file e p)" "preserves (J pem c) (create_entry e p n)" "preserves (J pem c) (write_all e p b)"
    "preserves (J pem c) (sync_file e p)" "preserves (J pem c) (unlink_any e p)"
proof -
  have "J pem c (put_disk (AList.update p n (disk w)) w)" "J pem c (put_disk (AList.delete p (disk w)) w)" if "J pem c w" for w n
    using that assms [OF J_live(1) [OF that]] by (auto intro!: J_frame)
  then show "preserves (J pem c) (remove_file e p)" "preserves (J pem c) (create_entry e p n)" "preserves (J pem c) (write_all e p b)"
    "preserves (J pem c) (sync_file e p)" "preserves (J pem c) (unlink_any e p)"
    by (auto intro!: preserves_change)
qed

lemma J_rename:
  assumes "gen_ok c \<Longrightarrow> outside c p" "gen_ok c \<Longrightarrow> outside c q"
  shows "preserves (J pem c) (rename e p q)"
proof -
  have "J pem c (put_disk (AList.update q n (AList.delete p (disk w))) w)" if "J pem c w" for w n
    using that assms J_live(1) [OF that] by (auto intro!: J_frame)
  then show ?thesis by (auto intro!: preserves_rename)
qed

lemma J_create_top: "p \<in> set TOP \<Longrightarrow> preserves (J pem c) (create_entry e p Dir)"
proof -
  assume p: "p \<in> set TOP"
  have "J pem c (put_disk (AList.update p Dir (disk w)) w)" if "J pem c w" for w
  proof (rule J_put [OF that])
    have p': "p \<noteq> cur_path" "\<And>g. \<not> below (gen_path g) p" using p TOP_paths by (auto simp: below_gen_path)
    show "map_of (AList.update p Dir (disk w)) cur_path = c" using J_live(4) [OF that] p' by simp
    show "prefix_ok (AList.update p Dir (disk w))" using J_live(2) [OF that] by (simp add: prefix_ok_def list_all_iff)
    show "complete pem g (AList.update p Dir (disk w))" if c: "c = Some (Symlink g)" for g
      using J_live(3) [OF \<open>J pem c w\<close> c] p'(2) by (simp add: complete_other)
  qed
  from this [of "_\<lparr>tick := _\<rparr>"] show ?thesis
    by (auto simp: preserves_def create_entry_def sys_def Let_def split: sum.splits)
qed

lemma J_sync [preserve_intros]:
  "preserves (J pem c) (sync_dir e tls_path)" "preserves (J pem c) (sync_dir e STATE_DIR)" "preserves (J pem c) (sync_dir e (butlast STATE_DIR))"
  by (rule preserves_sync_dir, simp, rule J_overlay, assumption, simp add: path_defs(1) STATE_DIR_def)+

lemma J_look [preserve_intros]:
  "preserves (J pem c) (symlink_metadata e q)" "preserves (J pem c) (set_attributes e q)" "preserves (J pem c) (read_dir e q)"
  "preserves (J pem c) (read_link e q)" "preserves (J pem c) (read_file e q)" "preserves (J pem c) (sys e (ok ()))"
  "preserves (J pem c) (random_bytes8 env)"
  by (rule preserves_look; simp)+

lemma outside_marker: "name \<noteq> TLS_DIR \<Longrightarrow> outside c (marker_path name)"
  using TOP_paths(6) [of name] by (auto simp: outside_def below_gen_path) (simp_all add: path_defs(1) STATE_DIR_def)

lemma marker_names: "ENABLED \<noteq> TLS_DIR" "RESET_PENDING \<noteq> TLS_DIR" "ENABLED @ ''.tmp'' \<noteq> TLS_DIR" "RESET_PENDING @ ''.tmp'' \<noteq> TLS_DIR"
  by (simp_all add: name_defs)

lemma outside_current_tmp: "gen_ok c \<Longrightarrow> outside c current_tmp"
  using not_generation(2) TOP_paths(4) [of "CURRENT @ ''.tmp''"]
  by (auto simp: outside_def gen_ok_def below_gen_path current_tmp_def) (simp_all add: name_defs)

lemma outside_other: "gen_ok c \<Longrightarrow> is_generation_name n \<Longrightarrow> c \<noteq> Some (Symlink n) \<Longrightarrow> below (gen_path n) q \<Longrightarrow> outside c q"
  using not_generation(1) TOP_paths(5) by (fastforce simp: outside_def below_gen_path)


section \<open>The worker's operations\<close>

lemma J_ensure_directory [preserve_intros]:
  "p \<in> {STATE_DIR, tls_path} \<Longrightarrow> preserves (\<lambda>s. J pem c (wd s)) (ensure_directory env p grouped)"
proof -
  assume p: "p \<in> {STATE_DIR, tls_path}"
  then have "preserves (J pem c) (create_entry e p Dir)" "preserves (J pem c) (sync_dir e (butlast p))" for e
    using J_create_top TOP_paths(1,2) J_sync by (auto simp: tls_path_def)
  then show ?thesis
    unfolding ensure_directory_def apply_group_def by (cases "ownership env") (auto intro!: preserve_intros)
qed

lemma J_apply_group [preserve_intros]: "preserves (\<lambda>s. J pem c (wd s)) (apply_group env p)"
  unfolding apply_group_def by (cases "ownership env") (auto intro!: preserve_intros)

lemma J_marker_exists [preserve_intros]: "preserves (\<lambda>s. J pem c (wd s)) (marker_exists env name)"
  unfolding marker_exists_def by (auto intro!: preserve_intros)

lemma J_create_marker [preserve_intros]:
  assumes "name \<noteq> TLS_DIR" "name @ ''.tmp'' \<noteq> TLS_DIR"
  shows "preserves (\<lambda>s. J pem c (wd s)) (create_marker env name)"
  unfolding create_marker_def write_marker_def marker_tmp_def
  by (auto intro!: preserve_intros J_change J_rename outside_marker simp: assms)

lemma J_remove_marker [preserve_intros]:
  "name \<noteq> TLS_DIR \<Longrightarrow> preserves (\<lambda>s. J pem c (wd s)) (remove_marker env name)"
  unfolding remove_marker_def by (auto intro!: preserve_intros J_change outside_marker)

lemma J_remove_stale_temporaries [preserve_intros]: "preserves (\<lambda>s. J pem c (wd s)) (remove_stale_temporaries env)"
  unfolding remove_stale_temporaries_def marker_tmp_def
  by (auto intro!: preserve_intros J_change outside_marker outside_current_tmp simp: marker_names)

lemma J_remove_dir_all:
  "is_generation_name n \<Longrightarrow> c \<noteq> Some (Symlink n) \<Longrightarrow> preserves (J pem c) (remove_dir_all e (gen_path n))"
  by (rule preserves_remove_dir_all) (auto intro!: J_change outside_other)

lemma J_remove_entry:
  "is_generation_name n \<Longrightarrow> c \<noteq> Some (Symlink n) \<Longrightarrow> preserves (\<lambda>s. J pem c (wd s)) (remove_entry env (gen_path n))"
  unfolding remove_entry_def
  by (auto intro!: preserve_intros J_remove_dir_all J_change outside_other simp: below_files)

lemma J_remove_listed:
  assumes "\<And>g. c = Some (Symlink g) \<Longrightarrow> r = Some g"
  shows "preserves (\<lambda>s. J pem c (wd s)) (remove_listed env r names b)"
  using assms by (induction names arbitrary: b) (auto intro!: preserve_intros J_remove_entry)

text \<open>A link that cannot be read is taken for no link at all.  That is harmless only if nothing works any
  more once the link cannot be read.\<close>

definition link_reads_ok :: "io_env \<Rightarrow> bool" where
  "link_reads_ok e \<longleftrightarrow> (\<forall>m k. link_fault e m \<longrightarrow> m \<le> k \<longrightarrow> io_fault e k)"

lemma current_generation_result:
  assumes "J pem c w" "link_reads_ok e"
  shows "wp (attempt (current_generation e))
    (\<lambda>r w'. J pem c w' \<and> ((\<forall>g. c = Some (Symlink g) \<longrightarrow> r = Inr (Some g)) \<or> io_fault e (tick w'))) (\<lambda>_ _. False) w"
  using assms J_live(1,4) [OF assms(1)]
  by (auto simp: current_generation_def wp_simps wp_fun Let_def stat_Inr gen_ok_def link_reads_ok_def
      split: sum.splits node.splits dest: stat_Inl_None [rotated])

lemma J_remove_unreferenced:
  assumes "J pem c (wd s)" "link_reads_ok (io env)"
  shows "wp (remove_unreferenced_generations env) (\<lambda>_ t. J pem c (wd t)) (\<lambda>_ t. J pem c (wd t)) s"
  unfolding remove_unreferenced_generations_def
proof (intro wp_bind)
  show "wp (fault env RemoveGenerations) (\<lambda>_ t. J pem c (wd t)) (\<lambda>_ t. J pem c (wd t)) s"
    using assms(1) by (simp add: wp_fault)
  let ?P = "\<lambda>r t. J pem c (wd t) \<and> ((\<forall>g. c = Some (Symlink g) \<longrightarrow> r = Inr (Some g)) \<or> io_fault (io env) (tick (wd t)))"
  show "wp (attempt (on_world (current_generation (io env)))) ?P (\<lambda>_ t. J pem c (wd t)) t" if "J pem c (wd t)" for t :: "'a wstate"
    using current_generation_result [OF that assms(2)] unfolding wp_attempt wp_on_world by (rule wp_weaken) auto
  show "wp (let referenced = case r of Inl x \<Rightarrow> None | Inr g \<Rightarrow> g in
      and_then (attempt (on_world (read_dir (io env) tls_path))) (\<lambda>r.
        case r of
          Inl e \<Rightarrow> if e = NotFound then ok () else err (Failed ''TLS generations could not be listed'')
        | Inr names \<Rightarrow> remove_listed env referenced names False)) (\<lambda>_ t. J pem c (wd t)) (\<lambda>_ t. J pem c (wd t)) t"
    if P: "?P r t" for r and t :: "'a wstate"
  proof (cases "io_fault (io env) (tick (wd t))")
    case True
    then show ?thesis using P by (simp add: wp_simps wp_fun Let_def)
  next
    case False
    then have "\<And>g. c = Some (Symlink g) \<Longrightarrow> (case r of Inl x \<Rightarrow> None | Inr g \<Rightarrow> g) = Some g" using P by auto
    then have "preserves (\<lambda>s. J pem c (wd s)) (remove_listed env (case r of Inl x \<Rightarrow> None | Inr g \<Rightarrow> g) names False)" for names
      by (rule J_remove_listed)
    then show ?thesis using P unfolding Let_def by (intro preservesD preserve_intros) auto
  qed
qed auto

section \<open>A new generation\<close>

text \<open>openssl, called as the worker calls it, writes the key and the certificate and nothing else; asked for the
  fingerprint it writes nothing.  When it reports success, the key and the certificate belong together.\<close>

definition openssl_ok :: "'a worker_env \<Rightarrow> bool" where
  "openssl_ok env \<longleftrightarrow>
     (\<forall>g t d p. p \<noteq> gen_path g @ [KEY_FILE] \<and> p \<noteq> gen_path g @ [CERT_FILE] \<longrightarrow>
        map_of (fst (openssl_runs env (req_arguments (gen_path g)) t d)) p = map_of d p) \<and>
     (\<forall>g t d. map_of (fst (openssl_runs env (fingerprint_arguments (gen_path g)) t d)) = map_of d)"

definition openssl_pairs :: "(string \<Rightarrow> string \<Rightarrow> bool) \<Rightarrow> 'a worker_env \<Rightarrow> bool" where
  "openssl_pairs pem env \<longleftrightarrow>
     (\<forall>g t d d' out. openssl_runs env (req_arguments (gen_path g)) t d = (d', Some out) \<longrightarrow>
        (\<exists>key cert b b'. pem key cert \<and> map_of d' (gen_path g @ [KEY_FILE]) = Some (File key b) \<and>
           map_of d' (gen_path g @ [CERT_FILE]) = Some (File cert b')))"

definition random_ok :: "'a worker_env \<Rightarrow> bool" where
  "random_ok env \<longleftrightarrow> (\<forall>t bs. random8 env t = Some bs \<longrightarrow> length bs = 8)"

text \<open>A generation that is being filled, and one that is ready to be linked.\<close>

definition F :: "(string \<Rightarrow> string \<Rightarrow> bool) \<Rightarrow> string \<Rightarrow> node option \<Rightarrow> world \<Rightarrow> bool" where
  "F pem g c w \<longleftrightarrow> J pem c w \<and> is_generation_name g \<and> c \<noteq> Some (Symlink g) \<and> map_of (disk w) (gen_path g) = Some Dir"

definition ready :: "(string \<Rightarrow> string \<Rightarrow> bool) \<Rightarrow> string \<Rightarrow> world \<Rightarrow> bool" where
  "ready pem g w \<longleftrightarrow> is_generation_name g \<and> map_of (disk w) (gen_path g) = Some Dir \<and> all_images (files_ok pem g) w"

lemma F_tick [simp]: "F pem g c (w\<lparr>tick := t\<rparr>) = F pem g c w"
  by (simp add: F_def)

lemma F_look [preserve_intros]:
  "preserves (F pem g c) (symlink_metadata e q)" "preserves (F pem g c) (set_attributes e q)"
  by (rule preserves_look; simp)+

lemma F_apply_group [preserve_intros]: "preserves (\<lambda>s. F pem g c (wd s)) (apply_group env p)"
  unfolding apply_group_def by (cases "ownership env") (auto intro!: preserve_intros)

lemma F_put:
  assumes "F pem g c w" "\<And>p. \<not> below (gen_path g) p \<Longrightarrow> map_of d p = map_of (disk w) p" "map_of d (gen_path g) = Some Dir"
  shows "F pem g c (put_disk d w)"
proof -
  have "outside c p" if "below (gen_path g) p" for p
    using assms(1) that J_live(1) outside_other by (auto simp: F_def)
  then have "J pem c (put_disk d w)" using assms(1,2) by (intro J_frame) (auto simp: F_def)
  then show ?thesis using assms by (simp add: F_def)
qed

lemma F_openssl:
  assumes "openssl_ok env"
  shows "preserves (F pem g c) (openssl env (req_arguments (gen_path g)))"
    "preserves (F pem g c) (openssl env (fingerprint_arguments (gen_path g)))"
proof -
  have ne: "gen_path g \<noteq> gen_path g @ [x]" "\<not> below (gen_path g) p \<Longrightarrow> p \<noteq> gen_path g @ [x]" for x p
    by (auto simp: below_def)
  have "F pem g c (put_disk (fst (openssl_runs env (req_arguments (gen_path g)) t (disk w))) (w\<lparr>tick := t'\<rparr>))"
    "F pem g c (put_disk (fst (openssl_runs env (fingerprint_arguments (gen_path g)) t (disk w))) (w\<lparr>tick := t'\<rparr>))"
    if "F pem g c w" for w t t'
  proof -
    have dir: "map_of (disk w) (gen_path g) = Some Dir" using that by (simp add: F_def)
    show "F pem g c (put_disk (fst (openssl_runs env (req_arguments (gen_path g)) t (disk w))) (w\<lparr>tick := t'\<rparr>))"
      using that assms ne dir by (intro F_put) (simp_all add: openssl_ok_def)
    show "F pem g c (put_disk (fst (openssl_runs env (fingerprint_arguments (gen_path g)) t (disk w))) (w\<lparr>tick := t'\<rparr>))"
      using that assms dir by (intro F_put) (simp_all add: openssl_ok_def)
  qed
  then show "preserves (F pem g c) (openssl env (req_arguments (gen_path g)))"
    "preserves (F pem g c) (openssl env (fingerprint_arguments (gen_path g)))"
    by (auto simp: preserves_def openssl_def split: prod.splits) (metis fst_conv)+
qed

lemma F_change:
  shows "preserves (F pem g c) (remove_file e (gen_path g @ [x]))" "preserves (F pem g c) (create_entry e (gen_path g @ [x]) n)"
    "preserves (F pem g c) (write_all e (gen_path g @ [x]) b)" "preserves (F pem g c) (sync_file e (gen_path g @ [x]))"
proof -
  have ne: "gen_path g @ [x] \<noteq> gen_path g" "below (gen_path g) (tls_path @ [g, x])" by (simp_all add: below_def)
  have "F pem g c (put_disk (AList.update (gen_path g @ [x]) n (disk w)) w)" "F pem g c (put_disk (AList.delete (gen_path g @ [x]) (disk w)) w)"
    if "F pem g c w" for w n
    by (rule F_put [OF that]; use that ne in \<open>auto simp: F_def\<close>)+
  then show "preserves (F pem g c) (remove_file e (gen_path g @ [x]))" "preserves (F pem g c) (create_entry e (gen_path g @ [x]) n)"
    "preserves (F pem g c) (write_all e (gen_path g @ [x]) b)" "preserves (F pem g c) (sync_file e (gen_path g @ [x]))"
    by (auto intro!: preserves_change)
qed

lemmas F_changes = F_change F_change [simplified]

text \<open>The contents of a file are kept by syncing, and by writes elsewhere.\<close>

definition content_at :: "path \<Rightarrow> string \<Rightarrow> world \<Rightarrow> bool" where
  "content_at p x w \<longleftrightarrow> (\<exists>b. map_of (disk w) p = Some (File x b))"

definition synced_at :: "path \<Rightarrow> string \<Rightarrow> world \<Rightarrow> bool" where
  "synced_at p x w \<longleftrightarrow> map_of (disk w) p = Some (File x True)"

lemma content_at_tick [simp]: "content_at p x (w\<lparr>tick := t\<rparr>) = content_at p x w" "synced_at p x (w\<lparr>tick := t\<rparr>) = synced_at p x w"
  by (simp_all add: content_at_def synced_at_def)

lemma content_keeps [preserve_intros]:
  "preserves (content_at p x) (symlink_metadata e q)" "preserves (content_at p x) (set_attributes e q)" "preserves (content_at p x) (sync_file e q)"
  "preserves (content_at p x) (sync_dir e q)"
  by (auto simp: content_at_def preserves_def symlink_metadata_def set_attributes_def sync_file_def sync_dir_def sys_def Let_def
      stat_def split: sum.splits node.splits if_splits option.splits)

lemma synced_keeps [preserve_intros]:
  "preserves (synced_at p x) (symlink_metadata e q)" "preserves (synced_at p x) (set_attributes e q)" "preserves (synced_at p x) (sync_file e q)"
  "preserves (synced_at p x) (create_entry e q n)" "q \<noteq> p \<Longrightarrow> preserves (synced_at p x) (write_all e q b)"
  "preserves (synced_at p x) (sync_dir e q)"
  by (auto simp: synced_at_def preserves_def symlink_metadata_def set_attributes_def sync_file_def create_entry_def
      write_all_def sync_dir_def sys_def Let_def stat_def split: sum.splits node.splits if_splits option.splits)

lemma content_apply_group [preserve_intros]:
  "preserves (\<lambda>s. content_at p x (wd s)) (apply_group env q)" "preserves (\<lambda>s. synced_at p x (wd s)) (apply_group env q)"
  unfolding apply_group_def by (cases "ownership env"; auto intro!: preserve_intros)+

lemma sync_file_synced: "content_at p x w \<Longrightarrow> p \<noteq> [] \<Longrightarrow> wp (sync_file e p) (\<lambda>_. synced_at p x) (\<lambda>_ _. True) w"
  by (auto simp: wp_sync_file Let_def content_at_def synced_at_def stat_def)

lemma still_finish_files [preserve_intros]:
  "preserves (\<lambda>s. synced_at p x (wd s)) (finish_files env directory names)"
  "preserves (\<lambda>s. content_at p x (wd s)) (finish_files env directory names)"
proof -
  have split: "preserves I (case m of Inr (File a b) \<Rightarrow> y | _ \<Rightarrow> z)" if "preserves I y" "preserves I z"
    for I :: "'a wstate \<Rightarrow> bool" and m :: "io_error + node" and y z :: "('a wstate, failed, unit) op"
    using that by (auto split: sum.splits node.splits)
  show "preserves (\<lambda>s. synced_at p x (wd s)) (finish_files env directory names)"
    by (induction names) (auto intro!: preserve_intros split)
  show "preserves (\<lambda>s. content_at p x (wd s)) (finish_files env directory names)"
    by (induction names) (auto intro!: preserve_intros split)
qed

lemma F_finish_files: "preserves (\<lambda>s. F pem g c (wd s)) (finish_files env (gen_path g) names)"
proof (induction names)
  case (Cons n names)
  have split: "preserves I (case m of Inr (File a b) \<Rightarrow> y | _ \<Rightarrow> z)" if "preserves I y" "preserves I z"
    for I :: "'a wstate \<Rightarrow> bool" and m :: "io_error + node" and y z :: "('a wstate, failed, unit) op"
    using that by (auto split: sum.splits node.splits)
  show ?case using Cons by (auto intro!: preserve_intros split F_changes)
qed (auto intro!: preserve_intros)

text \<open>The file that is finished first is synced.\<close>

lemma finish_file_synced:
  assumes "content_at (directory @ [n]) x (wd s)"
  shows "wp (finish_files env directory (n # names)) (\<lambda>_ t. synced_at (directory @ [n]) x (wd t)) (\<lambda>_ _. True) s"
proof -
  let ?C = "\<lambda>t. content_at (directory @ [n]) x (wd t)" and ?S = "\<lambda>t. synced_at (directory @ [n]) x (wd t)"
  let ?rest = "and_then (io_failure (set_attributes (io env) (directory @ [n])) ''TLS file permissions could not be set'') (\<lambda>_.
       and_then (apply_group env (directory @ [n])) (\<lambda>_.
       and_then (io_failure (sync_file (io env) (directory @ [n])) ''a TLS file could not be synced'') (\<lambda>_.
       finish_files env directory names)))"
  have keep: "preserves ?C (io_failure (set_attributes (io env) (directory @ [n])) ''TLS file permissions could not be set'')"
    "preserves ?C (apply_group env (directory @ [n]))" "preserves ?S (finish_files env directory names)"
    by (auto intro!: preserve_intros)
  have sync: "wp (io_failure (sync_file (io env) (directory @ [n])) ''a TLS file could not be synced'') (\<lambda>_. ?S) (\<lambda>_ _. True) t"
    if "?C t" for t
    using sync_file_synced [OF that, of "io env"] by (simp add: wp_io_failure)
  have last: "wp (finish_files env directory names) (\<lambda>_. ?S) (\<lambda>_ _. True) t" if "?S t" for t
    by (rule wp_mono [OF preservesD [where I = ?S, OF keep(3) that]]) simp_all
  have rest: "wp ?rest (\<lambda>_. ?S) (\<lambda>_ _. True) t" if "?C t" for t
    by (rule wp_bind [OF preservesD [where I = ?C, OF keep(1) that]], rule wp_bind [OF preservesD [where I = ?C, OF keep(2)]], assumption,
        rule wp_bind [OF sync], assumption) (rule last, assumption | simp)+
  show ?thesis
    unfolding finish_files.simps
    by (intro wp_bind [where P = "\<lambda>r t. ?C t" and F = "\<lambda>_ _. False"])
      (use assms rest in \<open>auto simp: wp_simps Let_def split: sum.splits node.splits\<close>)
qed

lemma finish_files_synced:
  "n \<in> set names \<Longrightarrow> content_at (directory @ [n]) x (wd s) \<Longrightarrow>
     wp (finish_files env directory names) (\<lambda>_ t. synced_at (directory @ [n]) x (wd t)) (\<lambda>_ _. True) s"
proof (induction names arbitrary: s)
  case (Cons m names)
  let ?C = "\<lambda>t. content_at (directory @ [n]) x (wd t)" and ?S = "\<lambda>t. synced_at (directory @ [n]) x (wd t)"
  show ?case
  proof (cases "n = m")
    case True
    then show ?thesis using finish_file_synced [of directory m x s env names] Cons.prems by simp
  next
    case False
    then have ih: "wp (finish_files env directory names) (\<lambda>_. ?S) (\<lambda>_ _. True) t" if "?C t" for t
      using Cons.IH [OF _ that] Cons.prems by simp
    have keep: "preserves ?C (io_failure (set_attributes (io env) (directory @ [m])) ''TLS file permissions could not be set'')"
      "preserves ?C (apply_group env (directory @ [m]))"
      "preserves ?C (io_failure (sync_file (io env) (directory @ [m])) ''a TLS file could not be synced'')"
      by (auto intro!: preserve_intros)
    have "wp (and_then (io_failure (set_attributes (io env) (directory @ [m])) ''TLS file permissions could not be set'') (\<lambda>_.
       and_then (apply_group env (directory @ [m])) (\<lambda>_.
       and_then (io_failure (sync_file (io env) (directory @ [m])) ''a TLS file could not be synced'') (\<lambda>_.
       finish_files env directory names)))) (\<lambda>_. ?S) (\<lambda>_ _. True) t" if "?C t" for t
      by (rule wp_bind [OF preservesD [where I = ?C, OF keep(1) that]], rule wp_bind [OF preservesD [where I = ?C, OF keep(2)]], assumption,
          rule wp_bind [OF preservesD [where I = ?C, OF keep(3)]], assumption) (rule ih, assumption | simp)+
    then show ?thesis
      unfolding finish_files.simps
      by (intro wp_bind [where P = "\<lambda>r t. ?C t" and F = "\<lambda>_ _. False"])
        (use Cons.prems in \<open>auto simp: wp_simps Let_def split: sum.splits node.splits\<close>)
  qed
qed simp

text \<open>A matching pair that is written, and one that is on the disk for good.\<close>

definition pair_at :: "(path \<Rightarrow> string \<Rightarrow> world \<Rightarrow> bool) \<Rightarrow> (string \<Rightarrow> string \<Rightarrow> bool) \<Rightarrow> string \<Rightarrow> world \<Rightarrow> bool" where
  "pair_at at pem g w \<longleftrightarrow> (\<exists>key cert. pem key cert \<and> at (gen_path g @ [KEY_FILE]) key w \<and> at (gen_path g @ [CERT_FILE]) cert w)"

lemma pair_tick [simp]: "pair_at content_at pem g (w\<lparr>tick := t\<rparr>) = pair_at content_at pem g w"
  "pair_at synced_at pem g (w\<lparr>tick := t\<rparr>) = pair_at synced_at pem g w"
  by (simp_all add: pair_at_def del: append.simps)

lemma preserves_pair:
  assumes "\<And>p x. p \<in> {gen_path g @ [KEY_FILE], gen_path g @ [CERT_FILE]} \<Longrightarrow> preserves (at p x) m"
  shows "preserves (pair_at at pem g) m"
  using assms unfolding preserves_def pair_at_def by blast

lemma finish_files_spec:
  assumes "F pem g c (wd s)" "pair_at content_at pem g (wd s)"
  shows "wp (finish_files env (gen_path g) [KEY_FILE, CERT_FILE]) (\<lambda>_ t. F pem g c (wd t) \<and> pair_at synced_at pem g (wd t)) (\<lambda>_ t. F pem g c (wd t)) s"
proof -
  obtain key cert where k: "pem key cert" "content_at (gen_path g @ [KEY_FILE]) key (wd s)" "content_at (gen_path g @ [CERT_FILE]) cert (wd s)"
    using assms(2) unfolding pair_at_def by blast
  have "wp (finish_files env (gen_path g) [KEY_FILE, CERT_FILE]) (\<lambda>_ t. synced_at (gen_path g @ [KEY_FILE]) key (wd t) \<and>
      synced_at (gen_path g @ [CERT_FILE]) cert (wd t)) (\<lambda>_ _. True \<and> True) s"
    by (rule wp_conj [OF finish_files_synced [OF _ k(2)] finish_files_synced [OF _ k(3)]]) simp_all
  then show ?thesis
    by (rule wp_keep [where I = "\<lambda>t. F pem g c (wd t)", OF F_finish_files assms(1)]) (use k(1) in \<open>unfold pair_at_def, blast+\<close>)
qed

lemma openssl_pair:
  assumes "openssl_pairs pem env"
  shows "wp (openssl env (req_arguments (gen_path g))) (\<lambda>_. pair_at content_at pem g) (\<lambda>_ _. True) w"
proof -
  obtain d' out where r: "openssl_runs env (req_arguments (gen_path g)) (tick w) (disk w) = (d', out)" by fastforce
  show ?thesis
  proof (cases out)
    case (Some x)
    then have "\<exists>key cert b b'. pem key cert \<and> map_of d' (gen_path g @ [KEY_FILE]) = Some (File key b) \<and>
           map_of d' (gen_path g @ [CERT_FILE]) = Some (File cert b')"
      using assms r unfolding openssl_pairs_def by blast
    then show ?thesis using r Some unfolding pair_at_def content_at_def by (simp add: wp_def openssl_def)
  qed (simp add: wp_def openssl_def r)
qed

lemma write_fingerprint_spec:
  assumes "F pem g c w" "is_canonical_fingerprint f" "pair_at synced_at pem g w"
  shows "wp (write_fingerprint env (gen_path g) f) (\<lambda>_ w. F pem g c w \<and> ready pem g w) (\<lambda>_. F pem g c) w"
proof -
  let ?p = "gen_path g @ [FINGERPRINT_FILE]" and ?contents = "fingerprint_file_contents f"
  let ?I = "\<lambda>w. F pem g c w \<and> pair_at synced_at pem g w"
  have keep: "preserves ?I (create_entry (io env) ?p (File [] False))" "preserves ?I (set_attributes (io env) ?p)"
    "preserves ?I (write_all (io env) ?p ?contents)" "preserves ?I (sync_file (io env) ?p)"
    by (intro preserves_conj preserves_pair; auto intro!: preserve_intros F_changes simp: name_defs)+
  have written: "wp (write_all (io env) ?p ?contents) (\<lambda>_ w. map_of (disk w) ?p = Some (File ?contents False)) (\<lambda>_ _. True) w" for w
    by (simp add: wp_write_all Let_def)
  have synced: "wp (sync_file (io env) ?p) (\<lambda>_ w. map_of (disk w) ?p = Some (File ?contents True)) (\<lambda>_ _. True) w"
    if "map_of (disk w) ?p = Some (File ?contents False)" for w
    using that by (auto simp: wp_sync_file Let_def stat_def)
  have final: "wp (sync_dir (io env) (gen_path g)) (\<lambda>_ w. F pem g c w \<and> ready pem g w) (\<lambda>_. F pem g c) w"
    if "?I w" "map_of (disk w) ?p = Some (File ?contents True)" for w
  proof -
    have files: "files_ok pem g (disk w)" using that assms(2) by (auto simp: files_ok_def pair_at_def synced_at_def)
    then have "files_ok pem g (overlay (gen_path g) (disk w) img)" for img
      by (simp add: files_ok_def map_of_overlay butlast_append)
    moreover have "J pem c (w\<lparr>tick := t, images := map (overlay (gen_path g) (disk w)) (images w)\<rparr>)" for t
      using J_overlay [of pem c "w\<lparr>tick := t\<rparr>" "gen_path g"] that(1) files by (simp add: F_def)
    ultimately show ?thesis
      using that(1) files by (auto simp: wp_sync_dir Let_def F_def ready_def all_images_def split: sum.splits)
  qed
  have w3: "wp (and_then (sync_file (io env) ?p) (\<lambda>_. sync_dir (io env) (gen_path g))) (\<lambda>_ w. F pem g c w \<and> ready pem g w) (\<lambda>_. F pem g c) w"
    if "?I w" "map_of (disk w) ?p = Some (File ?contents False)" for w
    by (rule wp_bind [OF wp_preserves [where I = ?I, OF keep(4) that(1) synced [OF that(2)]]]) (blast intro: final)+
  have w2: "wp (and_then (write_all (io env) ?p ?contents) (\<lambda>_. and_then (sync_file (io env) ?p) (\<lambda>_. sync_dir (io env) (gen_path g))))
      (\<lambda>_ w. F pem g c w \<and> ready pem g w) (\<lambda>_. F pem g c) w" if "?I w" for w
    by (rule wp_bind [OF wp_preserves [where I = ?I, OF keep(3) that written]]) (blast intro: w3)+
  have w1: "wp (and_then (set_attributes (io env) ?p) (\<lambda>_. and_then (write_all (io env) ?p ?contents) (\<lambda>_.
      and_then (sync_file (io env) ?p) (\<lambda>_. sync_dir (io env) (gen_path g))))) (\<lambda>_ w. F pem g c w \<and> ready pem g w) (\<lambda>_. F pem g c) w" if "?I w" for w
    by (rule wp_bind [OF preservesD [OF keep(2) that]]) (blast intro: w2)+
  have "?I w" using assms by blast
  from preservesD [OF keep(1) this] show ?thesis
    unfolding write_fingerprint_def Let_def by (rule wp_bind) (blast intro: w1)+
qed


lemma fill_generation_spec:
  assumes "F pem g c (wd s)" "openssl_ok env" "openssl_pairs pem env"
  shows "wp (fill_generation env (gen_path g)) (\<lambda>_ t. F pem g c (wd t) \<and> ready pem g (wd t)) (\<lambda>_ t. F pem g c (wd t)) s"
  unfolding fill_generation_def
proof (intro wp_bind)
  let ?F = "\<lambda>t. F pem g c (wd t)" and ?P = "\<lambda>t. F pem g c (wd t) \<and> pair_at content_at pem g (wd t)"
  show "wp (io_failure (set_attributes (io env) (gen_path g)) ''a TLS generation directory could not be created'') (\<lambda>_. ?F) (\<lambda>_. ?F) s"
    using assms(1) by (intro preservesD) (auto intro!: preserve_intros)
  show "wp (apply_group env (gen_path g)) (\<lambda>_. ?F) (\<lambda>_. ?F) t" if "?F t" for t
    using that by (intro preservesD) (auto intro!: preserve_intros)
  show "wp (map_err (\<lambda>_. Failed ''openssl could not generate the TLS identity'')
      (on_world (openssl env (req_arguments (gen_path g))))) (\<lambda>_. ?P) (\<lambda>_. ?F) t" if "?F t" for t
    unfolding wp_map_err wp_on_world
    by (rule wp_keep [where I = "F pem g c", OF F_openssl(1) [OF assms(2)] _ openssl_pair [OF assms(3)]]) (use that in auto)
  have "preserves (pair_at content_at pem g) (openssl env (fingerprint_arguments (gen_path g)))"
    using assms(2) unfolding preserves_def openssl_def pair_at_def content_at_def openssl_ok_def by (auto split: prod.splits) (metis fst_conv)+
  then show "wp (map_err (\<lambda>_. Failed ''openssl could not compute the fingerprint'')
      (on_world (openssl env (fingerprint_arguments (gen_path g))))) (\<lambda>_. ?P) (\<lambda>_. ?F) t" if "?P t" for t
    unfolding wp_map_err wp_on_world
    by (intro wp_keep [where I = "pair_at content_at pem g", OF _ _ preservesD [OF F_openssl(2) [OF assms(2)]]]) (use that in auto)
  show "wp (lift_res (ok_or (Failed ''openssl returned a malformed fingerprint'') (parse_openssl_fingerprint out)))
      (\<lambda>f t. ?P t \<and> is_canonical_fingerprint f) (\<lambda>_. ?F) t" if "?P t" for out t
    using that by (auto simp: wp_lift_res parse_openssl_fingerprint_def split: option.splits)
  show "wp (finish_files env (gen_path g) [KEY_FILE, CERT_FILE])
      (\<lambda>_ t. ?F t \<and> is_canonical_fingerprint f \<and> pair_at synced_at pem g (wd t)) (\<lambda>_. ?F) t" if "?P t \<and> is_canonical_fingerprint f" for f t
    by (rule wp_weaken [OF finish_files_spec]) (use that in auto)
  show "wp (io_failure (write_fingerprint env (gen_path g) f) ''the fingerprint could not be written'')
      (\<lambda>_ t. ?F t \<and> ready pem g (wd t)) (\<lambda>_. ?F) t"
    if "?F t \<and> is_canonical_fingerprint f \<and> pair_at synced_at pem g (wd t)" for f t
    unfolding wp_io_failure by (rule wp_weaken [OF write_fingerprint_spec]) (use that in auto)
qed auto

lemma create_generation:
  assumes "J pem c w" "is_generation_name g"
  shows "wp (create_entry e (gen_path g) Dir) (\<lambda>_. F pem g c) (\<lambda>_. J pem c) w"
proof -
  have "J pem c (put_disk (AList.update (gen_path g) Dir (disk w)) (w\<lparr>tick := t\<rparr>)) \<and> c \<noteq> Some (Symlink g)"
    if "map_of (disk w) (gen_path g) = None" for t
  proof -
    have "c \<noteq> Some (Symlink g)" using J_live(3) [OF assms(1), of g] that by (auto simp: complete_def)
    moreover from this have "outside c (gen_path g)"
      using J_live(1) [OF assms(1)] assms(2) by (auto intro: outside_other simp: below_files)
    then have "J pem c (put_disk (AList.update (gen_path g) Dir (disk w)) (w\<lparr>tick := t\<rparr>))"
      using assms(1) by (intro J_frame) auto
    ultimately show ?thesis by blast
  qed
  then show ?thesis
    using assms by (auto simp: wp_create_entry Let_def F_def dest: stat_Inl_None [rotated] split: sum.splits)
qed

lemma generation_name_ok: "length bs = 8 \<Longrightarrow> is_generation_name (generation_name bs)"
  using hex_string_lower_hex [of bs] by (simp add: is_generation_name_def generation_name_hex)

lemma generate_identity_spec:
  assumes "J pem c (wd s)" "openssl_ok env" "random_ok env" "link_reads_ok (io env)" "openssl_pairs pem env"
  shows "wp (generate_identity env) (\<lambda>g t. J pem c (wd t) \<and> ready pem g (wd t)) (\<lambda>_ t. J pem c (wd t)) s"
  unfolding generate_identity_def
proof (intro wp_bind)
  let ?J = "\<lambda>t. J pem c (wd t)"
  show "wp (ensure_directory env STATE_DIR False) (\<lambda>_. ?J) (\<lambda>_. ?J) s"
    using assms(1) by (intro preservesD) (auto intro!: preserve_intros)
  show "wp (ensure_directory env tls_path True) (\<lambda>_. ?J) (\<lambda>_. ?J) t" if "?J t" for t
    using that by (intro preservesD) (auto intro!: preserve_intros)
  show "wp (remove_unreferenced_generations env) (\<lambda>_. ?J) (\<lambda>_. ?J) t" if "?J t" for t
    by (rule J_remove_unreferenced [OF that assms(4)])
  show "wp (map_err (\<lambda>_. Failed ''randomness is unavailable'') (on_world (random_bytes8 env)))
      (\<lambda>bs t. ?J t \<and> length bs = 8) (\<lambda>_. ?J) t" if "?J t" for t
    unfolding wp_map_err wp_on_world using that assms(3)
    by (auto simp: wp_def random_bytes8_def ok_or_def random_ok_def split: option.splits)
  show "wp (let generation = generation_name bs; directory = tls_path @ [generation] in
       and_then (io_failure (create_entry (io env) directory Dir) ''a TLS generation directory could not be created'') (\<lambda>_.
       and_then (attempt (fill_generation env directory)) (\<lambda>written.
         case written of
           Inl e \<Rightarrow> and_then (attempt (on_world (remove_dir_all (io env) directory))) (\<lambda>_. err e)
         | Inr _ \<Rightarrow> ok generation))) (\<lambda>g t. ?J t \<and> ready pem g (wd t)) (\<lambda>_. ?J) t"
    if "?J t \<and> length bs = 8" for bs t
  proof -
    let ?g = "generation_name bs"
    have g: "is_generation_name ?g" using that generation_name_ok by blast
    let ?F = "\<lambda>t. F pem ?g c (wd t)"
    have made: "wp (io_failure (create_entry (io env) (gen_path ?g) Dir) msg) (\<lambda>_. ?F) (\<lambda>_. ?J) t" for msg
      unfolding wp_io_failure using that g by (auto intro: wp_weaken [OF create_generation])
    have filled: "wp (attempt (fill_generation env (gen_path ?g))) (\<lambda>r u. ?F u \<and> (is_ok r \<longrightarrow> ready pem ?g (wd u))) (\<lambda>_ _. False) u"
      if "?F u" for u
      unfolding wp_attempt by (rule wp_weaken [OF fill_generation_spec [OF that assms(2,5)]]) auto
    have undo: "wp (and_then (attempt (on_world (remove_dir_all (io env) (gen_path ?g)))) (\<lambda>_. err e)) Q (\<lambda>_. ?J) u"
      if "?F u" for e Q u
      using that by (intro wp_bind [OF preservesD, of "\<lambda>t. J pem c (wd t)"])
        (auto intro!: preserve_intros J_remove_dir_all simp: F_def wp_err)
    show ?thesis unfolding Let_def
      by (rule wp_bind [OF made], rule wp_bind [OF filled], assumption)
        (auto simp: wp_ok F_def [of _ _ _ "wd _"] split: sum.splits intro!: undo)
  qed
qed auto

section \<open>Linking and unlinking\<close>

text \<open>The invariant without naming the present link.\<close>

definition intact :: "(string \<Rightarrow> string \<Rightarrow> bool) \<Rightarrow> 'a wstate \<Rightarrow> bool" where
  "intact pem s \<longleftrightarrow> (\<exists>c. J pem c (wd s))"

lemma intact_keeps: "(\<And>c. preserves (\<lambda>s. J pem c (wd s)) m) \<Longrightarrow> preserves (intact pem) m"
  unfolding preserves_def intact_def by blast

lemma intact_run: "(\<And>c. J pem c (wd s) \<Longrightarrow> wp m (\<lambda>_ t. J pem c (wd t)) (\<lambda>_ t. J pem c (wd t)) s) \<Longrightarrow> intact pem s \<Longrightarrow> wp m (\<lambda>_. intact pem) (\<lambda>_. intact pem) s"
  unfolding intact_def by (blast intro: wp_weaken)

lemma ready_create_tmp:
  assumes "J pem c w" "ready pem g w"
  shows "wp (create_entry e current_tmp (Symlink g)) (\<lambda>_ w. J pem c w \<and> ready pem g w \<and> map_of (disk w) current_tmp = Some (Symlink g)) (\<lambda>_. J pem c) w"
proof -
  have "\<not> below (gen_path g) current_tmp"
    using outside_current_tmp [of "Some (Symlink g)"] assms(2) by (auto simp: outside_def gen_ok_def ready_def)
  then have "files_ok pem g (AList.update current_tmp n (disk w))" for n
    using assms(2) all_images_disk [of "files_ok pem g" w] by (simp add: ready_def complete_other)
  moreover have "gen_path g \<noteq> current_tmp" using \<open>\<not> below (gen_path g) current_tmp\<close> below_files(1) by metis
  moreover have "J pem c (put_disk (AList.update current_tmp n (disk w)) (w\<lparr>tick := t\<rparr>))" for n t
    using assms(1) outside_current_tmp [OF J_live(1) [OF assms(1)]] by (intro J_frame) auto
  ultimately show ?thesis
    using assms by (auto simp: wp_create_entry Let_def ready_def split: sum.splits)
qed

lemma link_generation:
  assumes "J pem c w" "ready pem g w" "map_of (disk w) current_tmp = Some (Symlink g)"
  shows "wp (rename e current_tmp cur_path) (\<lambda>_. J pem (Some (Symlink g))) (\<lambda>_. J pem c) w"
proof -
  let ?d = "AList.update cur_path (Symlink g) (AList.delete current_tmp (disk w))"
  have g: "is_generation_name g" "map_of (disk w) (gen_path g) = Some Dir" "files_ok pem g (disk w)" "all_images (files_ok pem g) w"
    using assms(2) all_images_disk [of "files_ok pem g" w] by (auto simp: ready_def)
  have ne: "\<not> below (gen_path g) current_tmp" "\<not> below (gen_path g) cur_path"
    using g(1) not_generation by (auto simp: below_gen_path) (simp_all add: path_defs)
  have complete: "complete pem g ?d"
    using g ne by (simp add: complete_other) (simp add: complete_def)
  have "current_tmp \<notin> set TOP" "cur_path \<notin> set TOP" using outside_current_tmp [of None] TOP_paths(3) by (auto simp: outside_def gen_ok_def)
  then have "prefix_ok ?d" using J_live(2) [OF assms(1)] by (simp add: prefix_ok_other)
  then have "J pem (Some (Symlink g)) (put_disk ?d (w\<lparr>tick := t\<rparr>))" for t
    using complete g assms(1) by (auto simp: J_def sound_def complete_def)
  moreover have "current_tmp \<noteq> []" by (simp add: path_defs)
  ultimately show ?thesis
    using assms by (auto simp: wp_rename Let_def stat_def split: sum.splits)
qed

lemma swap_current_intact:
  assumes "J pem c (wd s)" "ready pem g (wd s)"
  shows "wp (swap_current env g) (\<lambda>_. intact pem) (\<lambda>_. intact pem) s"
proof -
  let ?link = "and_then (create_entry (io env) current_tmp (Symlink g)) (\<lambda>_.
        and_then (rename (io env) current_tmp cur_path) (\<lambda>_. sync_dir (io env) tls_path))"
  have "wp (and_then (rename (io env) current_tmp cur_path) (\<lambda>_. sync_dir (io env) tls_path)) (\<lambda>_ w. \<exists>c. J pem c w) (\<lambda>_ w. \<exists>c. J pem c w) w"
    if "J pem c w \<and> ready pem g w \<and> map_of (disk w) current_tmp = Some (Symlink g)" for w
    by (rule wp_bind [OF link_generation]) (use that in \<open>auto intro: wp_weaken [OF preservesD [OF J_sync(1)]]\<close>)
  then have "wp ?link (\<lambda>_ w. \<exists>c. J pem c w) (\<lambda>_ w. \<exists>c. J pem c w) w" if "J pem c w" "ready pem g w" for w
    by (rule wp_bind [OF ready_create_tmp [OF that]]) auto
  then have "wp (attempt (on_world ?link)) (\<lambda>_. intact pem) (\<lambda>_. intact pem) t" if "t = s" for t
    unfolding wp_attempt wp_on_world using assms that by (simp add: intact_def)
  moreover have "wp (fault env SwapCurrent) (\<lambda>_ t. t = s) (\<lambda>_. intact pem) s" using assms(1) by (auto simp: wp_fault intact_def)
  moreover have "preserves (intact pem) (if is_ok r then ok ()
      else and_then (attempt (on_world (remove_file (io env) current_tmp))) (\<lambda>_. err (Failed msg)))" for r :: "io_error + unit" and msg
    by (rule intact_keeps) (auto intro!: preserve_intros J_change outside_current_tmp)
  ultimately show ?thesis unfolding swap_current_def by (intro wp_bind) (assumption | blast intro: preservesD)+
qed

lemma remove_current_intact:
  assumes "intact pem s"
  shows "wp (remove_current env) (\<lambda>_. intact pem) (\<lambda>_. intact pem) s"
proof -
  have unlink: "wp (remove_file e cur_path) (\<lambda>_ w. \<exists>c. J pem c w) (\<lambda>_ w. \<exists>c. J pem c w) w" if "J pem c w" for c e w
  proof -
    have "prefix_ok (AList.delete cur_path (disk w))"
      using J_live(2) [OF that] TOP_paths(3) by (simp add: prefix_ok_other)
    then have "J pem None (put_disk (AList.delete cur_path (disk w)) (w\<lparr>tick := t\<rparr>))" for t
      using that by (auto simp: J_def sound_def)
    then show ?thesis using that by (auto simp: wp_remove_file Let_def split: sum.splits)
  qed
  have "wp (attempt (on_world (remove_file (io env) cur_path))) (\<lambda>_. intact pem) (\<lambda>_. intact pem) t" if "intact pem t" for t :: "'a wstate"
    unfolding wp_attempt wp_on_world using that unlink by (auto simp: intact_def)
  moreover have "preserves (intact pem) (case r of
         Inr _ \<Rightarrow> io_failure (sync_dir (io env) tls_path) msg | Inl e \<Rightarrow> if e = NotFound then ok () else err (Failed msg))"
    for r :: "io_error + unit" and msg
    by (rule intact_keeps) (auto intro!: preserve_intros)
  moreover have "wp (fault env RemoveCurrent) (\<lambda>_. intact pem) (\<lambda>_. intact pem) s" using assms by (simp add: wp_fault)
  ultimately show ?thesis unfolding remove_current_def by (intro wp_bind) (assumption | blast intro: preservesD)+
qed

section \<open>All modes\<close>

lemma rotate_intact:
  assumes "intact pem s" "openssl_ok env" "random_ok env" "link_reads_ok (io env)" "openssl_pairs pem env"
  shows "wp (rotate_tls env) (\<lambda>_. intact pem) (\<lambda>_. intact pem) s"
  unfolding rotate_tls_def
proof (intro wp_bind)
  show "wp (generate_identity env) (\<lambda>g t. \<exists>c. J pem c (wd t) \<and> ready pem g (wd t)) (\<lambda>_. intact pem) s"
  proof -
    obtain c where "J pem c (wd s)" using assms(1) by (auto simp: intact_def)
    from generate_identity_spec [OF this assms(2-5)] show ?thesis by (rule wp_weaken) (auto simp: intact_def)
  qed
  show "wp (swap_current env g) (\<lambda>_. intact pem) (\<lambda>_. intact pem) t" if "\<exists>c. J pem c (wd t) \<and> ready pem g (wd t)" for g t
    using that swap_current_intact by blast
  show "wp (remove_unreferenced_generations env) (\<lambda>_. intact pem) (\<lambda>_. intact pem) t" if "intact pem t" for t
    using that by (rule intact_run [rotated]) (rule J_remove_unreferenced [OF _ assms(4)])
qed auto

lemma current_identity_J [preserve_intros]: "preserves (J pem c) (current_identity e)"
  unfolding current_identity_def current_fingerprint_def current_generation_def is_kind_def
  by (auto intro!: preserve_intros)

lemma run_worker_intact:
  assumes "intact pem s" "openssl_ok env" "random_ok env" "link_reads_ok (io env)" "openssl_pairs pem env"
  shows "(intact pem) (snd (run_worker env m s))"
proof -
  have keep: "preserves (intact pem) (remove_stale_temporaries env)" "preserves (intact pem) (remove_marker env ENABLED)"
    "preserves (intact pem) (remove_marker env RESET_PENDING)" "preserves (intact pem) (create_marker env ENABLED)"
    "preserves (intact pem) (create_marker env RESET_PENDING)" "preserves (intact pem) (marker_exists env RESET_PENDING)"
    "preserves (intact pem) (attempt (on_world (current_identity (io env))))"
    by (rule intact_keeps; auto intro!: preserve_intros simp: marker_names)+
  have auth: "preserves (intact pem) (map_err f (on_auth (reset_enrollment env)))" for f
    by (auto simp: preserves_def intact_def map_err_def on_auth_def on_part_def split: prod.splits sum.splits)
  have gens: "preserves (intact pem) (remove_unreferenced_generations env)" "preserves (intact pem) (remove_current env)"
    "preserves (intact pem) (rotate_tls env)"
    using intact_run [OF J_remove_unreferenced [OF _ assms(4)]] remove_current_intact rotate_intact [OF _ assms(2-5)]
    by (auto intro!: preservesI)
  have "preserves (intact pem) (enable env)" "preserves (intact pem) (boot_reset env)"
    unfolding enable_def boot_reset_def using keep auth gens
    by (auto intro!: preserves_and_then preserves_if preserves_ok preserves_err split: sum.splits option.splits)
  then have "preserves (intact pem) (run_worker env m)"
    unfolding run_worker_def using keep gens by (cases m) (auto intro!: preserves_and_then)
  then show ?thesis using assms(1) by (simp add: preserves_def)
qed

section \<open>Properties\<close>

definition no_faults :: io_env where
  "no_faults = \<lparr>io_fault = \<lambda>_. False, io_partial = \<lambda>_. 0, link_fault = \<lambda>_. False\<rparr>"

definition booted :: "fs \<Rightarrow> world" where
  "booted d = \<lparr>disk = d, images = [], tick = 0\<rparr>"

lemma sound_crash: "sound pem img \<Longrightarrow> crash_image img d \<Longrightarrow> sound pem d"
proof -
  assume s: "sound pem img" and c: "crash_image img d"
  have at: "rel_option crash_node (map_of img p) (map_of d p)" for p using c by (simp add: crash_image_def)
  have files: "files_ok pem g d" if "files_ok pem g img" for g
    using that crash_image_synced [OF c] unfolding files_ok_def by blast
  have pre: "prefix_ok d"
    using s crash_image_Dir [OF c] crash_image_None [OF c] by (fastforce simp: sound_def prefix_ok_def list_all_iff)
  show ?thesis
  proof (cases "map_of img cur_path")
    case None
    then show ?thesis using pre crash_image_None [OF c] by (simp add: sound_def)
  next
    case (Some n)
    then obtain g where g: "n = Symlink g" "is_generation_name g" "complete pem g img"
      using s by (auto simp: sound_def split: node.splits)
    then have "map_of d cur_path = Some (Symlink g)"
      using Some at [of cur_path] by (auto simp: option_rel_Some1 crash_node_def)
    then show ?thesis using pre g files crash_image_Dir [OF c] by (simp add: sound_def complete_def)
  qed
qed

lemma missing_not_found:
  assumes "prefix_ok d"
  shows "missing_error d cur_path = NotFound"
proof -
  have len: "length tls_path = 4" by (simp add: path_defs(1))
  have "map_of d (take k cur_path) \<in> {None, Some Dir}" if "k \<in> set [1..<length cur_path]" for k
  proof -
    from that len have "k \<in> {1, 2, 3, 4}" by auto
    moreover from that len have "take k cur_path = take k tls_path" by simp
    ultimately have "take k cur_path \<in> set TOP" by (auto simp: TOP_def)
    then show ?thesis using assms by (simp only: prefix_ok_def list_all_iff)
  qed
  then have "\<not> list_ex (\<lambda>k. case map_of d (take k cur_path) of None \<Rightarrow> False | Some n \<Rightarrow> n \<noteq> Dir) [1..<length cur_path]"
    unfolding list_ex_iff by fastforce
  then show ?thesis by (simp only: missing_error_def if_False)
qed

lemma sound_identity:
  assumes "sound pem d"
  shows "fst (current_identity no_faults (booted d)) = Inr (current_link d)"
proof -
  have "wp (current_identity no_faults) (\<lambda>g _. g = current_link d) (\<lambda>_ _. False) (booted d)"
  proof (cases "map_of d cur_path")
    case None
    then show ?thesis
      using assms missing_not_found
      by (auto simp: current_identity_def current_generation_def wp_simps wp_fun Let_def no_faults_def booted_def stat_def
          current_link_def sound_def)
  next
    case (Some n)
    then obtain g f key cert where g: "n = Symlink g" "is_generation_name g" "map_of d (gen_path g) = Some Dir"
      "map_of d (gen_path g @ [KEY_FILE]) = Some (File key True)" "map_of d (gen_path g @ [CERT_FILE]) = Some (File cert True)"
      "is_canonical_fingerprint f" "map_of d (gen_path g @ [FINGERPRINT_FILE]) = Some (File (fingerprint_file_contents f) True)"
      using assms by (auto simp: sound_def complete_def files_ok_def split: node.splits)
    have "parse_fingerprint_file (fingerprint_file_contents f) = Some f"
      using g(6) by (simp add: parse_fingerprint_file_def fingerprint_file_contents_def strip_suffix_Some [THEN iffD2])
    then show ?thesis
      using g Some
      by (auto simp: current_identity_def current_generation_def current_fingerprint_def is_kind_def wp_simps wp_fun Let_def
          no_faults_def booted_def stat_def current_link_def)
  qed
  then show ?thesis by (auto simp: wp_def split: prod.splits sum.splits)
qed

lemma worker_leaves_sound:
  assumes "openssl_ok env" "random_ok env" "link_reads_ok (io env)" "openssl_pairs pem env"
    and "images (wd s) = []" "sound pem (disk (wd s))"
    and "run_worker env m s = (r, s')" "survives (wd s') d"
  shows "sound pem d"
proof -
  have "J pem (map_of (disk (wd s)) cur_path) (wd s)"
    using assms(5,6) by (auto simp: J_def all_images_def sound_def complete_def split: node.splits)
  then have "intact pem s" by (auto simp: intact_def)
  then have "intact pem s'" using run_worker_intact [OF _ assms(1-4), of s m] assms(7) by simp
  then have "all_images (sound pem) (wd s')" by (auto simp: intact_def J_def)
  then show ?thesis using survives_all_images assms(8) sound_crash by blast
qed


subsection \<open>A worker\<close>

definition demo_digest :: string where
  "demo_digest = fingerprint_text (replicate 32 0)"

definition demo_openssl :: "string list \<Rightarrow> nat \<Rightarrow> fs \<Rightarrow> fs \<times> string option" where
  "demo_openssl args t d =
     (case find (\<lambda>g. req_arguments (gen_path g) = args) (entries_of d tls_path) of
        Some g \<Rightarrow> (AList.update (gen_path g @ [KEY_FILE]) (File ''key'' False)
                    (AList.update (gen_path g @ [CERT_FILE]) (File ''cert'' False) d), Some [])
      | None \<Rightarrow> (d, if take 1 args = [''x509''] then Some (''sha256 Fingerprint='' @ demo_digest @ [CHR 0x0A]) else None))"

definition demo_pem :: "string \<Rightarrow> string \<Rightarrow> bool" where
  "demo_pem key cert \<longleftrightarrow> key = ''key'' \<and> cert = ''cert''"

definition demo_worker :: "(nat \<Rightarrow> bool) \<Rightarrow> unit worker_env" where
  "demo_worker links = \<lparr>io = no_faults\<lparr>link_fault := links\<rparr>, openssl_runs = demo_openssl, reset_enrollment = (\<lambda>a. (Inr (), a)),
     random8 = (\<lambda>t. Some (replicate 8 (word_of_nat t))), ownership = RemotedGroup 990, inject = (\<lambda>_ _. False)\<rparr>"

definition fresh_device :: "unit wstate" where
  "fresh_device = \<lparr>wd = booted [([''var''], Dir), ([''var'', ''lib''], Dir)], auth = ()\<rparr>"

lemma demo_openssl_ok: "openssl_ok (demo_worker links)"
proof -
  have inj: "req_arguments (gen_path h) = req_arguments (gen_path g) \<longleftrightarrow> h = g" for g h
    by (auto simp: req_arguments_def os_path_def)
  have ne: "req_arguments p \<noteq> fingerprint_arguments q" for p q
    by (simp add: req_arguments_def fingerprint_arguments_def)
  show ?thesis
    using inj ne by (auto simp: openssl_ok_def demo_worker_def demo_openssl_def find_Some_iff split: option.splits)
qed

lemma demo_pairs: "openssl_pairs demo_pem (demo_worker links)"
proof -
  have inj: "req_arguments (gen_path h) = req_arguments (gen_path g) \<longleftrightarrow> h = g" for g h
    by (auto simp: req_arguments_def os_path_def)
  have "take 1 (req_arguments q) \<noteq> [''x509'']" for q by (simp add: req_arguments_def)
  then show ?thesis
    using inj by (auto simp: openssl_pairs_def demo_worker_def demo_openssl_def demo_pem_def find_Some_iff name_defs split: option.splits)
qed

lemma demo_worker_ok: "random_ok (demo_worker links)" "link_reads_ok (io (demo_worker (\<lambda>_. False)))"
  by (simp_all add: random_ok_def link_reads_ok_def demo_worker_def no_faults_def)

lemma fresh_device_sound: "(sound pem) (disk (wd fresh_device))" "images (wd fresh_device) = []"
  by (simp_all add: fresh_device_def booted_def sound_def prefix_ok_def TOP_def path_defs(1) name_defs)

lemma survives_now: "survives w (disk w)"
proof -
  have "crash_node n n" for n by (cases n) (auto simp: crash_node_def)
  then show ?thesis by (auto simp: survives_def crash_image_def option.rel_refl)
qed



text \<open>C30: a link that cannot be read costs the identity.  If reading \<^verbatim>\<open>tls/current\<close> fails for a reason other than that
  it is missing, the worker takes no generation for referenced: when the clean-up then reports success, the
  generation that the link still names is gone, and the identity is invalid.\<close>

theorem unreadable_link_loses_identity:
  assumes "images (wd s) = []" "current_link (disk (wd s)) = Some g" "is_generation_name g"
    and "map_of (disk (wd s)) tls_path = Some Dir" "link_fault (io env) (tick (wd s))"
    and "remove_unreferenced_generations env s = (Inr (), s')"
  shows "current_link (disk (wd s')) = Some g \<and> map_of (disk (wd s')) (gen_path g) = None"
proof -
  have cur: "map_of (disk (wd s)) cur_path = Some (Symlink g)"
    using assms(2) by (auto simp: current_link_def split: option.splits node.splits)
  have keep: "preserves (\<lambda>s. world_holds p V (wd s)) (remove_unreferenced_generations env)" if "off_generations p" for p V
    using that by (intro preserve_intros)
  have "off_generations tls_path" by (auto simp: off_generations_def below_gen_path)
  have now: "world_holds p (\<lambda>v. v = map_of (disk (wd s)) p) (wd s)" for p
    using assms(1) by (simp add: world_holds_def all_images_def)
  have same: "map_of (disk (wd s')) p = map_of (disk (wd s)) p" if "off_generations p" for p
    using preservesD [OF keep [OF that] now] assms(6) by (auto simp: wp_def dest: world_holds_disk)
  have "wp (remove_unreferenced_generations env) (\<lambda>_ s. no_generations (disk (wd s))) (\<lambda>_ _. True) s"
    unfolding remove_unreferenced_generations_def using assms(5)
    by (auto simp: wp_simps wp_fun current_generation_def Let_def no_generations_def [of "disk (wd s)"] path_defs(1) [symmetric]
        dest: stat_Inl_None [rotated] split: sum.splits intro!: listed_all_gone)
      (use assms(4) in \<open>simp add: path_defs(1) stat_def\<close>)
  then have "no_generations (disk (wd s'))" using assms(6) by (simp add: wp_def)
  moreover have "map_of (disk (wd s')) tls_path = Some Dir"
    using same [OF \<open>off_generations tls_path\<close>] assms(4) by simp
  moreover have "map_of (disk (wd s')) cur_path = Some (Symlink g)" using same [OF off_generations(1)] cur by simp
  ultimately show ?thesis using assms(3) by (simp add: no_generations_def current_link_def)
qed

definition linked_device :: "unit wstate" where
  "linked_device = \<lparr>wd = booted [(cur_path, Symlink (generation_name (replicate 8 0))), (tls_path, Dir),
     (gen_path (generation_name (replicate 8 0)), Dir)], auth = ()\<rparr>"

theorem unreadable_link_loses_identity_witness:
  "fst (remove_unreferenced_generations (demo_worker (\<lambda>_. True)) linked_device) = Inr () \<and>
   map_of (disk (wd (snd (remove_unreferenced_generations (demo_worker (\<lambda>_. True)) linked_device))))
     (gen_path (generation_name (replicate 8 0))) = None"
proof -
  let ?s = "linked_device" and ?g = "generation_name (replicate 8 0)" and ?env = "demo_worker (\<lambda>_. True)"
  have g: "is_generation_name ?g" by (rule generation_name_ok) simp
  have s: "images (wd ?s) = []" "current_link (disk (wd ?s)) = Some ?g" "map_of (disk (wd ?s)) tls_path = Some Dir"
    "link_fault (io ?env) (tick (wd ?s))"
    by (simp_all add: linked_device_def booted_def current_link_def demo_worker_def)
  have "fst (remove_unreferenced_generations ?env ?s) = Inr ()" by code_simp
  then obtain s' where "remove_unreferenced_generations ?env ?s = (Inr (), s')"
    by (cases "remove_unreferenced_generations ?env ?s") simp
  from unreadable_link_loses_identity [OF s(1,2) g s(3,4) this] this show ?thesis by simp
qed

end
