(* ===== verification/Worker_Effects.thy ===== *)
theory Worker_Effects
  imports Worker_Identity
begin

text \<open>
  What each mode of the worker does to a marker of the state directory as the running system sees it, and what it
  leaves alone: a mode touches no marker but its own, and only the boot reset reaches sl-authd.  platformd's sequences
  rest on these facts.
\<close>

section \<open>What the worker leaves alone\<close>

definition present :: "path \<Rightarrow> bool \<Rightarrow> world \<Rightarrow> bool" where
  "present p v w \<longleftrightarrow> (map_of (disk w) p \<noteq> None) = v"

lemma present_tick [simp]: "present p v (w\<lparr>tick := t\<rparr>) = present p v w"
  by (simp add: present_def)

lemma present_keeps [preserve_intros]:
  assumes "p \<noteq> q"
  shows "preserves (present p v) (remove_file e q)" "preserves (present p v) (create_entry e q n)"
    "preserves (present p v) (write_all e q b)" "preserves (present p v) (sync_file e q)"
    "preserves (present p v) (unlink_any e q)"
  using assms by (auto intro!: preserves_change simp: present_def put_disk_def)

lemma present_keeps_rename [preserve_intros]: "p \<noteq> q \<Longrightarrow> p \<noteq> q' \<Longrightarrow> preserves (present p v) (rename e q q')"
  by (auto intro!: preserves_rename simp: present_def put_disk_def)

lemma present_keeps_sync_dir [preserve_intros]: "preserves (present p v) (sync_dir e q)"
  by (auto intro!: preserves_sync_dir simp: present_def)

lemma present_keeps_remove_dir_all [preserve_intros]: "\<not> below q p \<Longrightarrow> preserves (present p v) (remove_dir_all e q)"
  by (rule preserves_remove_dir_all, rule present_keeps) auto

lemma present_keeps_look [preserve_intros]:
  "preserves (present p v) (symlink_metadata e q)" "preserves (present p v) (set_attributes e q)"
  "preserves (present p v) (read_dir e q)" "preserves (present p v) (read_link e q)"
  "preserves (present p v) (read_file e q)" "preserves (present p v) (sys e (ok ()))" "preserves (present p v) (random_bytes8 env)"
  by (rule preserves_look; simp)+

abbreviation keeps :: "path \<Rightarrow> bool \<Rightarrow> ('a wstate, 'e, 'b) op \<Rightarrow> bool" where
  "keeps p v m \<equiv> preserves (\<lambda>s. present p v (wd s)) m"

lemma keeps_apply_group [preserve_intros]: "keeps p v (apply_group env q)"
  unfolding apply_group_def by (cases "ownership env") (auto intro!: preserve_intros)

lemma keeps_ensure_directory [preserve_intros]: "p \<noteq> q \<Longrightarrow> keeps p v (ensure_directory env q grouped)"
  unfolding ensure_directory_def by (auto intro!: preserve_intros)

lemma keeps_marker_exists [preserve_intros]: "keeps p v (Worker.marker_exists env name)"
  unfolding Worker.marker_exists_def by (auto intro!: preserve_intros)

lemma keeps_create_marker [preserve_intros]:
  "p \<noteq> STATE_DIR \<Longrightarrow> p \<noteq> marker_tmp name \<Longrightarrow> p \<noteq> marker_path name \<Longrightarrow> keeps p v (create_marker env name)"
  unfolding create_marker_def write_marker_def by (auto intro!: preserve_intros)

lemma keeps_remove_marker [preserve_intros]: "p \<noteq> marker_path name \<Longrightarrow> keeps p v (remove_marker env name)"
  unfolding remove_marker_def by (auto intro!: preserve_intros)

lemma keeps_remove_stale [preserve_intros]: "p \<notin> set ps \<Longrightarrow> keeps p v (remove_stale env ps)"
  by (induction ps) (auto intro!: preserve_intros)

lemma keeps_current_generation [preserve_intros]: "preserves (present p v) (current_generation e)"
  unfolding current_generation_def by (auto intro!: preserve_intros)

lemma keeps_remove_entry: "\<not> below q p \<Longrightarrow> keeps p v (remove_entry env q)"
proof -
  assume "\<not> below q p"
  then have "p \<noteq> q" by (auto simp: below_def)
  then show ?thesis unfolding remove_entry_def using \<open>\<not> below q p\<close> by (auto intro!: preserve_intros)
qed

lemma keeps_remove_listed [preserve_intros]: "off_generations p \<Longrightarrow> keeps p v (remove_listed env r names b)"
  by (induction names arbitrary: b) (auto intro!: preserve_intros keeps_remove_entry simp: off_generations_def)

lemma keeps_remove_unreferenced [preserve_intros]: "off_generations p \<Longrightarrow> keeps p v (remove_unreferenced_generations env)"
  unfolding remove_unreferenced_generations_def by (auto intro!: preserve_intros)

lemma keeps_openssl [preserve_intros]:
  assumes "openssl_ok env" "\<not> below (gen_path g) p"
  shows "preserves (present p v) (openssl env (req_arguments (gen_path g)))"
    "preserves (present p v) (openssl env (fingerprint_arguments (gen_path g)))"
proof -
  have "p \<noteq> gen_path g @ [x]" for x using assms(2) by (auto simp: below_def)
  then show "preserves (present p v) (openssl env (req_arguments (gen_path g)))"
    "preserves (present p v) (openssl env (fingerprint_arguments (gen_path g)))"
    using assms(1) by (simp_all add: preserves_def openssl_def openssl_ok_def present_def put_disk_def case_prod_unfold)
qed

lemma keeps_finish_files [preserve_intros]: "\<not> below q p \<Longrightarrow> keeps p v (finish_files env q names)"
proof (induction names)
  case (Cons n names)
  then have "p \<noteq> q @ [n]" by (auto simp: below_def)
  with Cons show ?case by (auto intro!: preserve_intros split: sum.splits node.splits)
qed (auto intro!: preserve_intros)

lemma keeps_write_fingerprint [preserve_intros]: "\<not> below q p \<Longrightarrow> preserves (present p v) (write_fingerprint env q f)"
proof -
  assume "\<not> below q p"
  then have "p \<noteq> q @ [FINGERPRINT_FILE]" by (auto simp: below_def)
  then show ?thesis unfolding write_fingerprint_def Let_def by (auto intro!: preserve_intros)
qed

lemma keeps_fill_generation [preserve_intros]:
  assumes "openssl_ok env" "\<not> below (gen_path g) p"
  shows "keeps p v (fill_generation env (gen_path g))"
  unfolding fill_generation_def by (intro preserve_intros assms)

lemma keeps_new_generation:
  assumes "openssl_ok env" "is_generation_name g" "off_generations p"
  shows "keeps p v (and_then (io_failure (create_entry (worker_env.io env) (gen_path g) Dir) msg) (\<lambda>_.
       and_then (attempt (fill_generation env (gen_path g))) (\<lambda>written.
         case written of
           Inr _ \<Rightarrow> ok g
         | Inl e \<Rightarrow> and_then (attempt (on_world (remove_dir_all (worker_env.io env) (gen_path g)))) (\<lambda>_. err e))))"
proof -
  have nb: "\<not> below (gen_path g) p" using assms(2,3) by (simp add: off_generations_def)
  then have "p \<noteq> gen_path g" by (auto simp: below_def)
  then show ?thesis using assms(1) nb by (intro preserve_intros) auto
qed

text \<open>A step whose result is known to satisfy \<open>P\<close>.\<close>

lemma preserves_result:
  "preserves I m \<Longrightarrow> (\<And>s x s'. m s = (Inr x, s') \<Longrightarrow> P x) \<Longrightarrow> (\<And>x. P x \<Longrightarrow> preserves I (f x)) \<Longrightarrow> preserves I (and_then m f)"
  by (fastforce simp: preserves_def and_then_def split: prod.splits sum.splits)

lemma keeps_generate_identity [preserve_intros]:
  assumes "openssl_ok env" "random_ok env" "off_generations p" "p \<noteq> STATE_DIR" "p \<noteq> tls_path"
  shows "keeps p v (generate_identity env)"
proof -
  have rnd: "is_generation_name (generation_name bs)"
    if "map_err (\<lambda>_. Failed ''randomness is unavailable'') (on_world (random_bytes8 env)) t = (Inr bs, t')"
    for bs and t t' :: "'a wstate"
    using that assms(2) generation_name_ok
    by (auto simp: random_bytes8_def on_world_def on_part_def map_err_def random_ok_def ok_or_def split: option.splits prod.splits sum.splits)
  show ?thesis
    unfolding generate_identity_def Let_def
    by (rule preserves_and_then preserves_result [OF _ rnd keeps_new_generation, rotated] | assumption | rule assms preserve_intros)+
qed

lemma keeps_swap_current [preserve_intros]: "p \<noteq> current_tmp \<Longrightarrow> p \<noteq> cur_path \<Longrightarrow> keeps p v (swap_current env g)"
  unfolding swap_current_def by (intro preserve_intros) auto

lemma keeps_rotate_tls [preserve_intros]:
  assumes "openssl_ok env" "random_ok env" "off_generations p" "p \<notin> {STATE_DIR, tls_path, current_tmp, cur_path}"
  shows "keeps p v (rotate_tls env)"
  unfolding rotate_tls_def by (intro preserve_intros) (use assms in auto)

lemma marker_off: "marker_path name \<notin> {STATE_DIR, tls_path, current_tmp, cur_path}" if "name \<noteq> TLS_DIR"
  using that by (simp add: path_defs STATE_DIR_def TLS_DIR_def name_defs)

lemma current_identity_keeps [preserve_intros]: "preserves (present p v) (current_identity e)"
  unfolding current_identity_def is_kind_def current_fingerprint_def by (auto intro!: preserve_intros)

text \<open>sl-authd is not touched by the modes that platformd starts.\<close>

lemma auth_untouched [preserve_intros]:
  fixes env :: "'a worker_env"
  shows "preserves (\<lambda>s. wstate.auth s = a) (apply_group env p)" "preserves (\<lambda>s. wstate.auth s = a) (finish_files env d names)"
    "preserves (\<lambda>s. wstate.auth s = a) (fill_generation env d)" "preserves (\<lambda>s. wstate.auth s = a) (generate_identity env)"
    "preserves (\<lambda>s. wstate.auth s = a) (swap_current env g)"
proof -
  show 1: "preserves (\<lambda>s. wstate.auth s = a) (apply_group env p)" for p
    unfolding apply_group_def by (cases "ownership env") (auto intro!: preserve_intros)
  show 2: "preserves (\<lambda>s. wstate.auth s = a) (finish_files env d names)" for d names
    by (induction names) (auto intro!: preserve_intros 1 split: sum.splits node.splits)
  show 3: "preserves (\<lambda>s. wstate.auth s = a) (fill_generation env d)" for d
    unfolding fill_generation_def by (intro preserve_intros 1 2)
  show "preserves (\<lambda>s. wstate.auth s = a) (generate_identity env)" "preserves (\<lambda>s. wstate.auth s = a) (swap_current env g)"
    unfolding generate_identity_def swap_current_def Let_def by (intro preserve_intros 3)+
qed

lemma run_worker_auth:
  assumes "m \<noteq> BootReset"
  shows "preserves (\<lambda>s. wstate.auth s = a) (Worker.run_worker env m)"
  using assms unfolding Worker.run_worker_def remove_stale_temporaries_def Worker.enable_def rotate_tls_def
  by (cases m) (auto intro!: preserve_intros)

section \<open>What the modes achieve\<close>

lemma marker_exists_present:
  "wp (Worker.marker_exists env name) (\<lambda>b t. present (marker_path name) b (wd t)) (\<lambda>_ _. True) s"
  by (auto simp: Worker.marker_exists_def wp_simps Let_def present_def stat_Inr dest: stat_Inl_None [rotated] split: sum.splits)

lemma write_marker_present: "wp (write_marker env name) (\<lambda>_. present (marker_path name) True) (\<lambda>_ _. True) w"
  unfolding write_marker_def
proof (rule wp_bind [OF wp_True], rule wp_bind [OF wp_True], rule wp_bind [OF wp_True], rule wp_bind)
  show "wp (rename (worker_env.io env) (marker_tmp name) (marker_path name)) (\<lambda>_. present (marker_path name) True) (\<lambda>_ _. True) w'" for w'
    by (auto simp: wp_simps Let_def present_def split: sum.splits)
  show "wp (sync_dir (worker_env.io env) STATE_DIR) (\<lambda>_. present (marker_path name) True) (\<lambda>_ _. True) w'"
    if "present (marker_path name) True w'" for w'
    by (rule wp_mono [OF preservesD [where I = "present (marker_path name) True", OF present_keeps_sync_dir that]]) auto
qed auto

lemma create_marker_present:
  "wp (create_marker env name) (\<lambda>_ t. present (marker_path name) True (wd t)) (\<lambda>_ _. True) s"
  unfolding create_marker_def
proof (rule wp_bind [OF wp_True], rule wp_bind [OF marker_exists_present])
  fix b and t :: "'a wstate" assume t: "present (marker_path name) b (wd t)"
  have w: "wp (attempt (on_world (write_marker env name)))
      (\<lambda>r u. is_ok r \<longrightarrow> present (marker_path name) True (wd u)) (\<lambda>_ _. True) t" for t :: "'a wstate"
    unfolding wp_attempt wp_on_world by (rule wp_weaken [OF write_marker_present]) simp_all
  have "wp (and_then (fault env (CreateMarker name)) (\<lambda>_. and_then (attempt (on_world (write_marker env name))) (\<lambda>written.
        if is_ok written then ok ()
        else and_then (attempt (on_world (remove_file (worker_env.io env) (marker_tmp name)))) (\<lambda>_.
          err (Failed ''a remote-management marker could not be written'')))))
      (\<lambda>_ t. present (marker_path name) True (wd t)) (\<lambda>_ _. True) t" for t :: "'a wstate"
    by (rule wp_bind [OF wp_True], rule wp_bind [OF w]) (auto simp: wp_simps wp_fun Let_def split: sum.splits)
  then show "wp (if b then ok () else and_then (fault env (CreateMarker name)) (\<lambda>_.
      and_then (attempt (on_world (write_marker env name))) (\<lambda>written.
        if is_ok written then ok ()
        else and_then (attempt (on_world (remove_file (worker_env.io env) (marker_tmp name)))) (\<lambda>_.
          err (Failed ''a remote-management marker could not be written'')))))
      (\<lambda>_ t. present (marker_path name) True (wd t)) (\<lambda>_ _. True) t"
    using t by (cases b) (simp_all add: wp_ok)
qed auto

lemma remove_marker_absent:
  "wp (remove_marker env name) (\<lambda>_ t. present (marker_path name) False (wd t)) (\<lambda>_ _. True) s"
  unfolding remove_marker_def
proof (rule wp_bind [OF marker_exists_present])
  fix b and t :: "'a wstate" assume t: "present (marker_path name) b (wd t)"
  have "wp (remove_file e (marker_path name)) (\<lambda>_. present (marker_path name) False) (\<lambda>_ _. True) w" for e w
    by (auto simp: wp_simps Let_def present_def split: sum.splits node.splits)
  then have "wp (and_then (remove_file e (marker_path name)) (\<lambda>_. sync_dir e STATE_DIR)) (\<lambda>_. present (marker_path name) False) (\<lambda>_ _. True) w" for e w
    by (rule wp_bind) (auto intro!: wp_mono [OF preservesD [where I = "present (marker_path name) False", OF present_keeps_sync_dir]])
  then show "wp (if \<not> b then ok () else and_then (fault env (RemoveMarker name)) (\<lambda>_.
         io_failure (and_then (remove_file (worker_env.io env) (marker_path name)) (\<lambda>_. sync_dir (worker_env.io env) STATE_DIR))
           ''a remote-management marker could not be removed''))
      (\<lambda>_ t. present (marker_path name) False (wd t)) (\<lambda>_ _. True) t"
    using t by (auto simp: wp_ok wp_and_then wp_fault wp_io_failure)
qed auto

abbreviation marked_on :: "string \<Rightarrow> bool \<Rightarrow> 'a wstate \<Rightarrow> bool" where
  "marked_on name v s \<equiv> present (marker_path name) v (wd s)"

lemma marker_names_distinct [simp]: "ENABLED \<noteq> RESET_PENDING" "RESET_PENDING \<noteq> ENABLED"
  "marker_path n \<noteq> STATE_DIR" "marker_path ENABLED \<noteq> marker_tmp RESET_PENDING" "marker_path RESET_PENDING \<noteq> marker_tmp ENABLED"
  "marker_path ENABLED \<noteq> marker_tmp ENABLED" "marker_path RESET_PENDING \<noteq> marker_tmp RESET_PENDING"
  by (simp_all add: marker_tmp_def name_defs)

lemma marker_paths_off: "n \<in> {ENABLED, RESET_PENDING} \<Longrightarrow> marker_path n \<notin> {STATE_DIR, tls_path, current_tmp, cur_path}"
  using marker_off [of n] marker_names(1,2) by (elim insertE) (simp_all only: empty_iff not_False_eq_True)

lemma keeps_stale: "n \<in> {ENABLED, RESET_PENDING} \<Longrightarrow> keeps (marker_path n) v (remove_stale_temporaries env)"
  unfolding remove_stale_temporaries_def using marker_paths_off [of n] by (intro preserve_intros) (auto simp: marker_tmp_def name_defs)

lemma run_rotate_keeps:
  assumes "openssl_ok env" "random_ok env" "n \<in> {ENABLED, RESET_PENDING}"
  shows "keeps (marker_path n) v (Worker.run_worker env RotateTls)"
  unfolding Worker.run_worker_def mode.case
  by (intro preserves_and_then keeps_stale keeps_rotate_tls assms off_generations marker_paths_off)

lemma run_disable: "wp (Worker.run_worker env Disable) (\<lambda>_. marked_on ENABLED False) (\<lambda>_ _. True) s"
  unfolding Worker.run_worker_def mode.case by (rule wp_bind [OF wp_True remove_marker_absent]) auto

lemma run_clear:
  "wp (Worker.run_worker env ClearResetPending) (\<lambda>_. marked_on RESET_PENDING False) (\<lambda>_ _. True) s"
  "keeps (marker_path ENABLED) v (Worker.run_worker env ClearResetPending)"
  unfolding Worker.run_worker_def mode.case
  by (rule wp_bind [OF wp_True remove_marker_absent]; simp)
    (intro preserves_and_then keeps_stale keeps_remove_marker; simp)

lemma run_enable:
  assumes "openssl_ok env" "random_ok env"
  shows "wp (Worker.run_worker env Enable) (\<lambda>_ t. marked_on ENABLED True t \<and> marked_on RESET_PENDING False t) (\<lambda>_ _. True) s"
  unfolding Worker.run_worker_def mode.case Worker.enable_def
proof (rule wp_bind [OF wp_True], rule wp_bind [OF marker_exists_present])
  fix b and t :: "'a wstate" assume t: "marked_on RESET_PENDING b t"
  let ?I = "\<lambda>t :: 'a wstate. marked_on RESET_PENDING False t"
  have id: "preserves ?I (attempt (on_world (current_identity (worker_env.io env))))"
    by (intro preserve_intros)
  have rot: "preserves ?I (case i of Inr (Some _) \<Rightarrow> ok () | Inr None \<Rightarrow> rotate_tls env
      | Inl _ \<Rightarrow> err (Failed ''the existing TLS identity is invalid''))" for i :: "invalid_identity + string option"
    by (intro preserve_intros keeps_rotate_tls assms off_generations marker_paths_off) simp
  have cm: "wp (create_marker env ENABLED) (\<lambda>_ t. marked_on ENABLED True t \<and> ?I t) (\<lambda>_ _. True) t" if "?I t" for t
    by (rule wp_keep [where I = ?I, OF _ that create_marker_present]) (auto intro!: keeps_create_marker)
  have "wp (and_then (attempt (on_world (current_identity (worker_env.io env)))) (\<lambda>identity.
         and_then (case identity of Inr (Some _) \<Rightarrow> ok () | Inr None \<Rightarrow> rotate_tls env
            | Inl _ \<Rightarrow> err (Failed ''the existing TLS identity is invalid'')) (\<lambda>_. create_marker env ENABLED)))
      (\<lambda>_ t. marked_on ENABLED True t \<and> ?I t) (\<lambda>_ _. True) t" if "?I t"
    by (rule wp_bind [OF preservesD [where I = ?I, OF id that]], rule wp_bind [OF preservesD [where I = ?I, OF rot]])
      (auto intro: cm)
  then show "wp (if b then err (Failed ''a remote-management reset is pending'')
       else and_then (attempt (on_world (current_identity (worker_env.io env)))) (\<lambda>identity.
         and_then (case identity of Inr (Some _) \<Rightarrow> ok () | Inr None \<Rightarrow> rotate_tls env
            | Inl _ \<Rightarrow> err (Failed ''the existing TLS identity is invalid'')) (\<lambda>_. create_marker env ENABLED)))
      (\<lambda>_ t. marked_on ENABLED True t \<and> ?I t) (\<lambda>_ _. True) t"
    using t by (cases b) (simp_all add: wp_err)
qed auto

end
