(* ===== verification/Bus.thy ===== *)
theory Bus
  imports Protocol
begin

text \<open>
  Calls over the system bus that take time.  A call is a function on the state of everything outside the daemon: it
  has a result, takes a number of milliseconds and leaves a new state.  \<^verbatim>\<open>tokio::time::timeout\<close> ends a block of calls at
  its deadline: the call that is under way then may have had its effect or not, its result is lost, and the block is
  left at the deadline.  Polling loops sleep between two calls, so they end by the deadline at the latest; the
  termination proofs rest on that.
\<close>

section \<open>Timed blocks\<close>

record 's timed =
  clock :: nat  \<comment> \<open>milliseconds\<close>
  outside :: 's

type_synonym ('s, 'a) call = "'s \<Rightarrow> (zbus_error + 'a) \<times> nat \<times> 's"

datatype 'e stopped = Elapsed | BusError zbus_error | Returned 'e

type_synonym ('s, 'e, 'a) block = "nat \<Rightarrow> ('s timed, 'e stopped, 'a) op"

definition await :: "('s, 'a) call \<Rightarrow> ('s, 'e, 'a) block" where
  "await c deadline w =
     (case c (outside w) of (r, t, s) \<Rightarrow>
        if deadline < clock w + t then (Inl Elapsed, w\<lparr>clock := max deadline (clock w), outside := s\<rparr>)
        else (case r of Inl e \<Rightarrow> Inl (BusError e) | Inr x \<Rightarrow> Inr x, w\<lparr>clock := clock w + t, outside := s\<rparr>))"

definition pause :: "nat \<Rightarrow> ('s, 'e, unit) block" where
  "pause t deadline w =
     (if deadline < clock w + t then (Inl Elapsed, w\<lparr>clock := max deadline (clock w)\<rparr>)
      else (Inr (), w\<lparr>clock := clock w + t\<rparr>))"

definition timeout :: "nat \<Rightarrow> ('s, 'e, 'a) block \<Rightarrow> ('s timed, 'e stopped, 'a) op" where
  "timeout limit b w = b (clock w + limit) w"

text \<open>A call at no deadline of the caller's own.\<close>

definition untimed :: "('s, 'a) call \<Rightarrow> ('s timed, zbus_error, 'a) op" where
  "untimed c w = (case c (outside w) of (r, t, s) \<Rightarrow> (r, w\<lparr>clock := clock w + t, outside := s\<rparr>))"

text \<open>A method of platformd as its callers see it: an error becomes an error reply, and the time it takes is the
  time of the call.\<close>

definition served :: "('s timed, platform_error, 'a) op \<Rightarrow> ('s, 'a) call" where
  "served m s = (case m \<lparr>clock = 0, outside = s\<rparr> of (r, w) \<Rightarrow> (map_sum platform_reply (\<lambda>x. x) r, clock w, outside w))"

text \<open>A call over the bus is delivered to its service or not, its answer comes back or not, and it takes time.  \<open>before\<close>
  is what happens of itself before the service sees the call.\<close>

record weather =
  delivered :: bool
  answered :: bool
  took :: nat

definition lossy :: "('s \<Rightarrow> ('z) weather_scheme) \<Rightarrow> ('s \<Rightarrow> 's) \<Rightarrow> ('s \<Rightarrow> (zbus_error + 'a) \<times> 's) \<Rightarrow> ('s, 'a) call" where
  "lossy weather before act s =
     (let h = weather s; s' = before s
      in if \<not> delivered h then (Inl (Failure ''no reply''), took h, s')
         else (case act s' of (r, s2) \<Rightarrow> (if answered h then r else Inl (Failure ''no reply''), took h, s2)))"

text \<open>\<open>I\<close> holds before the call, \<open>B\<close> when the service sees it.\<close>

lemma wp_lossy:
  assumes "I (outside w)" "\<And>s. I s \<Longrightarrow> B (before s)" "\<And>s r s'. B s \<Longrightarrow> act s = (r, s') \<Longrightarrow> E s' \<and> (\<forall>x. r = Inr x \<longrightarrow> Q x s')"
    and "\<And>s. B s \<Longrightarrow> E s"
  shows "wp (await (lossy weather before act) d) (\<lambda>x w'. Q x (outside w')) (\<lambda>_ w'. E (outside w')) w"
proof -
  obtain r s' where a: "act (before (outside w)) = (r, s')" by fastforce
  have B: "B (before (outside w))" by (rule assms(2) [OF assms(1)])
  show ?thesis
    using assms(3) [OF B a] assms(4) [OF B] a
    by (auto simp: wp_def await_def lossy_def Let_def split: sum.splits)
qed

lemma wp_lossy_read:
  assumes "I (outside w)" "\<And>s. I s \<Longrightarrow> I (before s)" "\<And>s. I s \<Longrightarrow> E s"
  shows "wp (await (lossy weather before (\<lambda>s. (Inr (f s), s))) d) (\<lambda>x w'. I (outside w') \<and> x = f (outside w')) (\<lambda>_ w'. E (outside w')) w"
  by (rule wp_lossy [where I = I and B = I]) (use assms in auto)

section \<open>The service manager\<close>

text \<open>systemd's manager and unit interfaces, as far as platformd uses them.  \<open>list_jobs\<close> gives the object paths
  of the jobs.\<close>

record 's systemd =
  load_unit :: "string \<Rightarrow> ('s, string) call"
  unit_property :: "string \<Rightarrow> string \<Rightarrow> string \<Rightarrow> ('s, string) call"
  main_status :: "string \<Rightarrow> ('s, 32 word) call"
  invocation_id :: "string \<Rightarrow> ('s, u8 list) call"
  start_unit :: "string \<Rightarrow> string \<Rightarrow> ('s, string) call"
  stop_unit :: "string \<Rightarrow> string \<Rightarrow> ('s, string) call"
  list_jobs :: "('s, string list) call"
  manager_state :: "('s, string) call"
  failed_count :: "('s, u32) call"

definition SYSTEMD_UNIT :: string where "SYSTEMD_UNIT = ''org.freedesktop.systemd1.Unit''"
definition SYSTEMD_SERVICE :: string where "SYSTEMD_SERVICE = ''org.freedesktop.systemd1.Service''"

section \<open>Time bounds\<close>

text \<open>\<open>lasts n m\<close>: the operation takes at most \<open>n\<close> milliseconds and the clock does not go back.\<close>

definition lasts :: "nat \<Rightarrow> ('s timed, 'e, 'a) op \<Rightarrow> bool" where
  "lasts n m \<longleftrightarrow> (\<forall>w. clock w \<le> clock (snd (m w)) \<and> clock (snd (m w)) \<le> clock w + n)"

definition bounded :: "('s, 'e, 'a) block \<Rightarrow> bool" where
  "bounded b \<longleftrightarrow> (\<forall>d w. clock w \<le> d \<longrightarrow> clock w \<le> clock (snd (b d w)) \<and> clock (snd (b d w)) \<le> d)"

named_theorems time_intros \<open>time bounds of the operations\<close>

lemma await_clock: "clock w \<le> clock (snd (await c d w))"
  by (auto simp: await_def split: prod.splits)

lemma await_Inr: "await c d w = (Inr x, w') \<Longrightarrow> clock w \<le> clock w' \<and> clock w' \<le> d"
  by (auto simp: await_def split: prod.splits if_splits)

lemma pause_Inr: "pause t d w = (Inr x, w') \<Longrightarrow> clock w' = clock w + t \<and> clock w' \<le> d"
  by (auto simp: pause_def split: if_splits)

text \<open>A round of a polling loop comes closer to the deadline.\<close>

lemma poll_progress:
  "(Inr x, y) = await c d w \<Longrightarrow> (Inr u, z) = pause t d y \<Longrightarrow> 0 < t \<Longrightarrow> d - clock z < d - clock w"
  by (drule await_Inr [OF sym], drule pause_Inr [OF sym]) linarith

lemma bounded_await [time_intros]: "bounded (await c)"
  by (auto simp: bounded_def await_def split: prod.splits)

lemma bounded_ok [time_intros]: "bounded (\<lambda>_. ok x)"
  by (simp add: bounded_def ok_def)

lemma bounded_err [time_intros]: "bounded (\<lambda>_. err x)"
  by (simp add: bounded_def err_def)

lemma snd_and_then: "snd (and_then a f w) = (case fst (a w) of Inl _ \<Rightarrow> snd (a w) | Inr x \<Rightarrow> snd (f x (snd (a w))))"
  by (simp add: and_then_def split: prod.splits sum.splits)

lemma snd_map_err [simp]: "snd (map_err f m w) = snd (m w)"
  by (simp add: map_err_def split: prod.splits sum.splits)

lemma bounded_and_then [time_intros]:
  assumes b: "bounded b" and f: "\<And>x. bounded (f x)"
  shows "bounded (\<lambda>d. and_then (b d) (\<lambda>x. f x d))"
  unfolding bounded_def
proof (intro allI impI)
  fix d and w :: "'a timed" assume w: "clock w \<le> d"
  have b': "clock w \<le> clock (snd (b d w))" "clock (snd (b d w)) \<le> d" using b w by (auto simp: bounded_def)
  moreover have "clock (snd (b d w)) \<le> clock (snd (f x d (snd (b d w))))" "clock (snd (f x d (snd (b d w)))) \<le> d" for x
    using f [of x] b'(2) by (auto simp: bounded_def)
  ultimately show "clock w \<le> clock (snd (and_then (b d) (\<lambda>x. f x d) w)) \<and> clock (snd (and_then (b d) (\<lambda>x. f x d) w)) \<le> d"
    unfolding snd_and_then by (auto split: sum.split intro: order_trans)
qed

lemma bounded_if [time_intros]: "bounded a \<Longrightarrow> bounded b \<Longrightarrow> bounded (\<lambda>d. if c then a d else b d)"
  by (simp add: bounded_def)

lemma lasts_timeout [time_intros]: "bounded b \<Longrightarrow> lasts n (timeout n b)"
  by (simp add: lasts_def timeout_def bounded_def)

lemma lasts_and_then:
  assumes a: "lasts m a" and f: "\<And>x. lasts n (f x)"
  shows "lasts (m + n) (and_then a f)"
  unfolding lasts_def snd_and_then
proof
  fix w
  have 1: "clock w \<le> clock (snd (a w))" "clock (snd (a w)) \<le> clock w + m" using a by (simp_all add: lasts_def)
  show "clock w \<le> clock (case fst (a w) of Inl _ \<Rightarrow> snd (a w) | Inr x \<Rightarrow> snd (f x (snd (a w)))) \<and>
      clock (case fst (a w) of Inl _ \<Rightarrow> snd (a w) | Inr x \<Rightarrow> snd (f x (snd (a w)))) \<le> clock w + (m + n)"
  proof (cases "fst (a w)")
    case (Inr x)
    have "clock (snd (a w)) \<le> clock (snd (f x (snd (a w))))" "clock (snd (f x (snd (a w)))) \<le> clock (snd (a w)) + n"
      using f [of x] by (simp_all add: lasts_def)
    with 1 Inr show ?thesis by simp
  qed (use 1 in simp)
qed

lemma lasts_map_err [time_intros]: "lasts n m \<Longrightarrow> lasts n (map_err f m)"
  by (simp add: lasts_def)

lemma lasts_mono: "lasts m a \<Longrightarrow> m \<le> n \<Longrightarrow> lasts n a"
  unfolding lasts_def by (meson add_left_mono order_trans)

end
