(* ===== verification/Platform_Remote.thy ===== *)
theory Platform_Remote
  imports Bus Platform_Status Remote_State
begin

text \<open>
  The remote-management life cycle of sl-platformd (\<^verbatim>\<open>src/platformd/src/remote.rs\<close>).  The trait \<^verbatim>\<open>Backend\<close> is the record
  \<open>backend\<close> of operations on a state of its own; the four sequences are written over it as the source has them.
  \<open>system_backend\<close> is \<^verbatim>\<open>SystemBackend\<close>: systemd, sl-authd and the observer over the bus, with their time limits, and the
  state directory.
\<close>

section \<open>Names and errors\<close>

definition ENABLE_UNIT :: string where "ENABLE_UNIT = ''sl-rm-enable.service''"
definition DISABLE_UNIT :: string where "DISABLE_UNIT = ''sl-rm-disable.service''"
definition ROTATE_UNIT :: string where "ROTATE_UNIT = ''sl-rm-rotate.service''"
definition CLEAR_RESET_UNIT :: string where "CLEAR_RESET_UNIT = ''sl-rm-clear-reset.service''"
definition REMOTED_UNIT :: string where "REMOTED_UNIT = ''sl-remoted.service''"
definition PORT :: u16 where "PORT = 8443"
definition WORKER_TIMEOUT :: nat where "WORKER_TIMEOUT = 30000"
definition REMOTED_TIMEOUT :: nat where "REMOTED_TIMEOUT = 10000"
definition AUTH_TIMEOUT :: nat where "AUTH_TIMEOUT = 10000"
definition NETWORK_TIMEOUT :: nat where "NETWORK_TIMEOUT = 3000"
definition POLL_INTERVAL :: nat where "POLL_INTERVAL = 10"
definition PAIRING_ALPHABET :: string where "PAIRING_ALPHABET = ''0123456789ABCDEFGHJKMNPQRSTVWXYZ''"

datatype marker_kind = Enabled | ResetPending

datatype worker_failure = WorkerBusy | WorkerFailed

datatype auth_call = EnsurePendingPairing | CancelPendingPairing | ResetEnrollment

fun member :: "auth_call \<Rightarrow> string" where
  "member EnsurePendingPairing = ''EnsurePendingPairing''"
| "member CancelPendingPairing = ''CancelPendingPairing''"
| "member ResetEnrollment = ''ResetEnrollment''"

record 'w backend =
  marker_exists :: "marker_kind \<Rightarrow> ('w, unit, bool) op"
  run_worker :: "string \<Rightarrow> ('w, worker_failure, unit) op"
  start_remoted :: "('w, unit, unit) op"
  stop_remoted :: "('w, unit, unit) op"
  backend_auth :: "auth_call \<Rightarrow> ('w, unit, unit) op"
  pending_pairing :: "('w, unit, bool \<times> string \<times> u64) op"
  backend_network :: "('w, unit, network_status) op"
  fingerprint :: "('w, unit, string option) op"

definition busy :: platform_error where
  "busy = Busy ''A remote-management operation is already in progress''"
definition unavailable :: platform_error where
  "unavailable = RemoteManagementUnavailable ''Remote management could not be controlled''"
definition auth_unavailable :: platform_error where
  "auth_unavailable = AuthUnavailable ''The authentication service is unavailable''"
definition reset_incomplete :: platform_error where
  "reset_incomplete = ResetIncomplete ''A previous remote-management reset did not complete; re-enroll to repair it''"

definition worker_error :: "worker_failure \<Rightarrow> platform_error" where
  "worker_error e =
     (case e of
        WorkerBusy \<Rightarrow> Busy ''A remote-management worker is already running''
      | WorkerFailed \<Rightarrow> unavailable)"

definition marker :: "'w backend \<Rightarrow> marker_kind \<Rightarrow> ('w, platform_error, bool) op" where
  "marker b m = map_err (\<lambda>_. unavailable) (marker_exists b m)"

definition auth :: "'w backend \<Rightarrow> auth_call \<Rightarrow> ('w, platform_error, unit) op" where
  "auth b c = map_err (\<lambda>_. auth_unavailable) (backend_auth b c)"

section \<open>The sequences\<close>

text \<open>\<open>permit\<close> says that the single permit of the interface is free when the method is called; the method then
  holds it until it returns.\<close>

definition enable :: "bool \<Rightarrow> 'w backend \<Rightarrow> ('w, platform_error, unit) op" where
  "enable permit b =
     (if \<not> permit then err busy
      else
        and_then (marker b ResetPending) (\<lambda>pending.
        if pending then err reset_incomplete
        else
          and_then (map_err worker_error (run_worker b ENABLE_UNIT)) (\<lambda>_.
          and_then (auth b EnsurePendingPairing) (\<lambda>_.
          map_err (\<lambda>_. unavailable) (start_remoted b)))))"

definition disable :: "bool \<Rightarrow> 'w backend \<Rightarrow> ('w, platform_error, unit) op" where
  "disable permit b =
     (if \<not> permit then err busy
      else
        and_then (map_err worker_error (run_worker b DISABLE_UNIT)) (\<lambda>_.
        and_then (map_err (\<lambda>_. unavailable) (stop_remoted b)) (\<lambda>_.
        auth b CancelPendingPairing)))"

definition reenroll :: "bool \<Rightarrow> 'w backend \<Rightarrow> ('w, platform_error, unit) op" where
  "reenroll permit b =
     (if \<not> permit then err busy
      else
        and_then (map_err (\<lambda>_. unavailable) (stop_remoted b)) (\<lambda>_.
        and_then (auth b ResetEnrollment) (\<lambda>_.
        and_then (map_err worker_error (run_worker b ROTATE_UNIT)) (\<lambda>_.
        and_then (marker b Enabled) (\<lambda>on.
        and_then (if on then auth b EnsurePendingPairing else ok ()) (\<lambda>_.
        and_then (marker b ResetPending) (\<lambda>pending.
        and_then (if pending then map_err worker_error (run_worker b CLEAR_RESET_UNIT) else ok ()) (\<lambda>_.
        if on then map_err (\<lambda>_. unavailable) (start_remoted b) else ok ()))))))))"

definition valid_pairing_code :: "string \<Rightarrow> bool" where
  "valid_pairing_code code \<longleftrightarrow> length code = 8 \<and> list_all (\<lambda>c. c \<in> set PAIRING_ALPHABET) code"

definition eligible :: "ip_addr \<Rightarrow> bool" where
  "eligible a =
     (case a of
        V4 b \<Rightarrow> \<not> drop_bit 24 b = 127 \<and> \<not> b = 0 \<and> \<not> drop_bit 28 b = 14 \<and> \<not> drop_bit 16 b = 0xa9fe
      | V6 b \<Rightarrow> \<not> b = 1 \<and> \<not> b = 0 \<and> \<not> drop_bit 120 b = 0xff \<and>
                (word_of_nat (segments b ! 0) :: u16) AND 0xffc0 \<noteq> 0xfe80)"

definition eligible_addresses :: "string list \<Rightarrow> ip_addr list" where
  "eligible_addresses values =
     filter eligible (List.map_filter (\<lambda>v. Option.bind (split_once CHR ''/'' v) (\<lambda>(a, _). parse_ip a)) values)"

definition enrollment_url :: "network_status \<Rightarrow> string" where
  "enrollment_url net =
     (case primary_connection net of
        None \<Rightarrow> []
      | Some primary \<Rightarrow>
          (let addrs = eligible_addresses (addresses primary)
           in case (case find is_ipv4 addrs of Some a \<Rightarrow> Some a | None \<Rightarrow> find (\<lambda>a. \<not> is_ipv4 a) addrs) of
                Some (V4 a) \<Rightarrow> ''https://'' @ display_v4 a @ '':'' @ decimal (unat PORT) @ ''/''
              | Some (V6 a) \<Rightarrow> ''https://['' @ display_v6 a @ '']:'' @ decimal (unat PORT) @ ''/''
              | None \<Rightarrow> []))"

definition enrollment :: "bool \<Rightarrow> 'w backend \<Rightarrow> ('w, platform_error, string \<times> string \<times> string \<times> u64) op" where
  "enrollment permit b =
     (if \<not> permit then err busy
      else
        and_then (map_err (\<lambda>_. network_error) (backend_network b)) (\<lambda>net.
        let url = enrollment_url net in
        and_then (map_err (\<lambda>_. unavailable) (fingerprint b)) (\<lambda>f.
        let print = (case f of None \<Rightarrow> [] | Some x \<Rightarrow> x) in
        and_then (map_err (\<lambda>_. auth_unavailable) (pending_pairing b)) (\<lambda>(pending, code, expires_at).
        if pending
        then (if \<not> valid_pairing_code code \<or> expires_at = 0 then err auth_unavailable
              else ok (url, print, code, expires_at))
        else ok (url, print, [], 0)))))"

section \<open>The production backend\<close>

definition worker_succeeded :: "string \<Rightarrow> string \<Rightarrow> bool" where
  "worker_succeeded active res \<longleftrightarrow> active = ''inactive'' \<and> res = ''success''"

definition idle :: "string \<Rightarrow> bool" where
  "idle active \<longleftrightarrow> active = ''inactive'' \<or> active = ''failed''"

definition job_pending :: "string list \<Rightarrow> string \<Rightarrow> bool" where
  "job_pending jobs expected \<longleftrightarrow> list_ex (\<lambda>job. job = expected) jobs"

record 's remote_env =
  services :: "'s systemd"
  auth_member :: "string \<Rightarrow> ('s, unit) call"
  auth_pending :: "('s, bool \<times> string \<times> u64) call"
  observer_status :: "('s, string) call"
  network_from_str :: "string \<Rightarrow> network_status option"
  files_io :: io_env
  files_of :: "'s \<Rightarrow> world"
  put_files :: "world \<Rightarrow> 's \<Rightarrow> 's"

definition on_files :: "'s remote_env \<Rightarrow> (world, 'e, 'a) op \<Rightarrow> ('s timed, 'e, 'a) op" where
  "on_files env m = on_part (\<lambda>w. files_of env (outside w)) (\<lambda>f w. w\<lparr>outside := put_files env f (outside w)\<rparr>) m"

definition system_marker_exists :: "'s remote_env \<Rightarrow> marker_kind \<Rightarrow> ('s timed, unit, bool) op" where
  "system_marker_exists env m =
     and_then (attempt (on_files env (symlink_metadata (files_io env)
       (STATE_DIR @ [case m of Enabled \<Rightarrow> ENABLED | ResetPending \<Rightarrow> RESET_PENDING])))) (\<lambda>r.
       case r of
         Inr _ \<Rightarrow> ok True
       | Inl e \<Rightarrow> if e = NotFound then ok False else err ())"

function wait_job :: "'s systemd \<Rightarrow> string \<Rightarrow> ('s, 'e, unit) block" where
  "wait_job sd job d w =
     (case await (list_jobs sd) d w of
        (Inl e, w') \<Rightarrow> (Inl e, w')
      | (Inr jobs, w') \<Rightarrow>
          if \<not> job_pending jobs job then (Inr (), w')
          else (case pause POLL_INTERVAL d w' of (Inl e, w2) \<Rightarrow> (Inl e, w2) | (Inr _, w2) \<Rightarrow> wait_job sd job d w2))"
  by pat_completeness auto

termination wait_job
  by (relation "measure (\<lambda>(_, _, d, w). d - clock w)") (auto simp: POLL_INTERVAL_def intro: poll_progress)

text \<open>The block of \<^verbatim>\<open>run_worker\<close>; \<^verbatim>\<open>Ok(Err(Busy))\<close> is the value \<open>Inl WorkerBusy\<close>.\<close>

definition run_worker_block :: "'s systemd \<Rightarrow> string \<Rightarrow> ('s, unit, worker_failure + unit) block" where
  "run_worker_block sd name d =
     and_then (await (load_unit sd name) d) (\<lambda>path.
     and_then (await (unit_property sd path SYSTEMD_UNIT ''ActiveState'') d) (\<lambda>active.
     if \<not> idle active then ok (Inl WorkerBusy)
     else
       and_then (await (start_unit sd name ''fail'') d) (\<lambda>job.
       and_then (wait_job sd job d) (\<lambda>_.
       and_then (await (unit_property sd path SYSTEMD_UNIT ''ActiveState'') d) (\<lambda>active.
       and_then (await (unit_property sd path SYSTEMD_SERVICE ''Result'') d) (\<lambda>res.
       ok (if worker_succeeded active res then Inr () else Inl WorkerFailed)))))))"

definition system_run_worker :: "'s remote_env \<Rightarrow> string \<Rightarrow> ('s timed, worker_failure, unit) op" where
  "system_run_worker env name w =
     (case timeout WORKER_TIMEOUT (run_worker_block (services env) name) w of
        (Inr r, w') \<Rightarrow> (r, w')
      | (Inl _, w') \<Rightarrow> (Inl WorkerFailed, w'))"

function wait_active :: "'s systemd \<Rightarrow> string \<Rightarrow> ('s, 'e, bool) block" where
  "wait_active sd path d w =
     (case await (unit_property sd path SYSTEMD_UNIT ''ActiveState'') d w of
        (Inl e, w') \<Rightarrow> (Inl e, w')
      | (Inr active, w') \<Rightarrow>
          if active = ''active'' then (Inr True, w')
          else if active = ''failed'' then (Inr False, w')
          else (case pause POLL_INTERVAL d w' of (Inl e, w2) \<Rightarrow> (Inl e, w2) | (Inr _, w2) \<Rightarrow> wait_active sd path d w2))"
  by pat_completeness auto

termination wait_active
  by (relation "measure (\<lambda>(_, _, d, w). d - clock w)") (auto simp: POLL_INTERVAL_def intro: poll_progress)

definition start_remoted_block :: "'s systemd \<Rightarrow> ('s, unit, bool) block" where
  "start_remoted_block sd d =
     and_then (await (load_unit sd REMOTED_UNIT) d) (\<lambda>path.
     and_then (await (unit_property sd path SYSTEMD_UNIT ''ActiveState'') d) (\<lambda>active.
     if active = ''active'' then ok True
     else
       and_then (await (start_unit sd REMOTED_UNIT ''fail'') d) (\<lambda>_.
       wait_active sd path d)))"

definition system_start_remoted :: "'s remote_env \<Rightarrow> ('s timed, unit, unit) op" where
  "system_start_remoted env =
     and_then (map_err (\<lambda>_. ()) (timeout REMOTED_TIMEOUT (start_remoted_block (services env)))) (\<lambda>started.
     if started then ok () else err ())"

function wait_idle :: "'s systemd \<Rightarrow> string \<Rightarrow> ('s, 'e, unit) block" where
  "wait_idle sd path d w =
     (case await (unit_property sd path SYSTEMD_UNIT ''ActiveState'') d w of
        (Inl e, w') \<Rightarrow> (Inl e, w')
      | (Inr active, w') \<Rightarrow>
          if idle active then (Inr (), w')
          else (case pause POLL_INTERVAL d w' of (Inl e, w2) \<Rightarrow> (Inl e, w2) | (Inr _, w2) \<Rightarrow> wait_idle sd path d w2))"
  by pat_completeness auto

termination wait_idle
  by (relation "measure (\<lambda>(_, _, d, w). d - clock w)") (auto simp: POLL_INTERVAL_def intro: poll_progress)

declare wait_job.simps [simp del] wait_active.simps [simp del] wait_idle.simps [simp del]

definition stop_remoted_block :: "'s systemd \<Rightarrow> ('s, unit, unit) block" where
  "stop_remoted_block sd d =
     and_then (await (load_unit sd REMOTED_UNIT) d) (\<lambda>path.
     and_then (await (unit_property sd path SYSTEMD_UNIT ''ActiveState'') d) (\<lambda>active.
     if idle active then ok ()
     else
       and_then (await (stop_unit sd REMOTED_UNIT ''replace'') d) (\<lambda>_.
       wait_idle sd path d)))"

definition system_stop_remoted :: "'s remote_env \<Rightarrow> ('s timed, unit, unit) op" where
  "system_stop_remoted env = map_err (\<lambda>_. ()) (timeout REMOTED_TIMEOUT (stop_remoted_block (services env)))"

definition system_auth :: "'s remote_env \<Rightarrow> auth_call \<Rightarrow> ('s timed, unit, unit) op" where
  "system_auth env c =
     map_err (\<lambda>_ :: unit stopped. ()) (timeout AUTH_TIMEOUT (await (auth_member env (member c))))"

definition system_pending_pairing :: "'s remote_env \<Rightarrow> ('s timed, unit, bool \<times> string \<times> u64) op" where
  "system_pending_pairing env =
     map_err (\<lambda>_ :: unit stopped. ()) (timeout AUTH_TIMEOUT (await (auth_pending env)))"

definition system_network :: "'s remote_env \<Rightarrow> ('s timed, unit, network_status) op" where
  "system_network env w =
     (case timeout NETWORK_TIMEOUT (await (observer_status env)) w of
        (r, w') \<Rightarrow>
          (map_sum (\<lambda>_. ()) (\<lambda>net. net)
             (observe_network (network_from_str env) (case r of Inl (_ :: unit stopped) \<Rightarrow> None | Inr json \<Rightarrow> Some json)), w'))"

definition system_fingerprint :: "'s remote_env \<Rightarrow> ('s timed, unit, string option) op" where
  "system_fingerprint env = map_err (\<lambda>_. ()) (on_files env (current_fingerprint (files_io env)))"

definition system_backend :: "'s remote_env \<Rightarrow> 's timed backend" where
  "system_backend env =
     \<lparr>marker_exists = system_marker_exists env, run_worker = system_run_worker env,
      start_remoted = system_start_remoted env, stop_remoted = system_stop_remoted env,
      backend_auth = system_auth env, pending_pairing = system_pending_pairing env,
      backend_network = system_network env, fingerprint = system_fingerprint env\<rparr>"

section \<open>Time\<close>

text \<open>Every call to the system is bounded by its time limit, polling included, and so is every sequence.\<close>

lemma poll_bounded:
  fixes f :: "('s, 'e, 'r) block" and c :: "('s, 'x) call"
  assumes step: "\<And>d w. f d w = (case await c d w of
        (Inl e, w') \<Rightarrow> (Inl e, w')
      | (Inr x, w') \<Rightarrow>
          (case g x of
             Some r \<Rightarrow> (Inr r, w')
           | None \<Rightarrow> (case pause POLL_INTERVAL d w' of (Inl e, w2) \<Rightarrow> (Inl e, w2) | (Inr _, w2) \<Rightarrow> f d w2)))"
  shows "bounded f"
proof -
  have "clock w \<le> d \<Longrightarrow> clock w \<le> clock (snd (f d w)) \<and> clock (snd (f d w)) \<le> d" for d w
  proof (induction "d - clock w" arbitrary: w rule: less_induct)
    case less
    obtain r :: "'e stopped + 'x" and w' where w': "await c d w = (r, w')" by fastforce
    have le: "clock w \<le> clock w'" "clock w' \<le> d"
      using w' less.prems by (auto simp: await_def split: prod.splits if_splits)
    show ?case
    proof (cases "\<exists>x. r = Inr x \<and> g x = None")
      case False
      then show ?thesis by (cases r) (use le in \<open>auto simp: step [of d w] w'\<close>)
    next
      case True
      then obtain x where x: "r = Inr x" "g x = None" by blast
      obtain q :: "'e stopped + unit" and w2 where w2: "pause POLL_INTERVAL d w' = (q, w2)" by fastforce
      have le2: "clock w' \<le> clock w2" "clock w2 \<le> d" using w2 le by (auto simp: pause_def split: if_splits)
      show ?thesis
      proof (cases q)
        case (Inr u)
        have "d - clock w2 < d - clock w"
          using le w2 Inr by (auto simp: pause_def POLL_INTERVAL_def split: if_splits)
        from less.hyps [OF this le2(2)] show ?thesis using w' w2 x Inr le le2 step [of d w] by simp
      qed (use w' w2 x le le2 step [of d w] in simp)
    qed
  qed
  then show ?thesis by (simp add: bounded_def)
qed

lemma bounded_wait_job [time_intros]: "bounded (wait_job sd job)"
  by (rule poll_bounded [where c = "list_jobs sd" and g = "\<lambda>jobs. if job_pending jobs job then None else Some ()"])
    (subst wait_job.simps, simp split: prod.splits sum.splits)

lemma bounded_wait_active [time_intros]: "bounded (wait_active sd path)"
  by (rule poll_bounded [where c = "unit_property sd path SYSTEMD_UNIT ''ActiveState''"
      and g = "\<lambda>a. if a = ''active'' then Some True else if a = ''failed'' then Some False else None"])
    (subst wait_active.simps, simp split: prod.splits sum.splits)

lemma bounded_wait_idle [time_intros]: "bounded (wait_idle sd path)"
  by (rule poll_bounded [where c = "unit_property sd path SYSTEMD_UNIT ''ActiveState''"
      and g = "\<lambda>a. if idle a then Some () else None"])
    (subst wait_idle.simps, simp split: prod.splits sum.splits)

lemma bounded_blocks [time_intros]:
  "bounded (run_worker_block sd name)" "bounded (start_remoted_block sd)" "bounded (stop_remoted_block sd)"
  unfolding run_worker_block_def start_remoted_block_def stop_remoted_block_def
  by (intro time_intros)+

lemma lasts_snd: "lasts n m \<Longrightarrow> (\<And>w. snd (m' w) = snd (m w)) \<Longrightarrow> lasts n m'"
  by (simp add: lasts_def)

lemma lasts_0:
  "lasts 0 (ok x)" "lasts 0 (err e)"
  by (simp_all add: lasts_def ok_def err_def)

lemma lasts_system:
  "lasts 0 (system_marker_exists env m)"
  "lasts 30000 (system_run_worker env name)"
  "lasts 10000 (system_start_remoted env)"
  "lasts 10000 (system_stop_remoted env)"
  "lasts 10000 (system_auth env c)"
proof -
  show "lasts 0 (system_marker_exists env m)"
    by (auto simp: lasts_def system_marker_exists_def snd_and_then attempt_def on_files_def on_part_def ok_def err_def
        split: prod.splits sum.splits)
  show "lasts 30000 (system_run_worker env name)"
    by (rule lasts_snd [OF lasts_timeout [OF bounded_blocks(1) [of "services env" name]]])
      (auto simp: system_run_worker_def WORKER_TIMEOUT_def split: prod.splits sum.splits)
  have "lasts (REMOTED_TIMEOUT + 0) (system_start_remoted env)"
    unfolding system_start_remoted_def by (intro lasts_and_then time_intros) (simp add: lasts_0)
  then show "lasts 10000 (system_start_remoted env)" by (simp add: REMOTED_TIMEOUT_def)
  show "lasts 10000 (system_stop_remoted env)" "lasts 10000 (system_auth env c)"
    unfolding system_stop_remoted_def system_auth_def REMOTED_TIMEOUT_def AUTH_TIMEOUT_def by (intro time_intros)+
qed

lemma system_backend_simps [simp]:
  "marker_exists (system_backend env) = system_marker_exists env" "run_worker (system_backend env) = system_run_worker env"
  "start_remoted (system_backend env) = system_start_remoted env" "stop_remoted (system_backend env) = system_stop_remoted env"
  "backend_auth (system_backend env) = system_auth env"
  by (simp_all add: system_backend_def)

lemma lasts_zero_and_then: "lasts 0 a \<Longrightarrow> (\<And>x. lasts n (f x)) \<Longrightarrow> lasts n (and_then a f)"
  using lasts_and_then [of 0 a n f] by simp

lemma lasts_if: "lasts m a \<Longrightarrow> lasts n b \<Longrightarrow> lasts (max m n) (if c then a else b)"
  by (auto intro: lasts_mono)

lemma lasts_enable: "lasts 50000 (enable permit (system_backend env))"
proof -
  have "lasts (30000 + (10000 + 10000)) (and_then (map_err worker_error (system_run_worker env ENABLE_UNIT)) (\<lambda>_.
      and_then (auth (system_backend env) EnsurePendingPairing) (\<lambda>_. map_err (\<lambda>_. unavailable) (system_start_remoted env))))"
    by (intro lasts_and_then lasts_map_err lasts_system) (simp add: auth_def lasts_map_err lasts_system)
  then show ?thesis
    by (auto simp: enable_def marker_def intro!: lasts_zero_and_then lasts_map_err lasts_system lasts_mono [OF lasts_0(2)])
qed

lemma lasts_disable: "lasts 50000 (disable permit (system_backend env))"
proof -
  have "lasts (30000 + (10000 + 10000)) (and_then (map_err worker_error (system_run_worker env DISABLE_UNIT)) (\<lambda>_.
      and_then (map_err (\<lambda>_. unavailable) (system_stop_remoted env)) (\<lambda>_. auth (system_backend env) CancelPendingPairing)))"
    by (intro lasts_and_then lasts_map_err lasts_system) (simp add: auth_def lasts_map_err lasts_system)
  then show ?thesis by (simp add: disable_def lasts_mono [OF lasts_0(2)])
qed

lemma lasts_reenroll: "lasts 100000 (reenroll permit (system_backend env))"
proof -
  have choice: "lasts n a \<Longrightarrow> lasts n (if c then a else ok x)" for n c x and a :: "('s timed, 'e, 'x) op"
    by (simp add: lasts_mono [OF lasts_0(1)])
  have "lasts (10000 + (10000 + (30000 + (0 + (10000 + (0 + (30000 + 10000))))))) (and_then (map_err (\<lambda>_. unavailable) (system_stop_remoted env)) (\<lambda>_.
        and_then (auth (system_backend env) ResetEnrollment) (\<lambda>_.
        and_then (map_err worker_error (system_run_worker env ROTATE_UNIT)) (\<lambda>_.
        and_then (marker (system_backend env) Enabled) (\<lambda>on.
        and_then (if on then auth (system_backend env) EnsurePendingPairing else ok ()) (\<lambda>_.
        and_then (marker (system_backend env) ResetPending) (\<lambda>pending.
        and_then (if pending then map_err worker_error (system_run_worker env CLEAR_RESET_UNIT) else ok ()) (\<lambda>_.
        if on then map_err (\<lambda>_. unavailable) (system_start_remoted env) else ok ()))))))))"
    unfolding auth_def marker_def system_backend_simps by (intro lasts_and_then choice lasts_map_err lasts_system)
  then show ?thesis unfolding reenroll_def system_backend_simps by (simp add: lasts_mono [OF lasts_0(2)])
qed

section \<open>What the sequences need of a backend\<close>

text \<open>
  Three facts about the device matter to the sequences: whether sl-remoted runs (\<open>exposed\<close>), which markers exist
  (\<open>marked\<close>), and whether the old credential is gone (\<open>cleared\<close>).  \<open>good\<close> says that nothing of an
  earlier call is under way; a unit whose job is not awaited to its end may break it.  The laws
  say what each call may change, also when it fails; the results below hold for every backend that obeys them.
\<close>

locale remote_backend =
  fixes b :: "'w backend" and exposed :: "'w \<Rightarrow> bool" and marked :: "marker_kind \<Rightarrow> 'w \<Rightarrow> bool"
    and cleared :: "'w \<Rightarrow> bool" and good :: "'w \<Rightarrow> bool"
  assumes marker_law: "good w \<Longrightarrow> marker_exists b m w = (found, w') \<Longrightarrow>
      good w' \<and> exposed w' = exposed w \<and> (\<forall>k. marked k w' = marked k w) \<and> cleared w' = cleared w \<and> (\<forall>x. found = Inr x \<longrightarrow> x = marked m w)"
    and worker_law: "good w \<Longrightarrow> u \<in> {ENABLE_UNIT, DISABLE_UNIT, ROTATE_UNIT, CLEAR_RESET_UNIT} \<Longrightarrow>
      run_worker b u w = (outcome, w') \<Longrightarrow>
      (outcome = Inr () \<longrightarrow> good w') \<and> exposed w' = exposed w \<and> cleared w' = cleared w"
    and enable_law: "good w \<Longrightarrow> run_worker b ENABLE_UNIT w = (Inr (), w') \<Longrightarrow> marked Enabled w' \<and> \<not> marked ResetPending w'"
    and disable_law: "good w \<Longrightarrow> run_worker b DISABLE_UNIT w = (Inr (), w') \<Longrightarrow> \<not> marked Enabled w'"
    and rotate_law: "good w \<Longrightarrow> run_worker b ROTATE_UNIT w = (Inr (), w') \<Longrightarrow> marked k w' = marked k w"
    and clear_law: "good w \<Longrightarrow> run_worker b CLEAR_RESET_UNIT w = (Inr (), w') \<Longrightarrow>
      \<not> marked ResetPending w' \<and> marked Enabled w' = marked Enabled w"
    and start_law: "good w \<Longrightarrow> start_remoted b w = (r, w') \<Longrightarrow>
      (r = Inr () \<longrightarrow> good w') \<and> (\<forall>k. marked k w' = marked k w) \<and> cleared w' = cleared w \<and> (r = Inr () \<longrightarrow> exposed w') \<and>
      (exposed w' \<longrightarrow> exposed w \<or> marked Enabled w \<and> \<not> marked ResetPending w)"
    and stop_law: "good w \<Longrightarrow> stop_remoted b w = (r, w') \<Longrightarrow>
      (r = Inr () \<longrightarrow> good w') \<and> (\<forall>k. marked k w' = marked k w) \<and> cleared w' = cleared w \<and> (r = Inr () \<longrightarrow> \<not> exposed w') \<and> (exposed w' \<longrightarrow> exposed w)"
    and auth_law: "good w \<Longrightarrow> backend_auth b c w = (r, w') \<Longrightarrow>
      good w' \<and> exposed w' = exposed w \<and> (\<forall>k. marked k w' = marked k w) \<and> (cleared w \<and> c \<noteq> ResetEnrollment \<longrightarrow> cleared w')"
    and reset_law: "good w \<Longrightarrow> backend_auth b ResetEnrollment w = (Inr (), w') \<Longrightarrow> cleared w'"
begin

lemma enable_blocked:
  assumes "good w" "marked ResetPending w"
  shows "\<exists>w'. (enable True b w = (Inl reset_incomplete, w') \<or> enable True b w = (Inl unavailable, w')) \<and>
    exposed w' = exposed w \<and> (\<forall>k. marked k w' = marked k w) \<and> cleared w' = cleared w"
proof -
  obtain r w' where m: "marker_exists b ResetPending w = (r, w')" by fastforce
  then show ?thesis using marker_law [OF assms(1) m] assms(2)
    by (cases r) (auto simp: enable_def marker_def and_then_def map_err_def err_def)
qed

lemma enable_done:
  assumes g: "good w" and e: "enable True b w = (Inr (), w')"
  shows "good w' \<and> exposed w' \<and> marked Enabled w' \<and> \<not> marked ResetPending w'"
proof -
  from e obtain w1 w2 w3 where
    1: "marker_exists b ResetPending w = (Inr False, w1)" and 2: "run_worker b ENABLE_UNIT w1 = (Inr (), w2)"
    and 3: "backend_auth b EnsurePendingPairing w2 = (Inr (), w3)" and 4: "start_remoted b w3 = (Inr (), w')"
    by (auto simp: enable_def marker_def auth_def and_then_def map_err_def err_def split: prod.splits sum.splits if_splits)
  have g1: "good w1" using marker_law [OF g 1] by simp
  have g2: "good w2" using worker_law [OF g1 _ 2] by simp
  have g3: "good w3" using auth_law [OF g2 3] by simp
  show ?thesis using enable_law [OF g1 2] auth_law [OF g2 3] start_law [OF g3 4] by simp
qed

lemma disable_done:
  assumes g: "good w" and e: "disable True b w = (Inr (), w')"
  shows "good w' \<and> \<not> exposed w' \<and> \<not> marked Enabled w'"
proof -
  from e obtain w1 w2 where
    1: "run_worker b DISABLE_UNIT w = (Inr (), w1)" and 2: "stop_remoted b w1 = (Inr (), w2)"
    and 3: "backend_auth b CancelPendingPairing w2 = (Inr (), w')"
    by (auto simp: disable_def auth_def and_then_def map_err_def err_def split: prod.splits sum.splits if_splits)
  have g1: "good w1" using worker_law [OF g _ 1] by simp
  have g2: "good w2" using stop_law [OF g1 2] by simp
  show ?thesis using disable_law [OF g 1] stop_law [OF g1 2] auth_law [OF g2 3] by simp
qed

text \<open>Once the service is stopped, the repair never exposes the device with the old credential or a pending reset,
  whichever of its steps fails; when it succeeds, the device has converged.\<close>

definition quiet :: "'w \<Rightarrow> bool" where
  "quiet w \<longleftrightarrow> good w \<and> cleared w \<and> \<not> exposed w"

definition unharmed :: "platform_error \<Rightarrow> 'w \<Rightarrow> bool" where
  "unharmed e w \<longleftrightarrow> cleared w \<and> (exposed w \<longrightarrow> \<not> marked ResetPending w) \<and> e \<noteq> reset_incomplete"

lemma errors_distinct:
  "worker_error x \<noteq> reset_incomplete" "unavailable \<noteq> reset_incomplete" "auth_unavailable \<noteq> reset_incomplete"
  by (auto simp: worker_error_def unavailable_def reset_incomplete_def auth_unavailable_def split: worker_failure.splits)

lemma quiet_rotate: "quiet w \<Longrightarrow> wp (map_err worker_error (run_worker b ROTATE_UNIT)) (\<lambda>_. quiet) unharmed w"
  using worker_law [of w ROTATE_UNIT] errors_distinct
  by (auto simp: wp_def map_err_def quiet_def unharmed_def split: prod.splits sum.splits)

lemma quiet_marker:
  "quiet w \<Longrightarrow> wp (marker b m) (\<lambda>x w'. quiet w' \<and> x = marked m w' \<and> (\<forall>k. marked k w' = marked k w)) unharmed w"
  using marker_law [of w m] errors_distinct
  by (auto simp: wp_def marker_def map_err_def quiet_def unharmed_def split: prod.splits sum.splits)

lemma quiet_auth:
  "quiet w \<Longrightarrow> wp (auth b EnsurePendingPairing) (\<lambda>_ w'. quiet w' \<and> (\<forall>k. marked k w' = marked k w)) unharmed w"
  using auth_law [of w EnsurePendingPairing] errors_distinct
  by (auto simp: wp_def auth_def map_err_def quiet_def unharmed_def split: prod.splits sum.splits)

lemma quiet_clear:
  "quiet w \<Longrightarrow> wp (map_err worker_error (run_worker b CLEAR_RESET_UNIT))
     (\<lambda>_ w'. quiet w' \<and> \<not> marked ResetPending w' \<and> marked Enabled w' = marked Enabled w) unharmed w"
  using worker_law [of w CLEAR_RESET_UNIT] clear_law [of w] errors_distinct
  by (auto simp: wp_def map_err_def quiet_def unharmed_def split: prod.splits sum.splits)

lemma quiet_start:
  "quiet w \<Longrightarrow> wp (map_err (\<lambda>_. unavailable) (start_remoted b))
     (\<lambda>_ w'. good w' \<and> cleared w' \<and> exposed w' \<and> (\<forall>k. marked k w' = marked k w)) unharmed w"
  using start_law [of w] errors_distinct
  by (auto simp: wp_def map_err_def quiet_def unharmed_def split: prod.splits sum.splits)

lemma wp_if_ok: "(c \<Longrightarrow> wp m Q E w) \<Longrightarrow> (\<not> c \<Longrightarrow> Q () w) \<Longrightarrow> wp (if c then m else ok ()) Q E w"
  by (simp add: wp_def ok_def)

definition converged :: "'w \<Rightarrow> bool" where
  "converged w \<longleftrightarrow> good w \<and> cleared w \<and> \<not> marked ResetPending w \<and> exposed w = marked Enabled w"

lemma quiet_last:
  assumes "quiet w" "\<not> marked ResetPending w" "on = marked Enabled w"
  shows "wp (if on then map_err (\<lambda>_. unavailable) (start_remoted b) else ok ()) (\<lambda>_. converged) unharmed w"
  by (rule wp_if_ok, rule wp_mono [OF quiet_start [OF assms(1)]])
    (use assms in \<open>auto simp: converged_def quiet_def\<close>)

lemma quiet_finish:
  assumes "quiet w" "on = marked Enabled w"
  shows "wp (and_then (marker b ResetPending) (\<lambda>pending.
        and_then (if pending then map_err worker_error (run_worker b CLEAR_RESET_UNIT) else ok ()) (\<lambda>_.
        if on then map_err (\<lambda>_. unavailable) (start_remoted b) else ok ()))) (\<lambda>_. converged) unharmed w"
proof (rule wp_bind [OF quiet_marker [OF assms(1)]])
  fix pending w' assume w': "quiet w' \<and> pending = marked ResetPending w' \<and> (\<forall>k. marked k w' = marked k w)"
  have "wp (if pending then map_err worker_error (run_worker b CLEAR_RESET_UNIT) else ok ())
     (\<lambda>_ w2. quiet w2 \<and> \<not> marked ResetPending w2 \<and> marked Enabled w2 = on) unharmed w'"
    by (rule wp_if_ok, rule wp_mono [OF quiet_clear]) (use w' assms(2) in auto)
  then show "wp (and_then (if pending then map_err worker_error (run_worker b CLEAR_RESET_UNIT) else ok ()) (\<lambda>_.
        if on then map_err (\<lambda>_. unavailable) (start_remoted b) else ok ())) (\<lambda>_. converged) unharmed w'"
    by (rule wp_bind) (elim conjE, rule quiet_last, simp_all)
qed

lemma quiet_repair:
  assumes "quiet w"
  shows "wp (and_then (map_err worker_error (run_worker b ROTATE_UNIT)) (\<lambda>_.
        and_then (marker b Enabled) (\<lambda>on.
        and_then (if on then auth b EnsurePendingPairing else ok ()) (\<lambda>_.
        and_then (marker b ResetPending) (\<lambda>pending.
        and_then (if pending then map_err worker_error (run_worker b CLEAR_RESET_UNIT) else ok ()) (\<lambda>_.
        if on then map_err (\<lambda>_. unavailable) (start_remoted b) else ok ())))))) (\<lambda>_. converged) unharmed w"
proof (rule wp_bind [OF quiet_rotate [OF assms]], rule wp_bind [OF quiet_marker])
  fix on w0 w' assume w': "quiet w' \<and> on = marked Enabled w' \<and> (\<forall>k. marked k w' = marked k w0)"
  have "wp (if on then auth b EnsurePendingPairing else ok ()) (\<lambda>_ w2. quiet w2 \<and> on = marked Enabled w2) unharmed w'"
    by (rule wp_if_ok, rule wp_mono [OF quiet_auth]) (use w' in auto)
  then show "wp (and_then (if on then auth b EnsurePendingPairing else ok ()) (\<lambda>_.
        and_then (marker b ResetPending) (\<lambda>pending.
        and_then (if pending then map_err worker_error (run_worker b CLEAR_RESET_UNIT) else ok ()) (\<lambda>_.
        if on then map_err (\<lambda>_. unavailable) (start_remoted b) else ok ())))) (\<lambda>_. converged) unharmed w'"
    by (rule wp_bind) (elim conjE, rule quiet_finish, simp_all)
qed auto

lemma reenroll_done:
  assumes g: "good w" and e: "reenroll True b w = (Inr (), w')"
  shows "cleared w' \<and> \<not> marked ResetPending w' \<and> exposed w' = marked Enabled w'"
proof -
  from e obtain w1 w2 where
    1: "stop_remoted b w = (Inr (), w1)" and 2: "backend_auth b ResetEnrollment w1 = (Inr (), w2)"
    by (auto simp: reenroll_def auth_def and_then_def map_err_def split: prod.splits sum.splits)
  have g1: "good w1" "\<not> exposed w1" using stop_law [OF g 1] by auto
  have "quiet w2" using auth_law [OF g1(1) 2] reset_law [OF g1(1) 2] g1(2) by (simp add: quiet_def)
  from quiet_repair [OF this] show ?thesis
    using e 1 2 by (simp add: reenroll_def wp_def and_then_def map_err_def auth_def converged_def)
qed

text \<open>Once the service is stopped, a failure leaves it stopped, unless everything but the last step was done.\<close>

lemma reenroll_failed:
  assumes g: "good w" and s: "stop_remoted b w = (Inr (), w1)" and e: "reenroll True b w = (Inl x, w')"
  shows "x \<noteq> reset_incomplete \<and> (exposed w' \<longrightarrow> cleared w' \<and> \<not> marked ResetPending w')"
proof -
  have g1: "good w1" "\<not> exposed w1" using stop_law [OF g s] by auto
  obtain r w2 where 2: "backend_auth b ResetEnrollment w1 = (r, w2)" by fastforce
  show ?thesis
  proof (cases r)
    case (Inl z)
    then show ?thesis
      using e s 2 auth_law [OF g1(1) 2] g1(2) errors_distinct
      by (auto simp: reenroll_def auth_def and_then_def map_err_def)
  next
    case (Inr u)
    then have "quiet w2" using auth_law [OF g1(1) 2] reset_law [OF g1(1)] 2 g1(2) by (simp add: quiet_def)
    from quiet_repair [OF this] show ?thesis
      using e s 2 Inr by (simp add: reenroll_def wp_def and_then_def map_err_def auth_def unharmed_def)
  qed
qed

text \<open>The three sequences, whatever their outcome.\<close>

lemma reenroll_outcome:
  assumes "good w"
  shows "wp (reenroll True b) (\<lambda>_ w'. cleared w' \<and> \<not> marked ResetPending w' \<and> exposed w' = marked Enabled w')
    (\<lambda>e w'. e \<noteq> reset_incomplete \<and> (fst (stop_remoted b w) = Inr () \<and> exposed w' \<longrightarrow> cleared w' \<and> \<not> marked ResetPending w')) w"
proof -
  obtain s w1 where s: "stop_remoted b w = (s, w1)" by fastforce
  have "e \<noteq> reset_incomplete \<and> (fst (stop_remoted b w) = Inr () \<and> exposed w' \<longrightarrow> cleared w' \<and> \<not> marked ResetPending w')"
    if e: "reenroll True b w = (Inl e, w')" for e w'
  proof (cases s)
    case (Inl z)
    then show ?thesis using e s errors_distinct by (simp add: reenroll_def and_then_def map_err_def)
  next
    case (Inr z)
    then show ?thesis using reenroll_failed [OF assms _ e] s by auto
  qed
  then show ?thesis using reenroll_done [OF assms] by (auto simp: wp_run)
qed

lemma start_failed:
  assumes "good w" "marked Enabled w" "\<not> marked ResetPending w"
  shows "wp (start_remoted b) (\<lambda>_ w'. exposed w' \<and> marked Enabled w' \<and> \<not> marked ResetPending w')
    (\<lambda>_ w'. marked Enabled w' \<and> \<not> marked ResetPending w') w"
  using start_law [OF assms(1)] assms by (auto simp: wp_run)

lemma enable_outcome:
  assumes "good w"
  shows "wp (enable True b) (\<lambda>_ w'. exposed w' \<and> marked Enabled w' \<and> \<not> marked ResetPending w')
    (\<lambda>_ w'. exposed w' = exposed w \<or> marked Enabled w' \<and> \<not> marked ResetPending w') w"
  unfolding enable_def if_not_P [OF not_not [THEN iffD2, OF TrueI]]
proof (rule wp_bind [where P = "\<lambda>_ w'. good w' \<and> exposed w' = exposed w" and F = "\<lambda>_ w'. exposed w' = exposed w"])
  show "wp (marker b ResetPending) (\<lambda>_ w'. good w' \<and> exposed w' = exposed w) (\<lambda>_ w'. exposed w' = exposed w) w"
    using marker_law [OF assms] by (fastforce simp: wp_run marker_def map_err_def split: prod.splits sum.splits)
  fix pending w1 assume w1: "good w1 \<and> exposed w1 = exposed w"
  let ?on = "\<lambda>w'. good w' \<and> exposed w' = exposed w \<and> marked Enabled w' \<and> \<not> marked ResetPending w'"
  have 1: "wp (map_err worker_error (run_worker b ENABLE_UNIT)) (\<lambda>_. ?on) (\<lambda>_ w'. exposed w' = exposed w) w1"
    using worker_law [of w1 ENABLE_UNIT] enable_law [of w1] w1
    by (fastforce simp: wp_run map_err_def split: prod.splits sum.splits)
  have 2: "wp (auth b EnsurePendingPairing) (\<lambda>_. ?on) (\<lambda>_. ?on) w'" if "?on w'" for w'
    using auth_law [of w' EnsurePendingPairing] that by (fastforce simp: wp_run auth_def map_err_def split: prod.splits sum.splits)
  have 3: "wp (map_err (\<lambda>_. unavailable) (start_remoted b)) (\<lambda>_ w'. exposed w' \<and> marked Enabled w' \<and> \<not> marked ResetPending w')
      (\<lambda>_ w'. exposed w' = exposed w \<or> marked Enabled w' \<and> \<not> marked ResetPending w') w'" if "?on w'" for w'
    unfolding wp_map_err by (rule wp_weaken [OF start_failed]) (use that in auto)
  show "wp (if pending then err reset_incomplete else
          and_then (map_err worker_error (run_worker b ENABLE_UNIT)) (\<lambda>_.
          and_then (auth b EnsurePendingPairing) (\<lambda>_. map_err (\<lambda>_. unavailable) (start_remoted b))))
      (\<lambda>_ w'. exposed w' \<and> marked Enabled w' \<and> \<not> marked ResetPending w')
      (\<lambda>_ w'. exposed w' = exposed w \<or> marked Enabled w' \<and> \<not> marked ResetPending w') w1"
    unfolding wp_if using w1 by (auto simp: wp_err intro!: wp_bind [OF 1] wp_bind [OF 2] 3)
qed auto

lemma disable_outcome:
  assumes "good w"
  shows "wp (disable True b) (\<lambda>_ w'. \<not> exposed w' \<and> \<not> marked Enabled w') (\<lambda>_ w'. exposed w' \<longrightarrow> exposed w) w"
proof -
  have "exposed w' \<longrightarrow> exposed w" if e: "disable True b w = (Inl e, w')" for e w'
  proof -
    obtain r w1 where 1: "run_worker b DISABLE_UNIT w = (r, w1)" by fastforce
    have x: "exposed w1 = exposed w" "r = Inr () \<longrightarrow> good w1" using worker_law [OF assms _ 1] by auto
    obtain q w2 where 2: "stop_remoted b w1 = (q, w2)" by fastforce
    obtain p w3 where 3: "backend_auth b CancelPendingPairing w2 = (p, w3)" by fastforce
    show ?thesis
      using e 1 2 3 x stop_law [OF _ 2] auth_law [OF _ 3]
      by (auto simp: disable_def auth_def and_then_def map_err_def split: sum.splits)
  qed
  then show ?thesis using disable_done [OF assms] by (auto simp: wp_run)
qed

end

end
