(* ===== verification/Device.thy ===== *)
theory Device
  imports Service Worker_Effects Platform_Remote
begin

text \<open>
  The remote-management sequences of platformd on the device they control: the units of systemd run the worker on
  the state directory, the calls to Auth1 run the authentication core, and sl-remoted runs under the conditions of its
  unit file.  A call over the bus may be lost, its answer may be lost, it may be late, and a unit that was started may
  do its work at any later time.  The theory discharges the laws of \<open>remote_backend\<close> for \<open>system_backend\<close> on
  this device.  The boot reset has been done or was not asked for.
\<close>

section \<open>The device\<close>

text \<open>Jobs that the service manager has queued are done before a call or later.\<close>

record device_weather = weather +
  jobs_done :: bool

record device_env =
  worker :: "core worker_env"
  machine :: machine_env
  remoted_gid :: "u32 option"
  weather_at :: "nat \<Rightarrow> device_weather"
  observation :: string
  from_json :: "string \<Rightarrow> network_status option"

datatype job = Start string | Stop string

record device =
  workspace :: "core wstate"
  remoted_active :: bool
  unit_results :: "string \<Rightarrow> string"
  jobs :: "(string \<times> job) list"
  bus_calls :: nat

text \<open>\<^verbatim>\<open>ExecStart\<close> of the worker units, and the conditions of \<^verbatim>\<open>sl-remoted.service\<close>.
  The worker writes markers as regular files only, so an entry is what \<^verbatim>\<open>ConditionPathExists\<close> asks for; the link to the
  current identity is followed.\<close>

definition unit_arguments :: "string \<Rightarrow> string list option" where
  "unit_arguments name =
     (if name = ENABLE_UNIT then Some [''enable'']
      else if name = DISABLE_UNIT then Some [''disable'']
      else if name = ROTATE_UNIT then Some [''rotate-tls'']
      else if name = CLEAR_RESET_UNIT then Some [''clear-reset-pending'']
      else None)"

definition path_exists :: "fs \<Rightarrow> path \<Rightarrow> bool" where
  "path_exists d p \<longleftrightarrow>
     (case map_of d p of
        Some (Symlink target) \<Rightarrow> map_of d (butlast p @ [target]) \<noteq> None
      | Some _ \<Rightarrow> True
      | None \<Rightarrow> False)"

definition remoted_conditions :: "fs \<Rightarrow> bool" where
  "remoted_conditions d \<longleftrightarrow>
     map_of d (STATE_DIR @ [ENABLED]) \<noteq> None \<and> path_exists d (tls_path @ [CURRENT]) \<and>
     map_of d (STATE_DIR @ [RESET_PENDING]) = None"

definition run_job :: "device_env \<Rightarrow> job \<Rightarrow> device \<Rightarrow> device" where
  "run_job env j s =
     (case j of
        Start u \<Rightarrow>
          if u = REMOTED_UNIT
          then (if remoted_conditions (disk (wd (workspace s))) then s\<lparr>remoted_active := True\<rparr> else s)
          else (case unit_arguments u of
                  None \<Rightarrow> s
                | Some args \<Rightarrow>
                    (case worker_main (worker env) (remoted_gid env) args (workspace s) of
                       (exit, ws) \<Rightarrow> s\<lparr>workspace := ws,
                         unit_results := (unit_results s)(u := if exit = 0 then ''success'' else ''exit-code'')\<rparr>))
      | Stop u \<Rightarrow> if u = REMOTED_UNIT then s\<lparr>remoted_active := False\<rparr> else s)"

definition settle :: "device_env \<Rightarrow> device \<Rightarrow> device" where
  "settle env s = (fold (\<lambda>(_, j). run_job env j) (jobs s) s)\<lparr>jobs := []\<rparr>"

definition before :: "device_env \<Rightarrow> device \<Rightarrow> device" where
  "before env s =
     (let s' = s\<lparr>bus_calls := bus_calls s + 1\<rparr>
      in if jobs_done (weather_at env (bus_calls s)) then settle env s' else s')"

abbreviation carry :: "device_env \<Rightarrow> (device \<Rightarrow> (zbus_error + 'a) \<times> device) \<Rightarrow> (device, 'a) call" where
  "carry env act \<equiv> lossy (\<lambda>s. weather_at env (bus_calls s)) (before env) act"

definition shown_state :: "device \<Rightarrow> string \<Rightarrow> string" where
  "shown_state s u =
     (if u = REMOTED_UNIT then (if remoted_active s then ''active'' else ''inactive'')
      else if unit_results s u = ''success'' then ''inactive'' else ''failed'')"

text \<open>The object path of a unit is its name here.\<close>

definition device_systemd :: "device_env \<Rightarrow> device systemd" where
  "device_systemd env =
     \<lparr>load_unit = (\<lambda>u. carry env (\<lambda>s. (Inr u, s))),
      unit_property = (\<lambda>u _ p. carry env (\<lambda>s. (Inr (if p = ''Result'' then unit_results s u else shown_state s u), s))),
      main_status = (\<lambda>u. carry env (\<lambda>s. (Inr (if unit_results s u = ''success'' then 0 else 1), s))),
      invocation_id = (\<lambda>u. carry env (\<lambda>s. (Inr [], s))),
      start_unit = (\<lambda>u _. carry env (\<lambda>s. let j = decimal (bus_calls s) in (Inr j, s\<lparr>jobs := jobs s @ [(j, Start u)]\<rparr>))),
      stop_unit = (\<lambda>u _. carry env (\<lambda>s. let j = decimal (bus_calls s) in (Inr j, s\<lparr>jobs := jobs s @ [(j, Stop u)]\<rparr>))),
      list_jobs = carry env (\<lambda>s. (Inr (map fst (jobs s)), s)),
      manager_state = carry env (\<lambda>s. (Inr ''running'', s)),
      failed_count = carry env (\<lambda>s. (Inr 0, s))\<rparr>"

text \<open>A call to Auth1 runs the authentication core.\<close>

definition auth_request :: "string \<Rightarrow> request option" where
  "auth_request name =
     (if name = ''EnsurePendingPairing'' then Some request.EnsurePendingPairing
      else if name = ''CancelPendingPairing'' then Some request.CancelPendingPairing
      else if name = ''ResetEnrollment'' then Some request.ResetEnrollment
      else None)"

definition with_auth :: "device_env \<Rightarrow> request \<Rightarrow> device \<Rightarrow> (zbus_error + reply) \<times> device" where
  "with_auth env req s =
     (case execute (machine env) req (wstate.auth (workspace s)) of
        (r, a) \<Rightarrow> (case r of Inl f \<Rightarrow> Inl (case to_dbus f of (name, message) \<Rightarrow> ErrorReply name (Some message)) | Inr x \<Rightarrow> Inr x, s\<lparr>workspace := (workspace s)\<lparr>wstate.auth := a\<rparr>\<rparr>))"

definition device_remote_env :: "device_env \<Rightarrow> device remote_env" where
  "device_remote_env env =
     \<lparr>services = device_systemd env,
      auth_member = (\<lambda>name. carry env (\<lambda>s.
        case auth_request name of
          None \<Rightarrow> (Inl (Failure ''unknown member''), s)
        | Some req \<Rightarrow> map_prod (map_sum id (\<lambda>_. ())) id (with_auth env req s))),
      auth_pending = carry env (\<lambda>s. map_prod (\<lambda>r. case r of
          Inr (Pending p c e) \<Rightarrow> Inr (p, c, e) | Inr _ \<Rightarrow> Inl (Failure ''unknown member'') | Inl e \<Rightarrow> Inl e) id
        (with_auth env GetPendingPairing s)),
      observer_status = carry env (\<lambda>s. (Inr (observation env), s)),
      network_from_str = from_json env,
      files_io = io (worker env),
      files_of = (\<lambda>s. wd (workspace s)),
      put_files = (\<lambda>f s. s\<lparr>workspace := (workspace s)\<lparr>wd := f\<rparr>\<rparr>)\<rparr>"

definition exposed_device :: "device timed \<Rightarrow> bool" where
  "exposed_device w = remoted_active (outside w)"

definition marked_device :: "marker_kind \<Rightarrow> device timed \<Rightarrow> bool" where
  "marked_device k w =
     (map_of (disk (wd (workspace (outside w)))) (STATE_DIR @ [case k of Enabled \<Rightarrow> ENABLED | ResetPending \<Rightarrow> RESET_PENDING]) \<noteq> None)"

definition cleared_device :: "device timed \<Rightarrow> bool" where
  "cleared_device w \<longleftrightarrow> persisted (wstate.auth (workspace (outside w))) = Some Unenrolled"

definition calm_device :: "device_env \<Rightarrow> device timed \<Rightarrow> bool" where
  "calm_device env w \<longleftrightarrow> jobs (outside w) = [] \<and> openssl_ok (worker env) \<and> random_ok (worker env)"
section \<open>Reasoning about calls\<close>

lemma wp_poll:
  fixes f :: "('s, 'e, 'r) block" and c :: "('s, 'x) call"
  assumes step: "\<And>d w. f d w = (case await c d w of
        (Inl e, w') \<Rightarrow> (Inl e, w')
      | (Inr x, w') \<Rightarrow>
          (case g x of
             Some r \<Rightarrow> (Inr r, w')
           | None \<Rightarrow> (case pause POLL_INTERVAL d w' of (Inl e, w2) \<Rightarrow> (Inl e, w2) | (Inr _, w2) \<Rightarrow> f d w2)))"
    and call: "\<And>w. I (outside w) \<Longrightarrow> wp (await c d :: ('s timed, 'e stopped, 'x) op)
      (\<lambda>x w'. I (outside w') \<and> (\<forall>r. g x = Some r \<longrightarrow> Q r (outside w'))) (\<lambda>_ w'. E (outside w')) w"
    and weak: "\<And>s. I s \<Longrightarrow> E s"
  shows "I (outside w) \<Longrightarrow> wp (f d) (\<lambda>r w'. Q r (outside w')) (\<lambda>_ w'. E (outside w')) w"
proof (induction "d - clock w" arbitrary: w rule: less_induct)
  case less
  obtain r :: "'e stopped + 'x" and w' where w': "await c d w = (r, w')" by fastforce
  have c: "case r of Inl _ \<Rightarrow> E (outside w') | Inr x \<Rightarrow> I (outside w') \<and> (\<forall>y. g x = Some y \<longrightarrow> Q y (outside w'))"
    using call [OF less.prems] w' by (auto simp: wp_def split: sum.splits)
  show ?case
  proof (cases "\<exists>x. r = Inr x \<and> g x = None")
    case False
    then show ?thesis by (cases r) (use c in \<open>auto simp: wp_def step [of d w] w' split: option.splits\<close>)
  next
    case True
    then obtain x where x: "r = Inr x" "g x = None" by blast
    obtain q :: "'e stopped + unit" and w2 where w2: "pause POLL_INTERVAL d w' = (q, w2)" by fastforce
    have I: "I (outside w2)" using c x w2 by (auto simp: pause_def split: if_splits)
    show ?thesis
    proof (cases q)
      case (Inr u)
      have "d - clock w2 < d - clock w"
        using poll_progress [OF w' [symmetric, unfolded x(1)] w2 [symmetric, unfolded Inr]] by (simp add: POLL_INTERVAL_def)
      from less.hyps [OF this I] show ?thesis using w' w2 x Inr step [of d w] by (simp add: wp_def)
    qed (use w' w2 x I weak step [of d w] in \<open>simp add: wp_def\<close>)
  qed
qed

lemma before_quiet: "jobs s = [] \<Longrightarrow> before env s = s\<lparr>bus_calls := bus_calls s + 1\<rparr>"
  by (simp add: before_def settle_def Let_def)

lemma before_one: "jobs s = [(n, j)] \<Longrightarrow>
  before env s = s\<lparr>bus_calls := bus_calls s + 1\<rparr> \<or> before env s = (run_job env j (s\<lparr>bus_calls := bus_calls s + 1\<rparr>))\<lparr>jobs := []\<rparr>"
  by (simp add: before_def settle_def Let_def)

lemmas device_calls = device_systemd_def systemd.simps device_remote_env_def remote_env.simps

lemma run_job_fields [simp]:
  "jobs (run_job env j s) = jobs s" "bus_calls (run_job env j s) = bus_calls s"
  by (auto simp: run_job_def split: job.splits option.splits prod.splits)

text \<open>A worker's job changes neither sl-remoted nor sl-authd.\<close>

lemma unit_modes:
  assumes "unit_arguments u = Some args"
  shows "\<exists>m. parse_mode args = Some m \<and> m \<noteq> BootReset"
  using assms by (auto simp: unit_arguments_def parse_mode_def mode_parse_def split: if_splits)

lemma worker_main_auth:
  assumes "parse_mode args = Some m" "m \<noteq> BootReset"
  shows "wstate.auth (snd (worker_main env gid args s)) = wstate.auth s"
proof -
  have "wstate.auth (snd (Worker.run_worker e m s)) = wstate.auth s" for e
    using run_worker_auth [OF assms(2), of "wstate.auth s" e] by (simp add: preserves_def)
  then show ?thesis using assms(1) by (auto simp: worker_main_def Let_def split: prod.splits option.splits)
     (metis snd_conv)+
qed

lemma run_job_worker:
  assumes "u \<noteq> REMOTED_UNIT"
  shows "remoted_active (run_job env (Start u) s) = remoted_active s"
    "wstate.auth (workspace (run_job env (Start u) s)) = wstate.auth (workspace s)"
  using assms unit_modes [of u] worker_main_auth [of _ _ "worker env" "remoted_gid env" "workspace s"]
  by (auto simp: run_job_def split: option.splits prod.splits) (metis snd_conv)

definition stays :: "device_env \<Rightarrow> (device \<Rightarrow> bool) \<Rightarrow> bool" where
  "stays env I \<longleftrightarrow> (\<forall>s. I s \<longrightarrow> I (before env s))"

lemma wp_read:
  assumes "I (outside w)" "stays env I" "\<And>s. I s \<Longrightarrow> E s"
  shows "wp (await (carry env (\<lambda>s. (Inr (f s), s))) d) (\<lambda>x w'. I (outside w') \<and> x = f (outside w')) (\<lambda>_ w'. E (outside w')) w"
  by (rule wp_lossy_read) (use assms in \<open>auto simp: stays_def\<close>)

section \<open>Running a worker\<close>

text \<open>\<open>still\<close> is what a worker leaves alone.  While its job waits, \<open>A\<close> holds of the workspace; once it is done and has
  succeeded, \<open>B\<close> does.\<close>

definition still :: "bool \<Rightarrow> core \<Rightarrow> device \<Rightarrow> bool" where
  "still x a s \<longleftrightarrow> remoted_active s = x \<and> wstate.auth (workspace s) = a"

definition ready_for :: "(core wstate \<Rightarrow> bool) \<Rightarrow> bool \<Rightarrow> core \<Rightarrow> device \<Rightarrow> bool" where
  "ready_for A x a s \<longleftrightarrow> still x a s \<and> jobs s = [] \<and> A (workspace s)"

definition finished :: "string \<Rightarrow> (core wstate \<Rightarrow> bool) \<Rightarrow> bool \<Rightarrow> core \<Rightarrow> device \<Rightarrow> bool" where
  "finished u B x a s \<longleftrightarrow> still x a s \<and> jobs s = [] \<and> (unit_results s u = ''success'' \<longrightarrow> B (workspace s))"

definition queued :: "string \<Rightarrow> string \<Rightarrow> (core wstate \<Rightarrow> bool) \<Rightarrow> bool \<Rightarrow> core \<Rightarrow> device \<Rightarrow> bool" where
  "queued n u A x a s \<longleftrightarrow> still x a s \<and> jobs s = [(n, Start u)] \<and> A (workspace s)"

definition achieves :: "device_env \<Rightarrow> string \<Rightarrow> (core wstate \<Rightarrow> bool) \<Rightarrow> (core wstate \<Rightarrow> bool) \<Rightarrow> bool" where
  "achieves env u A B \<longleftrightarrow> u \<noteq> REMOTED_UNIT \<and>
     (\<forall>s. A (workspace s) \<and> unit_results (run_job env (Start u) s) u = ''success'' \<longrightarrow> B (workspace (run_job env (Start u) s)))"

lemma stays_ready: "stays env (ready_for A x a)"
  by (auto simp: stays_def ready_for_def still_def before_quiet)

lemma stays_finished: "stays env (finished u B x a)"
  by (auto simp: stays_def finished_def still_def before_quiet)

lemma stays_queued:
  assumes "achieves env u A B"
  shows "stays env (\<lambda>s. queued n u A x a s \<or> finished u B x a s)"
proof -
  have "queued n u A x a (before env s) \<or> finished u B x a (before env s)" if q: "queued n u A x a s" for s
  proof -
    have j: "jobs s = [(n, Start u)]" and A: "A (workspace (s\<lparr>bus_calls := bus_calls s + 1\<rparr>))" using q by (simp_all add: queued_def)
    show ?thesis
      using before_one [OF j, of env] assms A q
      by (elim disjE) (auto simp: queued_def finished_def still_def achieves_def run_job_worker)
  qed
  then show ?thesis using stays_finished [of env u B x a] unfolding stays_def by blast
qed

lemma wp_start_unit:
  assumes "ready_for A x a (outside w)"
  shows "wp (await (start_unit (device_systemd env) u mode) d) (\<lambda>n w'. queued n u A x a (outside w'))
    (\<lambda>_ w'. still x a (outside w')) w"
  unfolding device_calls Let_def
  by (rule wp_lossy [where I = "ready_for A x a" and B = "ready_for A x a"])
    (use assms stays_ready [of env A x a] in \<open>auto simp: stays_def ready_for_def queued_def still_def\<close>)

lemma wp_wait_job:
  assumes "achieves env u A B" "queued n u A x a (outside w)"
  shows "wp (wait_job (device_systemd env) n d) (\<lambda>_ w'. finished u B x a (outside w')) (\<lambda>_ w'. still x a (outside w')) w"
proof (rule wp_poll [where g = "\<lambda>jobs. if job_pending jobs n then None else Some ()" and c = "list_jobs (device_systemd env)"
        and I = "\<lambda>s. queued n u A x a s \<or> finished u B x a s"])
  show "queued n u A x a (outside w) \<or> finished u B x a (outside w)" using assms(2) by simp
  show "still x a s" if "queued n u A x a s \<or> finished u B x a s" for s
    using that by (auto simp: queued_def finished_def)
  show "wp (await (list_jobs (device_systemd env)) d) (\<lambda>l w'. (queued n u A x a (outside w') \<or> finished u B x a (outside w')) \<and>
      (\<forall>r. (if job_pending l n then None else Some ()) = Some r \<longrightarrow> finished u B x a (outside w')))
      (\<lambda>_ w'. still x a (outside w')) w"
    if I: "queued n u A x a (outside w) \<or> finished u B x a (outside w)" for w
    unfolding device_calls
    by (rule wp_weaken [OF wp_read [where I = "\<lambda>s. queued n u A x a s \<or> finished u B x a s" and E = "still x a", OF I stays_queued [OF assms(1)]]])
      (auto simp: queued_def finished_def job_pending_def)
qed (subst wait_job.simps, simp split: prod.splits sum.splits)

lemma wp_unit_state:
  assumes "I (outside w)" "stays env I" "\<And>s. I s \<Longrightarrow> E s"
  shows "wp (await (load_unit (device_systemd env) u) d) (\<lambda>p w'. I (outside w') \<and> p = u) (\<lambda>_ w'. E (outside w')) w"
    "wp (await (unit_property (device_systemd env) u i ''ActiveState'') d)
      (\<lambda>s w'. I (outside w') \<and> s = shown_state (outside w') u) (\<lambda>_ w'. E (outside w')) w"
    "wp (await (unit_property (device_systemd env) u i ''Result'') d)
      (\<lambda>s w'. I (outside w') \<and> s = unit_results (outside w') u) (\<lambda>_ w'. E (outside w')) w"
  using wp_read [where E = E and f = "\<lambda>_. u", OF assms, of d] wp_read [where E = E and f = "\<lambda>s. shown_state s u", OF assms, of d]
    wp_read [where E = E and f = "\<lambda>s. unit_results s u", OF assms, of d]
  by (simp_all add: device_calls)

lemmas ready_reads = wp_unit_state [where I = "ready_for A x a" and E = "still x a" for A x a, OF _ stays_ready]
lemmas finished_reads = wp_unit_state [where I = "finished u B x a" and E = "still x a" for u B x a, OF _ stays_finished]

lemma wp_run_worker_rest:
  assumes ach: "achieves env u A B" and w: "ready_for A x a (outside w)"
  shows "wp (and_then (await (start_unit (device_systemd env) u ''fail'') d) (\<lambda>job.
       and_then (wait_job (device_systemd env) job d) (\<lambda>_.
       and_then (await (unit_property (device_systemd env) u SYSTEMD_UNIT ''ActiveState'') d) (\<lambda>active.
       and_then (await (unit_property (device_systemd env) u SYSTEMD_SERVICE ''Result'') d) (\<lambda>res.
       ok (if worker_succeeded active res then Inr () else Inl WorkerFailed))))))
    (\<lambda>r w'. still x a (outside w') \<and> (r = Inr () \<longrightarrow> jobs (outside w') = [] \<and> B (workspace (outside w'))))
    (\<lambda>_ w'. still x a (outside w')) w"
proof (rule wp_bind [OF wp_start_unit [OF w]], rule wp_bind [OF wp_wait_job [OF ach]], assumption, rule wp_bind [OF finished_reads(2)], assumption)
  show "still x a s" if "finished u B x a s" for s using that by (simp add: finished_def)
  fix active and w' :: "device timed" assume w': "finished u B x a (outside w') \<and> active = shown_state (outside w') u"
  show "wp (and_then (await (unit_property (device_systemd env) u SYSTEMD_SERVICE ''Result'') d) (\<lambda>res.
       ok (if worker_succeeded active res then Inr () else Inl WorkerFailed)))
    (\<lambda>r w'. still x a (outside w') \<and> (r = Inr () \<longrightarrow> jobs (outside w') = [] \<and> B (workspace (outside w'))))
    (\<lambda>_ w'. still x a (outside w')) w'"
    by (rule wp_bind [OF finished_reads(3) [OF conjunct1 [OF w']]]) (auto simp: wp_ok worker_succeeded_def finished_def)
qed auto

lemma wp_run_worker_block:
  assumes ach: "achieves env u A B" and w: "ready_for A x a (outside w)"
  shows "wp (run_worker_block (device_systemd env) u d)
    (\<lambda>r w'. still x a (outside w') \<and> (r = Inr () \<longrightarrow> jobs (outside w') = [] \<and> B (workspace (outside w'))))
    (\<lambda>_ w'. still x a (outside w')) w"
  unfolding run_worker_block_def
proof (rule wp_bind [OF ready_reads(1) [OF w]])
  show r: "still x a s" if "ready_for A x a s" for s using that by (simp add: ready_for_def)
  fix p and w' :: "device timed" assume "ready_for A x a (outside w') \<and> p = u"
  then have w': "ready_for A x a (outside w')" and p: "p = u" by simp_all
  show "wp (and_then (await (unit_property (device_systemd env) p SYSTEMD_UNIT ''ActiveState'') d) (\<lambda>active.
     if \<not> idle active then ok (Inl WorkerBusy)
     else
       and_then (await (start_unit (device_systemd env) u ''fail'') d) (\<lambda>job.
       and_then (wait_job (device_systemd env) job d) (\<lambda>_.
       and_then (await (unit_property (device_systemd env) p SYSTEMD_UNIT ''ActiveState'') d) (\<lambda>active.
       and_then (await (unit_property (device_systemd env) p SYSTEMD_SERVICE ''Result'') d) (\<lambda>res.
       ok (if worker_succeeded active res then Inr () else Inl WorkerFailed)))))))
    (\<lambda>r w'. still x a (outside w') \<and> (r = Inr () \<longrightarrow> jobs (outside w') = [] \<and> B (workspace (outside w'))))
    (\<lambda>_ w'. still x a (outside w')) w'"
    unfolding p by (rule wp_bind [OF ready_reads(2) [OF w']]) (auto simp: wp_ok wp_if intro: wp_run_worker_rest [OF ach] r)
qed auto

lemma system_run_worker_device:
  assumes "achieves env u A B" "jobs (outside w) = []" "A (workspace (outside w))"
    and run: "system_run_worker (device_remote_env env) u w = (r, w')"
  shows "remoted_active (outside w') = remoted_active (outside w) \<and>
    wstate.auth (workspace (outside w')) = wstate.auth (workspace (outside w)) \<and>
    (r = Inr () \<longrightarrow> jobs (outside w') = [] \<and> B (workspace (outside w')))"
proof -
  have "ready_for A (remoted_active (outside w)) (wstate.auth (workspace (outside w))) (outside w)"
    using assms(2,3) by (simp add: ready_for_def still_def)
  from wp_run_worker_block [OF assms(1) this, of "clock w + WORKER_TIMEOUT"] show ?thesis
    using run by (auto simp: system_run_worker_def timeout_def wp_def still_def device_remote_env_def split: prod.splits sum.splits)
qed

lemma openssl_ownership [simp]: "openssl_ok (env\<lparr>ownership := own\<rparr>) = openssl_ok env" "random_ok (env\<lparr>ownership := own\<rparr>) = random_ok env"
  by (simp_all add: openssl_ok_def random_ok_def)

lemma achieves_mode:
  assumes "unit_arguments u = Some args" "parse_mode args = Some m" "u \<noteq> REMOTED_UNIT"
    and run: "\<And>own s. A s \<Longrightarrow> wp (Worker.run_worker ((worker env)\<lparr>ownership := own\<rparr>) m) (\<lambda>_. B) (\<lambda>_ _. True) s"
  shows "achieves env u A B"
proof -
  have "B ws'" if A: "A ws" and m: "worker_main (worker env) (remoted_gid env) args ws = (0, ws')" for ws ws'
  proof -
    obtain own r where "Worker.run_worker ((worker env)\<lparr>ownership := own\<rparr>) m ws = (r, ws')" "is_ok r"
      using m assms(2) by (auto simp: worker_main_def Let_def split: prod.splits option.splits if_splits)
    then show ?thesis using run [OF A, of own] by (auto simp: wp_def is_ok_def split: sum.splits)
  qed
  then show ?thesis using assms(1,3) by (auto simp: achieves_def run_job_def split: prod.splits)
qed

lemma units_distinct [simp]:
  "ENABLE_UNIT \<noteq> REMOTED_UNIT" "DISABLE_UNIT \<noteq> REMOTED_UNIT" "ROTATE_UNIT \<noteq> REMOTED_UNIT" "CLEAR_RESET_UNIT \<noteq> REMOTED_UNIT"
  "unit_arguments ENABLE_UNIT = Some [''enable'']" "unit_arguments DISABLE_UNIT = Some [''disable'']"
  "unit_arguments ROTATE_UNIT = Some [''rotate-tls'']" "unit_arguments CLEAR_RESET_UNIT = Some [''clear-reset-pending'']"
  by (simp_all add: ENABLE_UNIT_def DISABLE_UNIT_def ROTATE_UNIT_def CLEAR_RESET_UNIT_def REMOTED_UNIT_def unit_arguments_def)

lemma modes_parse [simp]:
  "parse_mode [''enable''] = Some Enable" "parse_mode [''disable''] = Some Disable"
  "parse_mode [''rotate-tls''] = Some RotateTls" "parse_mode [''clear-reset-pending''] = Some ClearResetPending"
  by (simp_all add: parse_mode_def mode_parse_def)

lemma preserves_wp_T: "preserves I m \<Longrightarrow> I s \<Longrightarrow> wp m (\<lambda>_. I) (\<lambda>_ _. True) s"
  by (rule wp_weaken [OF preservesD]) auto

lemma achieves_units:
  assumes "openssl_ok (worker env)" "random_ok (worker env)"
  shows "achieves env ENABLE_UNIT (\<lambda>_. True) (\<lambda>t. marked_on ENABLED True t \<and> marked_on RESET_PENDING False t)"
    "achieves env DISABLE_UNIT (\<lambda>_. True) (marked_on ENABLED False)"
    "n \<in> {ENABLED, RESET_PENDING} \<Longrightarrow> achieves env ROTATE_UNIT (marked_on n v) (marked_on n v)"
    "achieves env CLEAR_RESET_UNIT (marked_on ENABLED v) (\<lambda>t. marked_on ENABLED v t \<and> marked_on RESET_PENDING False t)"
proof -
  show "achieves env ENABLE_UNIT (\<lambda>_. True) (\<lambda>t. marked_on ENABLED True t \<and> marked_on RESET_PENDING False t)"
    by (rule achieves_mode [OF units_distinct(5) modes_parse(1)]) (simp_all add: run_enable assms)
  show "achieves env DISABLE_UNIT (\<lambda>_. True) (marked_on ENABLED False)"
    by (rule achieves_mode [OF units_distinct(6) modes_parse(2)]) (simp_all add: run_disable)
  show "achieves env ROTATE_UNIT (marked_on n v) (marked_on n v)" if "n \<in> {ENABLED, RESET_PENDING}"
    by (rule achieves_mode [OF units_distinct(7) modes_parse(3)]) (auto intro!: preserves_wp_T run_rotate_keeps that simp: assms)
  show "achieves env CLEAR_RESET_UNIT (marked_on ENABLED v) (\<lambda>t. marked_on ENABLED v t \<and> marked_on RESET_PENDING False t)"
  proof (rule achieves_mode [OF units_distinct(8) modes_parse(4)])
    show "wp (Worker.run_worker ((worker env)\<lparr>ownership := own\<rparr>) ClearResetPending)
        (\<lambda>_ t. marked_on ENABLED v t \<and> marked_on RESET_PENDING False t) (\<lambda>_ _. True) s" if "marked_on ENABLED v s" for own s
      by (rule wp_mono [OF wp_conj [OF preserves_wp_T [OF run_clear(2) that] run_clear(1)]]) simp_all
  qed simp
qed

section \<open>sl-remoted and sl-authd\<close>

definition asleep :: "bool \<Rightarrow> core wstate \<Rightarrow> device \<Rightarrow> bool" where
  "asleep x v s \<longleftrightarrow> workspace s = v \<and> jobs s = [] \<and> remoted_active s = x"

definition justified :: "bool \<Rightarrow> core wstate \<Rightarrow> device \<Rightarrow> bool" where
  "justified x v s \<longleftrightarrow> workspace s = v \<and> (remoted_active s \<longrightarrow> x)"

text \<open>\<open>j\<close> waits and sl-remoted is in the state \<open>y\<close>, or nothing waits.\<close>

definition waiting :: "job \<Rightarrow> bool \<Rightarrow> bool \<Rightarrow> core wstate \<Rightarrow> device \<Rightarrow> bool" where
  "waiting j y x v s \<longleftrightarrow> justified x v s \<and> (jobs s = [] \<or> (\<exists>n. jobs s = [(n, j)]) \<and> remoted_active s = y)"

lemma stays_asleep: "stays env (asleep x v)"
  by (auto simp: stays_def asleep_def before_quiet)

lemma stays_starting: "remoted_conditions (disk (wd v)) \<longrightarrow> x \<Longrightarrow> stays env (waiting (Start REMOTED_UNIT) False x v)"
  using before_quiet [of _ env] before_one [of _ _ "Start REMOTED_UNIT" env]
  by (fastforce simp: stays_def waiting_def justified_def run_job_def)

lemma stays_stopping: "stays env (waiting (Stop REMOTED_UNIT) True x v)"
  using before_quiet [of _ env] before_one [of _ _ "Stop REMOTED_UNIT" env]
  by (fastforce simp: stays_def waiting_def justified_def run_job_def)

lemma shown_remoted [simp]: "shown_state s REMOTED_UNIT = (if remoted_active s then ''active'' else ''inactive'')"
  by (simp add: shown_state_def)

lemma wp_queue_job:
  assumes "asleep y v (outside w)" "y \<longrightarrow> x"
  shows "wp (await (start_unit (device_systemd env) u mode) d) (\<lambda>_ w'. waiting (Start u) y x v (outside w')) (\<lambda>_ w'. justified x v (outside w')) w"
    "wp (await (stop_unit (device_systemd env) u mode) d) (\<lambda>_ w'. waiting (Stop u) y x v (outside w')) (\<lambda>_ w'. justified x v (outside w')) w"
  unfolding device_calls Let_def
  by (rule wp_lossy [where I = "asleep y v" and B = "asleep y v"];
      use assms stays_asleep [of env y v] in \<open>auto simp: stays_def asleep_def waiting_def justified_def\<close>)+

lemma wp_wait_active:
  assumes "remoted_conditions (disk (wd v)) \<longrightarrow> x" "waiting (Start REMOTED_UNIT) False x v (outside w)"
  shows "wp (wait_active (device_systemd env) REMOTED_UNIT d)
    (\<lambda>r w'. justified x v (outside w') \<and> (r \<longrightarrow> asleep True v (outside w'))) (\<lambda>_ w'. justified x v (outside w')) w"
proof (rule wp_poll [where g = "\<lambda>a. if a = ''active'' then Some True else if a = ''failed'' then Some False else None"
      and c = "unit_property (device_systemd env) REMOTED_UNIT SYSTEMD_UNIT ''ActiveState''" and I = "waiting (Start REMOTED_UNIT) False x v"])
  show "waiting (Start REMOTED_UNIT) False x v (outside w)" by (rule assms)
  show "justified x v s" if "waiting (Start REMOTED_UNIT) False x v s" for s using that by (simp add: waiting_def)
  then show "wp (await (unit_property (device_systemd env) REMOTED_UNIT SYSTEMD_UNIT ''ActiveState'') d)
      (\<lambda>a w'. waiting (Start REMOTED_UNIT) False x v (outside w') \<and>
        (\<forall>r. (if a = ''active'' then Some True else if a = ''failed'' then Some False else None) = Some r \<longrightarrow>
          justified x v (outside w') \<and> (r \<longrightarrow> asleep True v (outside w'))))
      (\<lambda>_ w'. justified x v (outside w')) w" if "waiting (Start REMOTED_UNIT) False x v (outside w)" for w
    by (intro wp_weaken [OF wp_unit_state(2) [OF that stays_starting [OF assms(1)]]])
      (auto simp: waiting_def justified_def asleep_def)
qed (subst wait_active.simps, simp split: prod.splits sum.splits)

lemma wp_wait_idle:
  assumes "waiting (Stop REMOTED_UNIT) True x v (outside w)"
  shows "wp (wait_idle (device_systemd env) REMOTED_UNIT d) (\<lambda>_ w'. asleep False v (outside w')) (\<lambda>_ w'. justified x v (outside w')) w"
proof (rule wp_poll [where g = "\<lambda>a. if idle a then Some () else None"
      and c = "unit_property (device_systemd env) REMOTED_UNIT SYSTEMD_UNIT ''ActiveState''" and I = "waiting (Stop REMOTED_UNIT) True x v"])
  show "waiting (Stop REMOTED_UNIT) True x v (outside w)" by (rule assms)
  show "justified x v s" if "waiting (Stop REMOTED_UNIT) True x v s" for s using that by (simp add: waiting_def)
  then show "wp (await (unit_property (device_systemd env) REMOTED_UNIT SYSTEMD_UNIT ''ActiveState'') d)
      (\<lambda>a w'. waiting (Stop REMOTED_UNIT) True x v (outside w') \<and>
        (\<forall>r. (if idle a then Some () else None) = Some r \<longrightarrow> asleep False v (outside w')))
      (\<lambda>_ w'. justified x v (outside w')) w" if "waiting (Stop REMOTED_UNIT) True x v (outside w)" for w
    by (intro wp_weaken [OF wp_unit_state(2) [OF that stays_stopping]])
      (auto simp: waiting_def justified_def asleep_def idle_def split: if_splits)
qed (subst wait_idle.simps, simp split: prod.splits sum.splits)

lemmas asleep_reads = wp_unit_state [where I = "asleep y v" and E = "justified x v" for y x v, OF _ stays_asleep]

lemma wp_start_remoted_block:
  assumes w: "asleep y v (outside w)" and x: "x = (y \<or> remoted_conditions (disk (wd v)))"
  shows "wp (start_remoted_block (device_systemd env) d)
    (\<lambda>r w'. justified x v (outside w') \<and> (r \<longrightarrow> asleep True v (outside w'))) (\<lambda>_ w'. justified x v (outside w')) w"
  unfolding start_remoted_block_def
proof (rule wp_bind [OF asleep_reads(1) [OF w]])
  show j: "justified x v s" if "asleep y v s" for s using that x by (auto simp: asleep_def justified_def)
  fix p and w1 :: "device timed" assume "asleep y v (outside w1) \<and> p = REMOTED_UNIT"
  then have w1: "asleep y v (outside w1)" and p: "p = REMOTED_UNIT" by simp_all
  show "wp (and_then (await (unit_property (device_systemd env) p SYSTEMD_UNIT ''ActiveState'') d) (\<lambda>active.
      if active = ''active'' then ok True
      else and_then (await (start_unit (device_systemd env) REMOTED_UNIT ''fail'') d) (\<lambda>_. wait_active (device_systemd env) p d)))
    (\<lambda>r w'. justified x v (outside w') \<and> (r \<longrightarrow> asleep True v (outside w'))) (\<lambda>_ w'. justified x v (outside w')) w1"
    unfolding p
  proof (rule wp_bind [OF asleep_reads(2) [OF w1 j]])
    fix active and w2 :: "device timed"
    assume "asleep y v (outside w2) \<and> active = shown_state (outside w2) REMOTED_UNIT"
    then have w2: "asleep y v (outside w2)" and a: "(active = ''active'') = y" by (auto simp: asleep_def)
    show "wp (if active = ''active'' then ok True
        else and_then (await (start_unit (device_systemd env) REMOTED_UNIT ''fail'') d) (\<lambda>_. wait_active (device_systemd env) REMOTED_UNIT d))
      (\<lambda>r w'. justified x v (outside w') \<and> (r \<longrightarrow> asleep True v (outside w'))) (\<lambda>_ w'. justified x v (outside w')) w2"
    proof (cases y)
      case True
      then show ?thesis using a w2 j by (auto simp: wp_ok)
    next
      case False
      have "wp (and_then (await (start_unit (device_systemd env) REMOTED_UNIT ''fail'') d) (\<lambda>_. wait_active (device_systemd env) REMOTED_UNIT d))
        (\<lambda>r w'. justified x v (outside w') \<and> (r \<longrightarrow> asleep True v (outside w'))) (\<lambda>_ w'. justified x v (outside w')) w2"
        by (rule wp_bind [OF wp_queue_job(1) [where x = x, OF w2]]) (use x False in \<open>auto intro!: wp_wait_active\<close>)
      then show ?thesis using a False by simp
    qed
  qed auto
qed auto

lemma wp_stop_remoted_block:
  assumes w: "asleep y v (outside w)"
  shows "wp (stop_remoted_block (device_systemd env) d)
    (\<lambda>_ w'. asleep False v (outside w')) (\<lambda>_ w'. justified y v (outside w')) w"
  unfolding stop_remoted_block_def
proof (rule wp_bind [OF asleep_reads(1) [OF w]])
  show j: "justified y v s" if "asleep y v s" for s using that by (auto simp: asleep_def justified_def)
  fix p and w1 :: "device timed" assume "asleep y v (outside w1) \<and> p = REMOTED_UNIT"
  then have w1: "asleep y v (outside w1)" and p: "p = REMOTED_UNIT" by simp_all
  show "wp (and_then (await (unit_property (device_systemd env) p SYSTEMD_UNIT ''ActiveState'') d) (\<lambda>active.
      if idle active then ok ()
      else and_then (await (stop_unit (device_systemd env) REMOTED_UNIT ''replace'') d) (\<lambda>_. wait_idle (device_systemd env) p d)))
    (\<lambda>_ w'. asleep False v (outside w')) (\<lambda>_ w'. justified y v (outside w')) w1"
    unfolding p
  proof (rule wp_bind [OF asleep_reads(2) [OF w1 j]])
    fix active and w2 :: "device timed"
    assume "asleep y v (outside w2) \<and> active = shown_state (outside w2) REMOTED_UNIT"
    then have w2: "asleep y v (outside w2)" and a: "idle active = (\<not> y)" by (auto simp: asleep_def idle_def)
    show "wp (if idle active then ok ()
        else and_then (await (stop_unit (device_systemd env) REMOTED_UNIT ''replace'') d) (\<lambda>_. wait_idle (device_systemd env) REMOTED_UNIT d))
      (\<lambda>_ w'. asleep False v (outside w')) (\<lambda>_ w'. justified y v (outside w')) w2"
    proof (cases y)
      case True
      have "wp (and_then (await (stop_unit (device_systemd env) REMOTED_UNIT ''replace'') d) (\<lambda>_. wait_idle (device_systemd env) REMOTED_UNIT d))
        (\<lambda>_ w'. asleep False v (outside w')) (\<lambda>_ w'. justified y v (outside w')) w2"
        by (rule wp_bind [OF wp_queue_job(2) [where x = y, OF w2]]) (use True in \<open>auto intro!: wp_wait_idle\<close>)
      then show ?thesis using a True by simp
    qed (use a w2 j in \<open>auto simp: wp_ok\<close>)
  qed auto
qed auto

lemma system_remoted_device:
  assumes "jobs (outside w) = []"
  shows "system_start_remoted (device_remote_env env) w = (r, w') \<Longrightarrow>
      workspace (outside w') = workspace (outside w) \<and>
      (remoted_active (outside w') \<longrightarrow> remoted_active (outside w) \<or> remoted_conditions (disk (wd (workspace (outside w))))) \<and>
      (r = Inr () \<longrightarrow> jobs (outside w') = [] \<and> remoted_active (outside w'))"
    "system_stop_remoted (device_remote_env env) w = (r, w') \<Longrightarrow>
      workspace (outside w') = workspace (outside w) \<and> (remoted_active (outside w') \<longrightarrow> remoted_active (outside w)) \<and>
      (r = Inr () \<longrightarrow> jobs (outside w') = [] \<and> \<not> remoted_active (outside w'))"
proof -
  have a: "asleep (remoted_active (outside w)) (workspace (outside w)) (outside w)" using assms by (simp add: asleep_def)
  have start: "wp (start_remoted_block (device_systemd env) d)
      (\<lambda>r w'. justified (remoted_active (outside w) \<or> remoted_conditions (disk (wd (workspace (outside w))))) (workspace (outside w)) (outside w') \<and>
        (r \<longrightarrow> asleep True (workspace (outside w)) (outside w')))
      (\<lambda>_ w'. justified (remoted_active (outside w) \<or> remoted_conditions (disk (wd (workspace (outside w))))) (workspace (outside w)) (outside w')) w" for d
    by (rule wp_start_remoted_block [OF a refl])
  show "system_start_remoted (device_remote_env env) w = (r, w') \<Longrightarrow>
      workspace (outside w') = workspace (outside w) \<and>
      (remoted_active (outside w') \<longrightarrow> remoted_active (outside w) \<or> remoted_conditions (disk (wd (workspace (outside w))))) \<and>
      (r = Inr () \<longrightarrow> jobs (outside w') = [] \<and> remoted_active (outside w'))"
    using start [of "clock w + REMOTED_TIMEOUT"]
    by (auto simp: system_start_remoted_def timeout_def wp_def and_then_def map_err_def ok_def err_def justified_def asleep_def
        device_remote_env_def split: prod.splits sum.splits if_splits)
  show "system_stop_remoted (device_remote_env env) w = (r, w') \<Longrightarrow>
      workspace (outside w') = workspace (outside w) \<and> (remoted_active (outside w') \<longrightarrow> remoted_active (outside w)) \<and>
      (r = Inr () \<longrightarrow> jobs (outside w') = [] \<and> \<not> remoted_active (outside w'))"
    using wp_stop_remoted_block [OF a, of env "clock w + REMOTED_TIMEOUT"]
    by (auto simp: system_stop_remoted_def timeout_def wp_def map_err_def justified_def asleep_def
        device_remote_env_def split: prod.splits sum.splits if_splits)
qed

text \<open>sl-authd keeps an unenrolled state through the calls that prepare or cancel a pairing, and a reset that is
  answered has removed the credential.\<close>

lemma unenrolled_prepare: "preserves (\<lambda>a. persisted a = Some Unenrolled) (prepare env)"
  by (auto simp: preserves_def prepare_def get_st_def boot_now_def reading_def modify_def drop_expired_def and_then_def
      lift_res_def ok_or_def ok_def split: sum.splits option.splits)

lemma unenrolled_readings:
  "preserves (\<lambda>a. persisted a = v) (boot_now env)" "preserves (\<lambda>a. persisted a = v) (random_bytes env n)"
  "preserves (\<lambda>a. persisted a = v) (wall_now env)" "preserves (\<lambda>a. persisted a = v) (reading f)"
  by (auto simp: preserves_def boot_now_def random_bytes_def wall_now_def reading_def and_then_def lift_res_def ok_def err_def
      split: sum.splits option.splits)

lemma unenrolled_modify: "(\<And>s. persisted (f s) = persisted s) \<Longrightarrow> preserves (\<lambda>a. persisted a = v) (modify f)"
  by (simp add: preserves_def modify_def)

lemma unenrolled_get: "preserves I get_st"
  by (simp add: preserves_def get_st_def)

lemma request_unenrolled:
  "preserves (\<lambda>a. persisted a = Some Unenrolled) (execute env request.EnsurePendingPairing)"
  "preserves (\<lambda>a. persisted a = Some Unenrolled) (execute env request.CancelPendingPairing)"
  unfolding execute.simps ensure_pending_pairing_def cancel_pending_pairing_def
  by (intro preserve_intros unenrolled_prepare unenrolled_readings unenrolled_modify unenrolled_get; simp)+

lemma reset_unenrolled:
  "execute env request.ResetEnrollment a = (Inr x, a') \<Longrightarrow> persisted a' = Some Unenrolled"
  by (auto simp: Machine.reset_enrollment_def commit_def and_then_def attempt_def modify_def on_part_def ok_def err_def
      split: sum.splits prod.splits if_splits)

lemma system_auth_device:
  assumes "jobs (outside w) = []" and run: "system_auth (device_remote_env env) c w = (r, w')"
  shows "jobs (outside w') = [] \<and> remoted_active (outside w') = remoted_active (outside w) \<and>
    wd (workspace (outside w')) = wd (workspace (outside w)) \<and>
    (cleared_device w \<and> c \<noteq> ResetEnrollment \<longrightarrow> cleared_device w') \<and> (c = ResetEnrollment \<and> r = Inr () \<longrightarrow> cleared_device w')"
proof -
  let ?s = "outside w"
  obtain req where req: "auth_request (member c) = Some req" by (cases c) (auto simp: auth_request_def)
  have keep: "preserves (\<lambda>a. persisted a = Some Unenrolled) (execute (machine env) req)" if "c \<noteq> ResetEnrollment"
    using req that request_unenrolled [of "machine env"] by (cases c) (auto simp: auth_request_def simp del: execute.simps)
  have reset: "persisted a' = Some Unenrolled" if "execute (machine env) req a = (Inr y, a')" "c = ResetEnrollment" for y a a'
    using req that reset_unenrolled [of "machine env" a y a'] by (auto simp: auth_request_def simp del: execute.simps)
  let ?q = "\<lambda>s. (jobs s = [] \<and> remoted_active s = remoted_active ?s \<and> wd (workspace s) = wd (workspace ?s)) \<and>
      (persisted (wstate.auth (workspace ?s)) = Some Unenrolled \<and> c \<noteq> ResetEnrollment \<longrightarrow> persisted (wstate.auth (workspace s)) = Some Unenrolled)"
  have "wp (await (auth_member (device_remote_env env) (member c)) d :: (device timed, unit stopped, unit) op)
      (\<lambda>_ w'. ?q (outside w') \<and> (c = ResetEnrollment \<longrightarrow> persisted (wstate.auth (workspace (outside w'))) = Some Unenrolled))
      (\<lambda>_ w'. ?q (outside w')) w" for d
    unfolding device_calls req option.case
  proof (rule wp_lossy [where I = "asleep (remoted_active ?s) (workspace ?s)" and B = "asleep (remoted_active ?s) (workspace ?s)"])
    show "asleep (remoted_active ?s) (workspace ?s) ?s" using assms(1) by (simp add: asleep_def)
    show "asleep (remoted_active ?s) (workspace ?s) (before env s)" if "asleep (remoted_active ?s) (workspace ?s) s" for s
      using that stays_asleep by (auto simp: stays_def)
    show "?q s" if "asleep (remoted_active ?s) (workspace ?s) s" for s using that by (simp add: asleep_def)
    show "?q s' \<and> (\<forall>x. r = Inr x \<longrightarrow> ?q s' \<and> (c = ResetEnrollment \<longrightarrow> persisted (wstate.auth (workspace s')) = Some Unenrolled))"
      if s: "asleep (remoted_active ?s) (workspace ?s) s" and e: "map_prod (map_sum id (\<lambda>_. ())) id (with_auth env req s) = (r, s')" for s r s'
    proof -
      obtain q a where q: "execute (machine env) req (wstate.auth (workspace s)) = (q, a)" by fastforce
      have k: "persisted a = Some Unenrolled" if "persisted (wstate.auth (workspace s)) = Some Unenrolled" "c \<noteq> ResetEnrollment"
        using keep [OF that(2)] that(1) q unfolding preserves_def by (metis snd_conv)
      have z: "persisted a = Some Unenrolled" if "c = ResetEnrollment" "q = Inr y" for y
        using reset that q by metis
      show ?thesis using s e q k z by (auto simp: with_auth_def asleep_def split: sum.splits)
    qed
  qed
  note wp = this [of "clock w + AUTH_TIMEOUT"]
  obtain q where q: "(await (auth_member (device_remote_env env) (member c)) (clock w + AUTH_TIMEOUT) :: (device timed, unit stopped, unit) op) w = (q, w')"
      "r = Inr () \<longrightarrow> q = Inr ()"
    using run by (auto simp: system_auth_def timeout_def map_err_def split: prod.splits sum.splits)
  show ?thesis using wp q by (cases q) (simp_all add: wp_def cleared_device_def)
qed

section \<open>The laws hold\<close>

definition marker_name :: "marker_kind \<Rightarrow> string" where
  "marker_name k = (case k of Enabled \<Rightarrow> ENABLED | ResetPending \<Rightarrow> RESET_PENDING)"

lemma marker_name_simps [simp]: "marker_name Enabled = ENABLED" "marker_name ResetPending = RESET_PENDING"
  "marker_name k \<in> {ENABLED, RESET_PENDING}"
  by (auto simp: marker_name_def split: marker_kind.splits)

lemma marked_device_present: "marked_device k w = v \<longleftrightarrow> marked_on (marker_name k) v (workspace (outside w))"
  by (auto simp: marked_device_def present_def marker_name_def split: marker_kind.splits)

lemma system_marker_device:
  assumes "system_marker_exists (device_remote_env env) k w = (r, w')"
  shows "jobs (outside w') = jobs (outside w) \<and> remoted_active (outside w') = remoted_active (outside w) \<and>
    (\<forall>k. marked_device k w' = marked_device k w) \<and> cleared_device w' = cleared_device w \<and> (\<forall>x. r = Inr x \<longrightarrow> x = marked_device k w)"
proof -
  let ?p = "STATE_DIR @ [marker_name k]"
  have "wp (symlink_metadata e ?p) (\<lambda>_ t. disk t = disk u \<and> map_of (disk u) ?p \<noteq> None)
      (\<lambda>x t. disk t = disk u \<and> (x = NotFound \<longrightarrow> map_of (disk u) ?p = None)) u" for e u
    by (auto simp: wp_simps Let_def stat_Inr dest: stat_Inl_None [rotated] split: sum.splits)
  from this [of "io (worker env)" "wd (workspace (outside w))"] show ?thesis
    using assms
    by (auto simp: system_marker_exists_def on_files_def on_part_def device_remote_env_def and_then_def attempt_def ok_def err_def
        marked_device_def cleared_device_def wp_def marker_name_def split: prod.splits sum.splits if_splits marker_kind.splits)
qed

lemma remoted_conditions_marked:
  "remoted_conditions (disk (wd (workspace (outside w)))) \<Longrightarrow> \<not> marked_device ResetPending w"
  "remoted_conditions (disk (wd (workspace (outside w)))) \<Longrightarrow> marked_device Enabled w"
  by (auto simp: remoted_conditions_def marked_device_def path_exists_def split: option.splits node.splits)

interpretation device: remote_backend "system_backend (device_remote_env env)" exposed_device marked_device cleared_device "calm_device env"
  for env
proof
  fix w w' :: "device timed" and m :: marker_kind and found
  assume g: "calm_device env w"
  show "calm_device env w' \<and> exposed_device w' = exposed_device w \<and> (\<forall>k. marked_device k w' = marked_device k w) \<and>
      cleared_device w' = cleared_device w \<and> (\<forall>x. found = Inr x \<longrightarrow> x = marked_device m w)"
    if "marker_exists (system_backend (device_remote_env env)) m w = (found, w')"
    using that system_marker_device [of env m w found w'] g by (auto simp: calm_device_def exposed_device_def)
next
  fix w w' :: "device timed" and u outcome
  assume g: "calm_device env w" and u: "u \<in> {ENABLE_UNIT, DISABLE_UNIT, ROTATE_UNIT, CLEAR_RESET_UNIT}"
    and run: "run_worker (system_backend (device_remote_env env)) u w = (outcome, w')"
  have "\<exists>m. unit_arguments u = Some m" using u by auto
  then obtain args m where m: "unit_arguments u = Some args" "parse_mode args = Some m" using unit_modes by blast
  have "achieves env u (\<lambda>_. True) (\<lambda>_. True)" by (rule achieves_mode [OF m]) (use u in \<open>auto simp: wp_True units_distinct(1-4) [symmetric]\<close>)
  from system_run_worker_device [OF this, of w outcome w'] show "(outcome = Inr () \<longrightarrow> calm_device env w') \<and> exposed_device w' = exposed_device w \<and> cleared_device w' = cleared_device w"
    using g run by (simp add: calm_device_def exposed_device_def cleared_device_def)
next
  fix w w' :: "device timed"
  assume g: "calm_device env w"
  then have ok: "openssl_ok (worker env)" "random_ok (worker env)" "jobs (outside w) = []" by (simp_all add: calm_device_def)
  note unit = achieves_units [OF ok(1,2)]
  show "marked_device Enabled w' \<and> \<not> marked_device ResetPending w'"
    if "run_worker (system_backend (device_remote_env env)) ENABLE_UNIT w = (Inr (), w')"
    using system_run_worker_device [OF unit(1) ok(3) TrueI] that marked_device_present [of Enabled w' True]
      marked_device_present [of ResetPending w' False] by simp
  show "\<not> marked_device Enabled w'"
    if "run_worker (system_backend (device_remote_env env)) DISABLE_UNIT w = (Inr (), w')"
    using system_run_worker_device [OF unit(2) ok(3) TrueI] that marked_device_present [of Enabled w' False] by simp
  show "marked_device k w' = marked_device k w"
    if "run_worker (system_backend (device_remote_env env)) ROTATE_UNIT w = (Inr (), w')" for k
    using system_run_worker_device [OF unit(3) [OF marker_name_simps(3)] ok(3)] that
      marked_device_present [of k w' "marked_device k w"] marked_device_present [of k w "marked_device k w"] by simp
  show "\<not> marked_device ResetPending w' \<and> marked_device Enabled w' = marked_device Enabled w"
    if "run_worker (system_backend (device_remote_env env)) CLEAR_RESET_UNIT w = (Inr (), w')"
    using system_run_worker_device [OF unit(4) ok(3)] that marked_device_present [of ResetPending w' False]
      marked_device_present [of Enabled w' "marked_device Enabled w"] marked_device_present [of Enabled w "marked_device Enabled w"] by simp
next
  fix w w' :: "device timed" and r
  assume g: "calm_device env w"
  then have ok: "jobs (outside w) = []" by (simp add: calm_device_def)
  have same: "marked_device k w' = marked_device k w" "cleared_device w' = cleared_device w"
    if "workspace (outside w') = workspace (outside w)" for k
    using that by (simp_all add: marked_device_def cleared_device_def)
  show "(r = Inr () \<longrightarrow> calm_device env w') \<and> (\<forall>k. marked_device k w' = marked_device k w) \<and> cleared_device w' = cleared_device w \<and>
      (r = Inr () \<longrightarrow> exposed_device w') \<and> (exposed_device w' \<longrightarrow> exposed_device w \<or> marked_device Enabled w \<and> \<not> marked_device ResetPending w)"
    if "start_remoted (system_backend (device_remote_env env)) w = (r, w')"
    using system_remoted_device(1) [OF ok] that g same remoted_conditions_marked [of w] by (auto simp: calm_device_def exposed_device_def)
  show "(r = Inr () \<longrightarrow> calm_device env w') \<and> (\<forall>k. marked_device k w' = marked_device k w) \<and> cleared_device w' = cleared_device w \<and>
      (r = Inr () \<longrightarrow> \<not> exposed_device w') \<and> (exposed_device w' \<longrightarrow> exposed_device w)"
    if "stop_remoted (system_backend (device_remote_env env)) w = (r, w')"
    using system_remoted_device(2) [OF ok] that g same by (auto simp: calm_device_def exposed_device_def)
next
  fix w w' :: "device timed" and r c
  assume g: "calm_device env w"
  show "calm_device env w' \<and> exposed_device w' = exposed_device w \<and> (\<forall>k. marked_device k w' = marked_device k w) \<and>
      (cleared_device w \<and> c \<noteq> ResetEnrollment \<longrightarrow> cleared_device w')"
    if "backend_auth (system_backend (device_remote_env env)) c w = (r, w')"
    using system_auth_device [of w env c r w'] that g by (simp add: calm_device_def exposed_device_def marked_device_def)
  show "cleared_device w'" if "backend_auth (system_backend (device_remote_env env)) ResetEnrollment w = (Inr (), w')"
    using system_auth_device [of w env ResetEnrollment "Inr ()" w'] that g by (simp add: calm_device_def)
qed

section \<open>The sequences on the device\<close>



subsection \<open>A device\<close>

definition demo_device_env :: device_env where
  "demo_device_env =
     \<lparr>worker = \<lparr>io = no_faults, openssl_runs = demo_openssl, reset_enrollment = map_err (\<lambda>_. ()) (Machine.reset_enrollment demo_machine),
        random8 = (\<lambda>t. Some (replicate 8 (word_of_nat t))), ownership = RemotedGroup 990, inject = (\<lambda>_ _. False)\<rparr>,
      machine = demo_machine, remoted_gid = Some 990,
      weather_at = (\<lambda>n. \<lparr>delivered = True, answered = True, took = 5, jobs_done = True\<rparr>),
      observation = [], from_json = (\<lambda>_. None)\<rparr>"

definition demo_device :: "device timed" where
  "demo_device = \<lparr>clock = 0, outside = \<lparr>workspace = \<lparr>wd = Worker_Identity.booted [([''var''], Dir), ([''var'', ''lib''], Dir)], auth = demo_core\<rparr>,
     remoted_active = False, unit_results = (\<lambda>_. ''success''), jobs = [], bus_calls = 0\<rparr>\<rparr>"

lemma demo_calm: "calm_device demo_device_env demo_device"
  using demo_openssl_ok [of "\<lambda>_. False"]
  by (simp add: calm_device_def demo_device_def demo_device_env_def openssl_ok_def random_ok_def Worker_Identity.demo_worker_def)

lemmas run_defs = and_then_def map_err_def attempt_def ok_def err_def on_part_def lift_res_def ok_or_def get_st_def modify_def

lemmas call_defs = await_def timeout_def lossy_def before_def settle_def Let_def run_job_def with_auth_def auth_request_def device_calls
  WORKER_TIMEOUT_def REMOTED_TIMEOUT_def AUTH_TIMEOUT_def job_pending_def idle_def worker_succeeded_def shown_state_def

lemmas worker_defs = worker_main_def Worker.run_worker_def remove_stale_temporaries_def remove_marker_def Worker.marker_exists_def
  on_world_def remove_file_def symlink_metadata_def sys_def no_faults_def Worker_Identity.booted_def stat_def missing_error_def
  marker_tmp_def path_defs name_defs current_tmp_def

lemma demo_disable: "fst (disable True (system_backend (device_remote_env demo_device_env)) demo_device) = Inr ()"
  by (simp add: disable_def system_run_worker_def system_stop_remoted_def system_auth_def auth_def run_worker_block_def
      stop_remoted_block_def wait_job.simps run_defs call_defs worker_defs demo_device_env_def demo_device_def demo_core_eq
      cancel_pending_pairing_def prepare_def boot_now_def reading_def drop_expired_def demo_machine_def)



end
