(* ===== verification/Console.thy ===== *)
theory Console
  imports Platform_Remote
begin

text \<open>
  The local appliance console (\<^verbatim>\<open>src/console/src/lib.rs\<close>, \<^verbatim>\<open>main.rs\<close>).  The trait \<^verbatim>\<open>Backend\<close> is the record
  \<open>console_backend\<close>; \<^verbatim>\<open>Controller\<close> is the record \<open>console\<close>, which holds the state of its backend; \<open>bus_backend\<close> is
  \<^verbatim>\<open>BusBackend\<close> over the timed calls of \<^verbatim>\<open>Bus\<close>.  The program of \<^verbatim>\<open>main.rs\<close> reads the lines of its terminal and prints its
  screens; it ends at the end of its input.  Printing does not fail here, and the outer loop that connects again is left out.
\<close>

section \<open>Data\<close>

definition READ_AUTH_TIMEOUT :: nat where "READ_AUTH_TIMEOUT = 30000"
definition LIFECYCLE_TIMEOUT :: nat where "LIFECYCLE_TIMEOUT = 60000"
definition REENROLL_TIMEOUT :: nat where "REENROLL_TIMEOUT = 110000"

record enrollment_info =
  url :: string
  shown_fingerprint :: string
  pairing_code :: string
  expires_at :: u64

record view =
  view_product :: string
  view_version :: string
  view_machine_id :: string
  view_remote :: remote_management_status
  view_enrollment :: enrollment_info
  view_authenticated :: bool
  view_reset_incomplete :: bool

datatype action = Enable | Disable | Reenroll

datatype auth_failure =
  NotEnrolled | EnrollmentUnconfirmed | InvalidCredential | PasswordRejected | RateLimited | AuthBusy | InvalidArgument | AuthDown

datatype platform_failure = ResetUnfinished | PlatformBusy | PlatformDown

datatype console_error = AuthenticationRequired | Auth auth_failure | Platform platform_failure | StatusUnavailable

record 'w console_backend =
  backend_status :: "('w, console_error, session_status) op"
  backend_enrollment :: "('w, console_error, enrollment_info) op"
  backend_verify_password :: "string \<Rightarrow> ('w, auth_failure, unit) op"
  backend_recover_password :: "string \<Rightarrow> string \<Rightarrow> ('w, auth_failure, unit) op"
  backend_platform :: "action \<Rightarrow> ('w, platform_failure, unit) op"

record 'w console =
  backend :: 'w
  authenticated :: bool
  last_enrolled :: "bool option"
  reset_incomplete :: bool

definition console_new :: "'w \<Rightarrow> 'w console" where
  "console_new b = \<lparr>backend = b, authenticated = False, last_enrolled = None, reset_incomplete = False\<rparr>"

definition on_backend :: "('w, 'e, 'a) op \<Rightarrow> ('w console, 'e, 'a) op" where
  "on_backend m = on_part backend (\<lambda>b c. c\<lparr>backend := b\<rparr>) m"

section \<open>The controller\<close>

definition console_status :: "'w console_backend \<Rightarrow> ('w console, console_error, session_status) op" where
  "console_status b =
     and_then (on_backend (backend_status b)) (\<lambda>st.
     let e = enrolled (remote_management st) in
     and_then (modify (\<lambda>c. if (case last_enrolled c of None \<Rightarrow> False | Some previous \<Rightarrow> previous \<noteq> e)
                           then c\<lparr>authenticated := False\<rparr> else c)) (\<lambda>_.
     and_then (modify (\<lambda>c. c\<lparr>last_enrolled := Some e\<rparr>)) (\<lambda>_.
     ok st)))"

definition no_enrollment :: enrollment_info where
  "no_enrollment = \<lparr>url = [], shown_fingerprint = [], pairing_code = [], expires_at = 0\<rparr>"

definition refresh :: "'w console_backend \<Rightarrow> ('w console, console_error, view) op" where
  "refresh b =
     and_then (console_status b) (\<lambda>st.
     and_then (attempt (on_backend (backend_enrollment b))) (\<lambda>r.
     and_then
       (case r of
          Inr info \<Rightarrow> and_then (modify (\<lambda>c. c\<lparr>reset_incomplete := False\<rparr>)) (\<lambda>_. ok info)
        | Inl e \<Rightarrow>
            if e = Platform ResetUnfinished
            then and_then (modify (\<lambda>c. c\<lparr>reset_incomplete := True\<rparr>)) (\<lambda>_. ok no_enrollment)
            else err e) (\<lambda>info.
     and_then get_st (\<lambda>c.
     ok \<lparr>view_product = product st, view_version = version st, view_machine_id = machine_id (machine st),
         view_remote = remote_management st, view_enrollment = info,
         view_authenticated = authenticated c, view_reset_incomplete = reset_incomplete c\<rparr>))))"

definition require_enrolled :: "'w console_backend \<Rightarrow> ('w console, console_error, unit) op" where
  "require_enrolled b =
     and_then (console_status b) (\<lambda>st.
     if \<not> enrolled (remote_management st)
     then and_then (modify (\<lambda>c. c\<lparr>authenticated := False\<rparr>)) (\<lambda>_. err (Auth NotEnrolled))
     else ok ())"

definition authenticate :: "'w console_backend \<Rightarrow> string \<Rightarrow> ('w console, console_error, unit) op" where
  "authenticate b password =
     and_then (require_enrolled b) (\<lambda>_.
     and_then (map_err Auth (on_backend (backend_verify_password b password))) (\<lambda>_.
     and_then (require_enrolled b) (\<lambda>_.
     modify (\<lambda>c. c\<lparr>authenticated := True\<rparr>))))"

definition logout :: "'w console \<Rightarrow> 'w console" where
  "logout c = c\<lparr>authenticated := False\<rparr>"

definition act :: "'w console_backend \<Rightarrow> action \<Rightarrow> ('w console, console_error, view) op" where
  "act b a =
     and_then (console_status b) (\<lambda>st.
     and_then get_st (\<lambda>c.
     if enrolled (remote_management st) \<and> \<not> authenticated c then err AuthenticationRequired
     else if a = Enable \<and> reset_incomplete c then err (Platform ResetUnfinished)
     else
       and_then (attempt (on_backend (backend_platform b a))) (\<lambda>r.
       case r of
         Inl e \<Rightarrow>
           and_then (if e = ResetUnfinished then modify (\<lambda>c. c\<lparr>reset_incomplete := True\<rparr>) else ok ()) (\<lambda>_.
           err (Platform e))
       | Inr _ \<Rightarrow>
           and_then (if a = Reenroll then modify (\<lambda>c. c\<lparr>authenticated := False, reset_incomplete := False\<rparr>) else ok ()) (\<lambda>_.
           refresh b))))"

definition recover_password :: "'w console_backend \<Rightarrow> string \<Rightarrow> string \<Rightarrow> ('w console, console_error, view) op" where
  "recover_password b key new =
     and_then (map_err Auth (on_backend (backend_recover_password b key new))) (\<lambda>_.
     and_then (modify (\<lambda>c. c\<lparr>authenticated := False\<rparr>)) (\<lambda>_.
     refresh b))"

section \<open>The bus\<close>

fun lifecycle_timeout :: "action \<Rightarrow> nat" where
  "lifecycle_timeout Enable = LIFECYCLE_TIMEOUT"
| "lifecycle_timeout Disable = LIFECYCLE_TIMEOUT"
| "lifecycle_timeout Reenroll = REENROLL_TIMEOUT"

definition error_code :: "zbus_error \<Rightarrow> string \<Rightarrow> string option" where
  "error_code e prefix = (case e of ErrorReply name _ \<Rightarrow> strip_prefix prefix name | _ \<Rightarrow> None)"

definition auth_failure :: "zbus_error \<Rightarrow> auth_failure" where
  "auth_failure e =
     (let code = error_code e ''org.signallayer.Auth1.Error.'' in
      if code = Some ''NotEnrolled'' then NotEnrolled
      else if code = Some ''EnrollmentUnconfirmed'' then EnrollmentUnconfirmed
      else if code = Some ''InvalidCredential'' then InvalidCredential
      else if code = Some ''PasswordRejected'' then PasswordRejected
      else if code = Some ''RateLimited'' then RateLimited
      else if code = Some ''Busy'' then AuthBusy
      else if code = Some ''InvalidArgument'' then InvalidArgument
      else AuthDown)"

definition platform_failure :: "zbus_error \<Rightarrow> platform_failure" where
  "platform_failure e =
     (let code = error_code e ''org.signallayer.Platform1.Error.'' in
      if code = Some ''ResetIncomplete'' then ResetUnfinished
      else if code = Some ''Busy'' then PlatformBusy
      else PlatformDown)"

text \<open>The services on the bus; \<open>session_from_str\<close> is \<^verbatim>\<open>serde_json::from_str\<close>.\<close>

record 's console_env =
  session_member :: "string \<Rightarrow> ('s, string) call"
  platform_enrollment :: "string \<Rightarrow> ('s, string \<times> string \<times> string \<times> u64) call"
  platform_member :: "string \<Rightarrow> ('s, unit) call"
  auth1_member :: "string \<Rightarrow> string list \<Rightarrow> ('s, unit) call"
  session_from_str :: "string \<Rightarrow> session_status option"

definition bus_call :: "nat \<Rightarrow> ('s, 'a) call \<Rightarrow> ('s timed, zbus_error, 'a) op" where
  "bus_call limit c w =
     (case timeout limit (await c :: ('s, unit, 'a) block) w of
        (Inr x, w') \<Rightarrow> (Inr x, w')
      | (Inl (BusError e), w') \<Rightarrow> (Inl e, w')
      | (Inl _, w') \<Rightarrow> (Inl (Failure ''local service request timed out''), w'))"

definition bus_status :: "'s console_env \<Rightarrow> ('s timed, console_error, session_status) op" where
  "bus_status env =
     and_then (map_err (\<lambda>_. StatusUnavailable) (bus_call READ_AUTH_TIMEOUT (session_member env ''GetPlatformStatus''))) (\<lambda>text.
     and_then (lift_res (ok_or StatusUnavailable (session_from_str env text))) (\<lambda>st.
     if schema_version st = SESSION_SCHEMA_VERSION then ok st else err StatusUnavailable))"

definition bus_enrollment :: "'s console_env \<Rightarrow> ('s timed, console_error, enrollment_info) op" where
  "bus_enrollment env =
     and_then (map_err (\<lambda>e. Platform (platform_failure e))
       (bus_call READ_AUTH_TIMEOUT (platform_enrollment env ''GetRemoteManagementEnrollment''))) (\<lambda>(u, f, c, e).
     ok \<lparr>url = u, shown_fingerprint = f, pairing_code = c, expires_at = e\<rparr>)"

fun platform_method :: "action \<Rightarrow> string" where
  "platform_method Enable = ''EnableRemoteManagement''"
| "platform_method Disable = ''DisableRemoteManagement''"
| "platform_method Reenroll = ''ReenrollRemoteManagement''"

definition bus_platform :: "'s console_env \<Rightarrow> action \<Rightarrow> ('s timed, platform_failure, unit) op" where
  "bus_platform env a = map_err platform_failure (bus_call (lifecycle_timeout a) (platform_member env (platform_method a)))"

definition bus_backend :: "'s console_env \<Rightarrow> 's timed console_backend" where
  "bus_backend env =
     \<lparr>backend_status = bus_status env, backend_enrollment = bus_enrollment env,
      backend_verify_password = (\<lambda>password.
        map_err auth_failure (bus_call READ_AUTH_TIMEOUT (auth1_member env ''VerifyPassword'' [password]))),
      backend_recover_password = (\<lambda>key new.
        map_err auth_failure (bus_call READ_AUTH_TIMEOUT (auth1_member env ''RecoverPassword'' [key, new]))),
      backend_platform = bus_platform env\<rparr>"

section \<open>The program\<close>

text \<open>\<open>hides_input\<close> says that standard input is a terminal whose attributes can be read and set.\<close>

record 'w terminal =
  controller :: "'w console"
  input :: "string list"
  screen :: "string list"
  hides_input :: bool

definition show_text :: "string \<Rightarrow> ('w terminal, 'e, unit) op" where
  "show_text s = modify (\<lambda>t. t\<lparr>screen := screen t @ [s]\<rparr>)"

definition on_controller :: "('w console, 'e, 'a) op \<Rightarrow> ('w terminal, 'e, 'a) op" where
  "on_controller m = on_part controller (\<lambda>c t. t\<lparr>controller := c\<rparr>) m"

definition newline :: string where "newline = [CHR 0x0A]"

definition clear_text :: string where "clear_text = [CHR 0x1B] @ ''[2J'' @ [CHR 0x1B] @ ''[H''"

definition read_line :: "nat \<Rightarrow> ('w terminal, unit, string) op" where
  "read_line limit t =
     (case input t of
        [] \<Rightarrow> (Inl (), t)
      | l # ls \<Rightarrow> (Inr (if limit < length l then ''<input-too-long>'' else l), t\<lparr>input := ls\<rparr>))"

definition trim_line_end :: "string \<Rightarrow> string" where
  "trim_line_end l = rev (dropWhile (\<lambda>c. c = CHR 0x0D \<or> c = CHR 0x0A) (rev l))"

definition read_secret :: "string \<Rightarrow> ('w terminal, unit, string) op" where
  "read_secret prompt =
     and_then (show_text prompt) (\<lambda>_.
     and_then get_st (\<lambda>t.
     if \<not> hides_input t then err ()
     else
       and_then (attempt (read_line 1025)) (\<lambda>line.
       and_then (show_text newline) (\<lambda>_.
       and_then (lift_res line) (\<lambda>l.
       ok (trim_line_end l))))))"

definition format_code :: "string \<Rightarrow> string" where
  "format_code code =
     (if length code = 8 \<and> list_all (\<lambda>c. (of_char c :: nat) < 128) code then take 4 code @ ''-'' @ drop 4 code
      else ''unavailable'')"

fun error_message :: "console_error \<Rightarrow> string" where
  "error_message AuthenticationRequired = ''Authenticate before using that operation.''"
| "error_message (Auth InvalidCredential) = ''Authentication failed.''"
| "error_message (Auth RateLimited) = ''Too many attempts. Wait before retrying.''"
| "error_message (Auth AuthBusy) = ''Authentication is busy. Try again shortly.''"
| "error_message (Auth PasswordRejected) = ''The new password does not meet the password requirements.''"
| "error_message (Auth NotEnrolled) = ''No operator is enrolled.''"
| "error_message (Auth EnrollmentUnconfirmed) = ''Enrollment recovery confirmation is incomplete.''"
| "error_message (Auth InvalidArgument) = ''The credential format is invalid.''"
| "error_message (Auth AuthDown) = ''The authentication service is unavailable.''"
| "error_message (Platform ResetUnfinished) = ''A reset did not finish. Choose Reenroll to repair remote management.''"
| "error_message (Platform PlatformBusy) = ''Another remote-management operation is in progress.''"
| "error_message (Platform PlatformDown) = ''Remote management is temporarily unavailable.''"
| "error_message StatusUnavailable = ''Appliance status is temporarily unavailable.''"

definition REPAIR_TEXT :: string where
  "REPAIR_TEXT = newline @ ''REPAIR REQUIRED: A reset did not finish. Choose Reenroll.'' @ newline"

definition render :: "view \<Rightarrow> string \<Rightarrow> string" where
  "render v message =
     ''SignalLayer CoreOS'' @ newline @ view_product v @ '' '' @ view_version v @ newline @
     ''Machine: '' @ view_machine_id v @ newline @ newline @
     ''Remote management: '' @ (if enabled (view_remote v) then ''enabled'' else ''disabled'') @ newline @
     ''HTTPS listener: '' @ (if listening (view_remote v) then ''active'' else ''inactive'') @ newline @
     ''Operator enrollment: '' @ (if enrolled (view_remote v) then ''enrolled'' else ''not enrolled'') @ newline @
     (let e = view_enrollment v in
      (if url e \<noteq> [] then ''Connection: '' @ url e @ newline else []) @
      (if shown_fingerprint e \<noteq> [] then ''TLS SHA-256 fingerprint: '' @ shown_fingerprint e @ newline else []) @
      (if pairing_code e \<noteq> []
       then ''Pairing code: '' @ format_code (pairing_code e) @ ''  (expires at Unix '' @ decimal (unat (expires_at e)) @ '')'' @ newline
       else [])) @
     (if view_reset_incomplete v then REPAIR_TEXT else []) @
     (if message \<noteq> [] then newline @ message @ newline else []) @
     newline @ ''1) '' @ (if enabled (view_remote v) then ''Disable'' else ''Enable'') @ '' remote management'' @ newline @
     ''2) Reenroll remote management'' @ newline @ ''3) Recover operator password'' @ newline @
     ''4) '' @ (if view_authenticated v then ''Lock console'' else ''Authenticate'') @ newline @
     ''R) Refresh'' @ newline @ newline @ ''Selection: ''"

definition prompt_authenticate :: "'w console_backend \<Rightarrow> ('w terminal, console_error, string) op" where
  "prompt_authenticate b =
     and_then (map_err (\<lambda>_. StatusUnavailable) (read_secret ''Operator password: '')) (\<lambda>password.
     and_then (on_controller (authenticate b password)) (\<lambda>_.
     ok ''Operator authenticated.''))"

definition perform :: "'w console_backend \<Rightarrow> view \<Rightarrow> action \<Rightarrow> ('w terminal, console_error, string) op" where
  "perform b v a =
     and_then (if enrolled (view_remote v) \<and> \<not> view_authenticated v
               then and_then (prompt_authenticate b) (\<lambda>_. ok ()) else ok ()) (\<lambda>_.
     and_then (on_controller (act b a)) (\<lambda>_.
     ok (case a of
           Enable \<Rightarrow> ''Remote management enabled.''
         | Disable \<Rightarrow> ''Remote management disabled.''
         | Reenroll \<Rightarrow> ''Re-enrollment prepared. Use the new pairing information below.'')))"

definition recover :: "'w console_backend \<Rightarrow> ('w terminal, console_error, string) op" where
  "recover b =
     and_then (map_err (\<lambda>_. StatusUnavailable) (read_secret ''Recovery key: '')) (\<lambda>key.
     and_then (map_err (\<lambda>_. StatusUnavailable) (read_secret ''New operator password: '')) (\<lambda>first.
     and_then (map_err (\<lambda>_. StatusUnavailable) (read_secret ''Confirm new password: '')) (\<lambda>second.
     if first \<noteq> second then ok ''The new passwords did not match; nothing changed.''
     else
       and_then (on_controller (recover_password b key first)) (\<lambda>_.
       ok ''Operator password recovered. Authenticate with the new password.''))))"

text \<open>The menu: the result of the selection is the next message.  Only the end of the input while re-enrollment is
  being confirmed leaves the loop; the other operations turn it into an error message.\<close>

definition select :: "'w console_backend \<Rightarrow> view \<Rightarrow> string \<Rightarrow> ('w terminal, unit, console_error + string) op" where
  "select b v choice =
     (let c = to_ascii_lowercase (trim choice) in
      if c = ''1'' \<and> enabled (view_remote v) then attempt (perform b v Disable)
      else if c = ''1'' then attempt (perform b v Enable)
      else if c = ''2'' then
        and_then (show_text ''Type REENROLL to reset enrollment and rotate the TLS identity: '') (\<lambda>_.
        and_then (read_line 32) (\<lambda>answer.
        if trim answer \<noteq> ''REENROLL'' then ok (Inr ''Re-enrollment cancelled.'')
        else attempt (perform b v Reenroll)))
      else if c = ''3'' then attempt (recover b)
      else if c = ''4'' \<and> view_authenticated v then
        and_then (modify (\<lambda>t. t\<lparr>controller := logout (controller t)\<rparr>)) (\<lambda>_. ok (Inr ''Protected console session locked.''))
      else if c = ''4'' \<and> enrolled (view_remote v) then attempt (prompt_authenticate b)
      else if c = ''4'' then ok (Inr ''No operator is enrolled yet. Enable remote management to begin pairing.'')
      else if c = ''r'' \<or> c = [] then ok (Inr [])
      else ok (Inr ''Unknown selection.''))"

definition turn :: "'w console_backend \<Rightarrow> string \<Rightarrow> ('w terminal, unit, string) op" where
  "turn b message =
     and_then (attempt (on_controller (refresh b))) (\<lambda>r.
     case r of
       Inl e \<Rightarrow>
         and_then (show_text (clear_text @ ''SignalLayer CoreOS'' @ newline @ newline @ error_message e @ newline @ newline @
           ''The appliance console will remain here. Press Enter to retry.'' @ newline)) (\<lambda>_.
         and_then (read_line 32) (\<lambda>_. ok message))
     | Inr v \<Rightarrow>
         and_then (show_text (clear_text @ render v message)) (\<lambda>_.
         and_then (read_line 32) (\<lambda>choice.
         and_then (select b v choice) (\<lambda>r.
         ok (case r of Inr m \<Rightarrow> m | Inl e \<Rightarrow> error_message e)))))"

section \<open>Every turn reads a line\<close>

definition reads :: "('w terminal, 'e, 'a) op \<Rightarrow> bool" where
  "reads m \<longleftrightarrow> (\<forall>t. length (input (snd (m t))) \<le> length (input t))"

named_theorems reads_intros \<open>operations that do not add to the input\<close>

lemma reads_and_then [reads_intros]: "reads m \<Longrightarrow> (\<And>x. reads (f x)) \<Longrightarrow> reads (and_then m f)"
  unfolding reads_def snd_and_then by (auto split: sum.splits intro: order_trans)

lemma reads_basic [reads_intros]:
  "reads (ok x)" "reads (err e)" "reads (lift_res r)" "reads get_st" "reads (show_text s)" "reads (on_controller n)"
  "reads (modify (\<lambda>t. t\<lparr>controller := g (controller t)\<rparr>))"
  by (simp_all add: reads_def ok_def err_def lift_res_def get_st_def show_text_def modify_def on_controller_def on_part_def
      split: prod.splits)

lemma reads_read_line [reads_intros]: "reads (read_line n)"
  by (simp add: reads_def read_line_def split: list.splits)

lemma reads_wrap [reads_intros]: "reads m \<Longrightarrow> reads (attempt m)" "reads m \<Longrightarrow> reads (map_err g m)"
  "reads m \<Longrightarrow> reads n \<Longrightarrow> reads (if c then m else n)"
  by (auto simp: reads_def attempt_def case_prod_unfold)

lemma reads_ops [reads_intros]: "reads (read_secret p)" "reads (prompt_authenticate b)" "reads (perform b v a)"
    "reads (recover b)" "reads (select b v c)"
proof -
  show 1: "reads (read_secret p)" for p :: string unfolding read_secret_def by (intro reads_intros)
  show 2: "reads (prompt_authenticate b)" unfolding prompt_authenticate_def by (intro reads_intros 1)
  show 3: "reads (perform b v a)" for a unfolding perform_def by (intro reads_intros 2)
  show 4: "reads (recover b)" unfolding recover_def by (intro reads_intros 1)
  show "reads (select b v c)" unfolding select_def Let_def by (intro reads_intros 1 2 3 4)
qed

definition eats :: "('w terminal, 'e, 'a) op \<Rightarrow> bool" where
  "eats m \<longleftrightarrow> (\<forall>t x t'. m t = (Inr x, t') \<longrightarrow> length (input t') < length (input t))"

lemma eats_and_then:
  "reads m \<Longrightarrow> (\<And>x. eats (f x)) \<Longrightarrow> eats (and_then m f)"
  "eats m \<Longrightarrow> (\<And>x. reads (f x)) \<Longrightarrow> eats (and_then m f)"
  unfolding eats_def reads_def
  by (auto simp: and_then_def split: prod.splits sum.splits) (metis snd_conv le_less_trans less_le_trans)+

lemma eats_read_line: "eats (read_line n)"
  by (simp add: eats_def read_line_def split: list.splits)

lemma eats_turn: "eats (turn b message)"
proof -
  have "eats (case r of
       Inl e \<Rightarrow> and_then (show_text (f e)) (\<lambda>_. and_then (read_line 32) (\<lambda>_. ok message))
     | Inr v \<Rightarrow> and_then (show_text (g v)) (\<lambda>_. and_then (read_line 32) (\<lambda>choice. and_then (select b v choice) (\<lambda>r. ok (h r)))))"
    for r :: "console_error + view" and f g h
    by (cases r) (auto intro!: eats_and_then(1) [OF reads_basic(5)] eats_and_then(2) [OF eats_read_line] reads_intros)
  then show ?thesis unfolding turn_def by (intro eats_and_then(1) reads_intros)
qed

lemma turn_reads: "turn b message t = (Inr m, t') \<Longrightarrow> length (input t') < length (input t)"
  using eats_turn unfolding eats_def by blast

text \<open>The loop of \<^verbatim>\<open>run\<close>: it ends when a line cannot be read.\<close>

function run :: "'w console_backend \<Rightarrow> string \<Rightarrow> 'w terminal \<Rightarrow> 'w terminal" where
  "run b message t = (case turn b message t of (Inl _, t') \<Rightarrow> t' | (Inr m, t') \<Rightarrow> run b m t')"
  by pat_completeness auto

termination run
  by (relation "measure (\<lambda>(_, _, t). length (input t))") (auto dest: turn_reads [OF sym])

declare run.simps [simp del]

section \<open>Who may act\<close>

text \<open>A backend that writes down what it was asked, the newest entry first: what the status said about enrollment, a
  password or a recovery key that was accepted, an action that was requested and one that was carried out.\<close>

datatype event = StatusSeen bool | Verified | Recovered | Requested action | Completed action

definition noting :: "('a \<Rightarrow> event list) \<Rightarrow> ('w, 'e, 'a) op \<Rightarrow> ('w \<times> event list, 'e, 'a) op" where
  "noting f m p = (case m (fst p) of (Inl e, w) \<Rightarrow> (Inl e, (w, snd p)) | (Inr x, w) \<Rightarrow> (Inr x, (w, f x @ snd p)))"

definition watch :: "'w console_backend \<Rightarrow> ('w \<times> event list) console_backend" where
  "watch b =
     \<lparr>backend_status = noting (\<lambda>st. [StatusSeen (enrolled (remote_management st))]) (backend_status b),
      backend_enrollment = noting (\<lambda>_. []) (backend_enrollment b),
      backend_verify_password = (\<lambda>p. noting (\<lambda>_. [Verified]) (backend_verify_password b p)),
      backend_recover_password = (\<lambda>k p. noting (\<lambda>_. [Recovered]) (backend_recover_password b k p)),
      backend_platform = (\<lambda>a s. noting (\<lambda>_. [Completed a]) (backend_platform b a) (fst s, Requested a # snd s))\<rparr>"

text \<open>An action on an enrolled device is authorised by a password that was accepted with none of these since: a status
  without enrollment, a re-enrollment, a recovery of the password.\<close>

fun authorised :: "event list \<Rightarrow> bool" where
  "authorised [] = False"
| "authorised (Verified # _) = True"
| "authorised (StatusSeen e # l) = (e \<and> authorised l)"
| "authorised (Recovered # _) = False"
| "authorised (Completed a # l) = (a \<noteq> Reenroll \<and> authorised l)"
| "authorised (Requested _ # l) = authorised l"

text \<open>Every request comes right after a status, and is authorised if that status says enrolled.\<close>

fun requests_ok :: "event list \<Rightarrow> bool" where
  "requests_ok [] = True"
| "requests_ok (Requested _ # l) = ((case l of StatusSeen e # _ \<Rightarrow> e \<longrightarrow> authorised l | _ \<Rightarrow> False) \<and> requests_ok l)"
| "requests_ok (_ # l) = requests_ok l"

abbreviation log_of :: "('w \<times> event list) console \<Rightarrow> event list" where
  "log_of c \<equiv> snd (backend c)"

definition sound_console :: "('w \<times> event list) console \<Rightarrow> bool" where
  "sound_console c \<longleftrightarrow> requests_ok (log_of c) \<and> (authenticated c \<longrightarrow> last_enrolled c = Some True \<and> authorised (log_of c))"

lemma wp_on_backend: "wp (on_backend m) Q E c = wp m (\<lambda>x w. Q x (c\<lparr>backend := w\<rparr>)) (\<lambda>e w. E e (c\<lparr>backend := w\<rparr>)) (backend c)"
  unfolding on_backend_def wp_on_part by simp

lemma wp_noting: "wp (noting f m) Q E p = wp m (\<lambda>x w. Q x (w, f x @ snd p)) (\<lambda>e w. E e (w, snd p)) (fst p)"
  by (simp add: wp_def noting_def split: prod.splits sum.splits)

lemma wp_all: "(\<And>x s'. Q x s') \<Longrightarrow> (\<And>e s'. E e s') \<Longrightarrow> wp m Q E s"
  by (simp add: wp_def split: prod.splits sum.splits)

lemma watch_simps [simp]:
  "backend_status (watch b) = noting (\<lambda>st. [StatusSeen (enrolled (remote_management st))]) (backend_status b)"
  "backend_enrollment (watch b) = noting (\<lambda>_. []) (backend_enrollment b)"
  "backend_verify_password (watch b) p = noting (\<lambda>_. [Verified]) (backend_verify_password b p)"
  "backend_recover_password (watch b) k p = noting (\<lambda>_. [Recovered]) (backend_recover_password b k p)"
  "backend_platform (watch b) a s = noting (\<lambda>_. [Completed a]) (backend_platform b a) (fst s, Requested a # snd s)"
  by (simp_all add: watch_def)

lemmas watch_wp = wp_simps wp_on_backend wp_noting wp_and_then_fun wp_modify_fun

lemma console_status_sound:
  assumes "sound_console c"
  shows "wp (console_status (watch b)) (\<lambda>st c'. sound_console c' \<and> last_enrolled c' = Some (enrolled (remote_management st)) \<and>
      log_of c' = StatusSeen (enrolled (remote_management st)) # log_of c \<and> reset_incomplete c' = reset_incomplete c) (\<lambda>_. sound_console) c"
  unfolding console_status_def watch_wp Let_def watch_simps
  by (rule wp_all) (use assms in \<open>auto simp: sound_console_def split: option.splits\<close>)

lemma refresh_rest_sound:
  assumes "sound_console c"
  shows "wp (and_then (attempt (on_backend (backend_enrollment (watch b)))) (\<lambda>r.
     and_then
       (case r of
          Inr info \<Rightarrow> and_then (modify (\<lambda>c. c\<lparr>reset_incomplete := False\<rparr>)) (\<lambda>_. ok info)
        | Inl e \<Rightarrow>
            if e = Platform ResetUnfinished
            then and_then (modify (\<lambda>c. c\<lparr>reset_incomplete := True\<rparr>)) (\<lambda>_. ok no_enrollment)
            else err e) (\<lambda>info.
     and_then get_st (\<lambda>c. ok (f c info))))) (\<lambda>_. sound_console) (\<lambda>_. sound_console) c"
  unfolding watch_wp watch_simps by (rule wp_all) (use assms in \<open>auto simp: sound_console_def watch_wp\<close>)

lemma refresh_sound: "sound_console c \<Longrightarrow> wp (refresh (watch b)) (\<lambda>_. sound_console) (\<lambda>_. sound_console) c"
  unfolding refresh_def by (rule wp_bind [OF console_status_sound], assumption, elim conjE, erule refresh_rest_sound)

lemma require_sound:
  assumes "sound_console c"
  shows "wp (require_enrolled (watch b)) (\<lambda>_ c'. sound_console c' \<and> last_enrolled c' = Some True \<and> log_of c' = StatusSeen True # log_of c)
    (\<lambda>_. sound_console) c"
  unfolding require_enrolled_def by (rule wp_bind [OF console_status_sound [OF assms]]) (auto simp: watch_wp sound_console_def)

lemma verify_sound:
  assumes "sound_console c"
  shows "wp (map_err Auth (on_backend (backend_verify_password (watch b) p))) (\<lambda>_ c'. sound_console c' \<and> authorised (log_of c'))
    (\<lambda>_. sound_console) c"
  unfolding watch_wp watch_simps by (rule wp_all) (use assms in \<open>auto simp: sound_console_def\<close>)

lemma authenticate_sound: "sound_console c \<Longrightarrow> wp (authenticate (watch b) p) (\<lambda>_. sound_console) (\<lambda>_. sound_console) c"
  unfolding authenticate_def
  by (rule wp_bind [OF require_sound], assumption, elim conjE, rule wp_bind [OF verify_sound], assumption, elim conjE,
      rule wp_bind [OF require_sound], assumption)
    (auto simp: wp_modify sound_console_def)

lemma recover_sound: "sound_console c \<Longrightarrow> wp (recover_password (watch b) k p) (\<lambda>_. sound_console) (\<lambda>_. sound_console) c"
proof -
  assume c: "sound_console c"
  have 1: "wp (map_err Auth (on_backend (backend_recover_password (watch b) k p))) (\<lambda>_ c'. sound_console (c'\<lparr>authenticated := False\<rparr>))
      (\<lambda>_. sound_console) c"
    unfolding watch_wp watch_simps by (rule wp_all) (use c in \<open>auto simp: sound_console_def\<close>)
  show ?thesis
    unfolding recover_password_def by (rule wp_bind [OF 1], rule wp_bind [where P = "\<lambda>_. sound_console" and F = "\<lambda>_. sound_console"])
      (auto simp: wp_modify intro: refresh_sound)
qed

lemma request_sound:
  assumes "sound_console c" "log_of c = StatusSeen e # l" "e \<longrightarrow> authenticated c"
  shows "wp (attempt (on_backend (backend_platform (watch b) a)))
    (\<lambda>r c'. case r of Inl _ \<Rightarrow> sound_console c' | Inr _ \<Rightarrow> sound_console (if a = Reenroll then c'\<lparr>authenticated := False\<rparr> else c')) E c"
  unfolding watch_wp
  by (simp add: wp_def noting_def split: prod.splits sum.splits) (use assms in \<open>auto simp: sound_console_def\<close>)

lemma act_rest_sound:
  assumes "sound_console c" "log_of c = StatusSeen e # l" "e \<longrightarrow> authenticated c"
  shows "wp (and_then (attempt (on_backend (backend_platform (watch b) a))) (\<lambda>r.
       case r of
         Inl e \<Rightarrow>
           and_then (if e = ResetUnfinished then modify (\<lambda>c. c\<lparr>reset_incomplete := True\<rparr>) else ok ()) (\<lambda>_.
           err (Platform e))
       | Inr _ \<Rightarrow>
           and_then (if a = Reenroll then modify (\<lambda>c. c\<lparr>authenticated := False, reset_incomplete := False\<rparr>) else ok ()) (\<lambda>_.
           refresh (watch b)))) (\<lambda>_. sound_console) (\<lambda>_. sound_console) c"
proof (rule wp_bind [OF request_sound [OF assms]])
  fix r :: "platform_failure + unit" and d :: "('a \<times> event list) console"
  assume d: "case r of Inl _ \<Rightarrow> sound_console d | Inr _ \<Rightarrow> sound_console (if a = Reenroll then d\<lparr>authenticated := False\<rparr> else d)"
  show "wp (case r of
         Inl e \<Rightarrow>
           and_then (if e = ResetUnfinished then modify (\<lambda>c. c\<lparr>reset_incomplete := True\<rparr>) else ok ()) (\<lambda>_.
           err (Platform e))
       | Inr _ \<Rightarrow>
           and_then (if a = Reenroll then modify (\<lambda>c. c\<lparr>authenticated := False, reset_incomplete := False\<rparr>) else ok ()) (\<lambda>_.
           refresh (watch b))) (\<lambda>_. sound_console) (\<lambda>_. sound_console) d"
  proof (cases r)
    case (Inl e)
    then show ?thesis using d by (simp add: watch_wp sound_console_def)
  next
    case (Inr u)
    have "wp (if a = Reenroll then modify (\<lambda>c. c\<lparr>authenticated := False, reset_incomplete := False\<rparr>) else ok ())
        (\<lambda>_. sound_console) (\<lambda>_. sound_console) d"
      using d Inr by (auto simp: watch_wp sound_console_def)
    then show ?thesis unfolding Inr sum.case by (rule wp_bind) (auto intro: refresh_sound)
  qed
qed

lemma act_sound: "sound_console c \<Longrightarrow> wp (act (watch b) a) (\<lambda>_. sound_console) (\<lambda>_. sound_console) c"
  unfolding act_def
proof (rule wp_bind [OF console_status_sound], assumption)
  fix st and d :: "('a \<times> event list) console"
  assume d: "sound_console d \<and> last_enrolled d = Some (enrolled (remote_management st)) \<and>
      log_of d = StatusSeen (enrolled (remote_management st)) # log_of c \<and> reset_incomplete d = reset_incomplete c"
  then show "wp (and_then get_st (\<lambda>c.
     if enrolled (remote_management st) \<and> \<not> authenticated c then err AuthenticationRequired
     else if a = Enable \<and> reset_incomplete c then err (Platform ResetUnfinished)
     else
       and_then (attempt (on_backend (backend_platform (watch b) a))) (\<lambda>r.
       case r of
         Inl e \<Rightarrow>
           and_then (if e = ResetUnfinished then modify (\<lambda>c. c\<lparr>reset_incomplete := True\<rparr>) else ok ()) (\<lambda>_.
           err (Platform e))
       | Inr _ \<Rightarrow>
           and_then (if a = Reenroll then modify (\<lambda>c. c\<lparr>authenticated := False, reset_incomplete := False\<rparr>) else ok ()) (\<lambda>_.
           refresh (watch b))))) (\<lambda>_. sound_console) (\<lambda>_. sound_console) d"
    unfolding wp_and_then [of get_st] wp_get_st wp_if wp_err
    by (cases "enrolled (remote_management st) \<and> \<not> authenticated d"; cases "a = Enable \<and> reset_incomplete d";
        simp only: if_True if_False simp_thms) (rule act_rest_sound, blast, blast, blast)+
qed

abbreviation sound_terminal :: "('w \<times> event list) terminal \<Rightarrow> bool" where
  "sound_terminal t \<equiv> sound_console (controller t)"

lemma sound_on_controller:
  "(\<And>c. sound_console c \<Longrightarrow> wp m (\<lambda>_. sound_console) (\<lambda>_. sound_console) c) \<Longrightarrow> preserves sound_terminal (on_controller m)"
  unfolding on_controller_def preserves_wp wp_on_part by simp

lemma sound_terminal_ops [preserve_intros]:
  "preserves sound_terminal (on_controller (refresh (watch b)))" "preserves sound_terminal (on_controller (authenticate (watch b) p))"
  "preserves sound_terminal (on_controller (act (watch b) a))" "preserves sound_terminal (on_controller (recover_password (watch b) k p))"
  by (rule sound_on_controller, erule refresh_sound authenticate_sound act_sound recover_sound)+

lemma sound_terminal_basic [preserve_intros]:
  "preserves sound_terminal (show_text s)" "preserves sound_terminal (read_line n)" "preserves sound_terminal get_st"
  "preserves sound_terminal (modify (\<lambda>t. t\<lparr>controller := logout (controller t)\<rparr>))"
  by (auto simp: preserves_def show_text_def modify_def read_line_def get_st_def logout_def sound_console_def split: list.splits)

lemma sound_terminal_menu [preserve_intros]:
  "preserves sound_terminal (read_secret s)" "preserves sound_terminal (prompt_authenticate (watch b))"
  "preserves sound_terminal (perform (watch b) v a)" "preserves sound_terminal (recover (watch b))"
  "preserves sound_terminal (select (watch b) v c)"
proof -
  show 1: "preserves sound_terminal (read_secret s)" for s unfolding read_secret_def by (intro preserve_intros)
  show 2: "preserves sound_terminal (prompt_authenticate (watch b))" unfolding prompt_authenticate_def by (intro preserve_intros 1)
  show 3: "preserves sound_terminal (perform (watch b) v a)" for a unfolding perform_def by (intro preserve_intros 2)
  show 4: "preserves sound_terminal (recover (watch b))" unfolding recover_def by (intro preserve_intros 1)
  show "preserves sound_terminal (select (watch b) v c)" unfolding select_def Let_def by (intro preserve_intros 1 2 3 4)
qed

lemma sound_turn: "preserves sound_terminal (turn (watch b) message)"
  unfolding turn_def by (intro preserve_intros)

lemma sound_run: "sound_terminal t \<Longrightarrow> sound_terminal (run (watch b) message t)"
proof (induction "watch b" message t rule: run.induct)
  case (1 message t)
  have "sound_terminal (snd (turn (watch b) message t))" using sound_turn 1(2) by (auto simp: preserves_def)
  then show ?case using 1(1) by (subst run.simps) (auto split: prod.splits sum.splits)
qed

text \<open>C9: Whatever is typed at the console and however the services answer, an action that reaches the platform comes right
  after a status; if that status says that the device is enrolled, a password was accepted earlier, and since then no status
  without enrollment was seen, the device was not re-enrolled and the password was not recovered.  This holds from a new
  controller and from one that was locked.\<close>

theorem console_actions_authorised:
  assumes "\<not> authenticated (controller t)" "backend (controller t) = (w, [])"
  shows "requests_ok (log_of (controller (run (watch b) message t)))"
proof -
  have "sound_terminal t" using assms by (simp add: sound_console_def)
  then show ?thesis using sound_run by (auto simp: sound_console_def)
qed

section \<open>The console and platformd\<close>

definition remote_method :: "action \<Rightarrow> bool \<Rightarrow> 'w Platform_Remote.backend \<Rightarrow> ('w, platform_error, unit) op" where
  "remote_method a permit b =
     (case a of
        Enable \<Rightarrow> Platform_Remote.enable permit b
      | Disable \<Rightarrow> Platform_Remote.disable permit b
      | Reenroll \<Rightarrow> Platform_Remote.reenroll permit b)"

text \<open>The bus with platformd on it; the permit of platformd may be taken by another caller.\<close>

definition with_platformd :: "'s remote_env \<Rightarrow> bool \<Rightarrow> 's console_env \<Rightarrow> 's console_env" where
  "with_platformd renv permit env =
     env\<lparr>platform_member := (\<lambda>name s.
            case find (\<lambda>a. platform_method a = name) [Enable, Disable, Reenroll] of
              Some a \<Rightarrow> served (remote_method a permit (system_backend renv)) s
            | None \<Rightarrow> platform_member env name s),
          platform_enrollment := (\<lambda>_. served (Platform_Remote.enrollment permit (system_backend renv)))\<rparr>"

lemma lasts_remote_method: "lasts (lifecycle_timeout a - 10000) (remote_method a permit (system_backend renv))"
  by (cases a) (simp_all add: remote_method_def LIFECYCLE_TIMEOUT_def REENROLL_TIMEOUT_def lasts_enable lasts_disable lasts_reenroll)

lemma lastsD: "lasts n m \<Longrightarrow> clock (snd (m \<lparr>clock = 0, outside = s\<rparr>)) \<le> n"
  unfolding lasts_def by (drule spec [of _ "\<lparr>clock = 0, outside = s\<rparr>"]) simp

lemma bus_call_served:
  assumes "lasts n m" "n \<le> limit"
  shows "bus_call limit (served m) w =
    (case m \<lparr>clock = 0, outside = outside w\<rparr> of (r, v) \<Rightarrow> (map_sum platform_reply (\<lambda>x. x) r, \<lparr>clock = clock w + clock v, outside = outside v\<rparr>))"
proof -
  have "clock (snd (m \<lparr>clock = 0, outside = outside w\<rparr>)) \<le> limit"
    using lastsD [OF assms(1)] assms(2) by (rule order_trans)
  then show ?thesis by (auto simp: bus_call_def timeout_def await_def served_def split: prod.splits sum.splits)
qed

text \<open>The console waits longer than platformd can take: for each of its actions, it reports what platformd answered,
  after the time platformd took, and never a time-out of its own, with ten seconds to spare.\<close>

theorem console_hears_platformd:
  "bus_platform (with_platformd renv permit env) a w =
     (case remote_method a permit (system_backend renv) \<lparr>clock = 0, outside = outside w\<rparr> of (r, v) \<Rightarrow>
        (map_sum (\<lambda>e. platform_failure (platform_reply e)) (\<lambda>_. ()) r, \<lparr>clock = clock w + clock v, outside = outside v\<rparr>)) \<and>
   clock (snd (bus_platform (with_platformd renv permit env) a w)) + 10000 \<le> clock w + lifecycle_timeout a"
proof -
  obtain r v where v: "remote_method a permit (system_backend renv) \<lparr>clock = 0, outside = outside w\<rparr> = (r, v)" by fastforce
  have "clock v \<le> lifecycle_timeout a - 10000"
    using lastsD [OF lasts_remote_method [of a permit renv], of "outside w"] v by simp
  then have "clock v + 10000 \<le> lifecycle_timeout a"
    by (cases a) (simp_all add: LIFECYCLE_TIMEOUT_def REENROLL_TIMEOUT_def)
  moreover have "platform_member (with_platformd renv permit env) (platform_method a) = served (remote_method a permit (system_backend renv))"
    by (cases a) (auto simp: with_platformd_def)
  ultimately show ?thesis
    using v by (cases r) (simp_all add: bus_platform_def map_err_def bus_call_served [OF lasts_remote_method])
qed

lemma enrollment_failure:
  assumes "Platform_Remote.enrollment permit b w = (Inl e, w')"
  shows "platform_failure (platform_reply e) \<noteq> ResetUnfinished"
  using assms
  by (auto simp: Platform_Remote.enrollment_def and_then_def map_err_def ok_def err_def Let_def busy_def unavailable_def
      auth_unavailable_def network_error_def platform_failure_def error_code_def platform_reply_def PLATFORM_ERROR_PREFIX_def
      strip_prefix_def split: prod.splits sum.splits if_splits)

text \<open>C37: With platformd on the bus, the repair state of the console does not outlive a refresh: whatever the controller
  remembers, a refreshed view does not ask for a repair, since the enrollment of platformd never reports an incomplete
  reset.  The loop refreshes right after a refused Enable, so its screen shows the message of that refusal once and never the
  line that asks for the repair.\<close>

theorem repair_state_forgotten:
  "case refresh (bus_backend (with_platformd renv permit env)) c of
     (Inr v, c') \<Rightarrow> \<not> view_reset_incomplete v \<and> \<not> reset_incomplete c'
   | (Inl _, _) \<Rightarrow> True"
proof -
  have e: "r \<noteq> Inl (Platform ResetUnfinished)"
    if "bus_enrollment (with_platformd renv permit env) w = (r, w')" for r w w'
  proof -
    obtain q v where q: "Platform_Remote.enrollment permit (system_backend renv) \<lparr>clock = 0, outside = outside w\<rparr> = (q, v)" by fastforce
    show ?thesis
      using that q enrollment_failure [of permit "system_backend renv" "\<lparr>clock = 0, outside = outside w\<rparr>" _ v]
      by (cases q) (auto simp: bus_enrollment_def with_platformd_def bus_call_def timeout_def await_def served_def and_then_def map_err_def
          ok_def platform_failure_def [of "Failure _"] error_code_def split: if_splits sum.splits)
  qed
  obtain r w where r: "bus_enrollment (with_platformd renv permit env) (backend (snd (console_status (bus_backend (with_platformd renv permit env)) c))) = (r, w)"
    by fastforce
  show ?thesis
    using e [OF r] r
    by (auto simp: refresh_def and_then_def attempt_def modify_def get_st_def ok_def err_def on_backend_def on_part_def
        bus_backend_def split: prod.splits sum.splits)
qed

subsection \<open>A session at the console\<close>

definition demo_status :: session_status where
  "demo_status = from_platform
     \<lparr>schema_version = ''0.3'', product = ''SignalLayer CoreOS'', version = ''0.0.3'', platform_api_version = ''0.3'',
      source_revision = None, build_id = None,
      machine = \<lparr>machine_id = ''machine'', architecture = ''x86_64'', boot_id = ''boot''\<rparr>,
      network = \<lparr>network_status_state = ConnectedGlobal, primary_connection = None\<rparr>,
      booted = \<lparr>deployment_id = ''a.0'', image_reference = None, image_digest = None\<rparr>, retained_rollback = None,
      update = \<lparr>update_status_state = UpdateIdle, staged = None, update_reboot_required = False, update_status_failure = None\<rparr>,
      rollback = \<lparr>rollback_status_state = RollbackIdle, rollback_reboot_required = False, rollback_status_failure = None\<rparr>,
      health = \<lparr>health_state = Healthy, system_state = ''running'', failed_units = 0\<rparr>\<rparr>
     \<lparr>enabled = False, listening = False, enrolled = True\<rparr>"

text \<open>An enrolled device whose operator has the password \<^verbatim>\<open>secret\<close>.\<close>

definition demo_bus :: "unit console_env" where
  "demo_bus =
     \<lparr>session_member = (\<lambda>_ s. (Inr ''status'', 5, s)),
      platform_enrollment = (\<lambda>_ s. (Inr (''https://10.0.0.2:8443/'', ''AA'', [], 0), 5, s)),
      platform_member = (\<lambda>_ s. (Inr (), 100, s)),
      auth1_member = (\<lambda>_ args s. (if args = [''secret''] then Inr ()
         else Inl (ErrorReply ''org.signallayer.Auth1.Error.InvalidCredential'' None), 200, s)),
      session_from_str = (\<lambda>_. Some demo_status)\<rparr>"

definition demo_terminal :: "(unit timed \<times> event list) terminal" where
  "demo_terminal =
     \<lparr>controller = console_new (\<lparr>clock = 0, outside = ()\<rparr>, []), input = [''1'', ''secret''], screen = [], hides_input = True\<rparr>"

lemma demo_choice: "to_ascii_lowercase (trim ''1'') = ''1''" "trim_line_end ''secret'' = ''secret''"
  by (simp_all add: trim_def utf8_tail_def code_point_def is_whitespace_def to_ascii_lowercase_def to_ascii_lowercase_char_def
      trim_line_end_def Let_def)

lemmas demo_defs = demo_terminal_def console_new_def demo_bus_def demo_status_def from_platform_def

lemmas step_defs = and_then_def attempt_def map_err_def ok_def err_def modify_def get_st_def lift_res_def ok_or_def on_part_def
  on_controller_def on_backend_def noting_def bus_backend_def bus_call_def timeout_def await_def

lemmas console_defs = turn_def refresh_def console_status_def select_def perform_def prompt_authenticate_def read_secret_def
  authenticate_def require_enrolled_def act_def read_line_def show_text_def bus_status_def bus_enrollment_def bus_platform_def
  SESSION_SCHEMA_VERSION_def READ_AUTH_TIMEOUT_def LIFECYCLE_TIMEOUT_def

lemma demo_requests: "Requested Enable \<in> set (log_of (controller (run (watch (bus_backend demo_bus)) [] demo_terminal)))"
  by (simp add: run.simps demo_choice console_defs demo_defs step_defs Let_def)

theorem console_actions_authorised_witness:
  "\<not> authenticated (controller demo_terminal) \<and>
   requests_ok (log_of (controller (run (watch (bus_backend demo_bus)) [] demo_terminal))) \<and>
   Requested Enable \<in> set (log_of (controller (run (watch (bus_backend demo_bus)) [] demo_terminal)))"
proof -
  have a: "\<not> authenticated (controller demo_terminal)" "backend (controller demo_terminal) = (\<lparr>clock = 0, outside = ()\<rparr>, [])"
    by (simp_all add: demo_terminal_def console_new_def)
  then show ?thesis using console_actions_authorised [OF a] demo_requests by blast
qed

end
