(* ===== verification/Platform_Service.thy ===== *)
theory Platform_Service
  imports Platform_Remote
begin

text \<open>
  The interface of sl-platformd (\<^verbatim>\<open>src/platformd/src/main.rs\<close>): the status it observes, the starts of the update, rollback
  and reboot workers with their guards, and the check of arguments (\<^verbatim>\<open>checked_interface.rs\<close>).  systemd and the network
  observer are timed calls; a run of bootc is a child process that ends after a time with its two outputs and its exit
  status.
\<close>

section \<open>Data\<close>

definition OUTPUT_LIMIT :: nat where "OUTPUT_LIMIT = 64 * 1024"
definition BACKEND_TIMEOUT :: nat where "BACKEND_TIMEOUT = 15000"
definition SYSTEMD_TIMEOUT :: nat where "SYSTEMD_TIMEOUT = 3000"
definition UPDATE_UNIT :: string where "UPDATE_UNIT = ''sl-update.service''"
definition ROLLBACK_UNIT :: string where "ROLLBACK_UNIT = ''sl-rollback.service''"
definition REBOOT_UNIT :: string where "REBOOT_UNIT = ''sl-reboot.service''"

text \<open>A child process: an output is \<open>None\<close> if it could not be read to its end or its bound; \<open>ended_after\<close> is when the
  outputs and the exit status are known, or the first of them failed; \<open>killed_after\<close> is how long it takes to kill it.\<close>

record child =
  spawned :: bool
  child_stdout :: "string option"
  child_stderr :: "string option"
  waited :: bool
  success :: bool
  ended_after :: nat
  killed_after :: nat

record 's platform_env =
  host_systemd :: "'s systemd"
  bootc_status :: "'s \<Rightarrow> child \<times> 's"
  host_observer :: "('s, string) call"
  host_network_from_str :: "string \<Rightarrow> network_status option"
  release_file :: "'s \<Rightarrow> string option"
  machine_id_file :: "'s \<Rightarrow> string option"
  boot_id_file :: "'s \<Rightarrow> string option"
  uname_machine :: "'s \<Rightarrow> string option option"
  json_from_bytes :: "string \<Rightarrow> json option"
  status_to_string :: "status \<Rightarrow> string option"

section \<open>bootc\<close>

definition bounded_output :: "string option \<Rightarrow> platform_error + string" where
  "bounded_output stream =
     (case stream of
        None \<Rightarrow> Inl (BackendUnavailable ''bootc status could not be read'')
      | Some output \<Rightarrow>
          if OUTPUT_LIMIT < length output then Inl (invalid ''bootc status exceeded the output limit'') else Inr output)"

text \<open>\<^verbatim>\<open>try_join!\<close> of the two outputs and the wait; of several failures at the same time the first is reported.\<close>

definition join_child :: "child \<Rightarrow> platform_error + string" where
  "join_child c =
     bind_res (bounded_output (child_stdout c)) (\<lambda>output.
     bind_res (bounded_output (child_stderr c)) (\<lambda>_.
     if waited c then Inr output else Inl (BackendUnavailable ''bootc status could not be read'')))"

definition backend_command :: "'s platform_env \<Rightarrow> nat \<Rightarrow> ('s timed, platform_error, string) op" where
  "backend_command env limit w =
     (case bootc_status env (outside w) of
        (c, s) \<Rightarrow>
          let w = w\<lparr>outside := s\<rparr>; kill = min 2000 (killed_after c) in
          if \<not> spawned c then (Inl (BackendUnavailable ''The bootc status backend could not be started''), w)
          else if limit < ended_after c
          then (Inl (BackendTimeout ''bootc status exceeded its deadline''), w\<lparr>clock := clock w + limit + kill\<rparr>)
          else (case join_child c of
                  Inl e \<Rightarrow> (Inl e, w\<lparr>clock := clock w + ended_after c + kill\<rparr>)
                | Inr output \<Rightarrow>
                    (if success c then Inr output
                     else Inl (BackendUnavailable ''bootc status returned an unsuccessful exit status''),
                     w\<lparr>clock := clock w + ended_after c\<rparr>)))"

definition observe_mutation_state :: "'s platform_env \<Rightarrow> ('s timed, platform_error, mutation_state) op" where
  "observe_mutation_state env =
     and_then (backend_command env BACKEND_TIMEOUT) (\<lambda>output.
     lift_res (mutation_state_from_backend (json_from_bytes env) output))"

section \<open>Workers\<close>

definition observe_worker_block :: "'s systemd \<Rightarrow> string \<Rightarrow> ('s, unit, worker_observation) block" where
  "observe_worker_block sd name d =
     and_then (await (load_unit sd name) d) (\<lambda>path.
     and_then (await (unit_property sd path SYSTEMD_UNIT ''ActiveState'') d) (\<lambda>active.
     and_then (await (unit_property sd path SYSTEMD_SERVICE ''Result'') d) (\<lambda>res.
     and_then (await (main_status sd path) d) (\<lambda>exit.
     ok \<lparr>active_state = active, result = res, exit_status = exit\<rparr>))))"

definition observe_worker :: "'s platform_env \<Rightarrow> string \<Rightarrow> ('s timed, unit, worker_observation) op" where
  "observe_worker env name = map_err (\<lambda>_. ()) (timeout SYSTEMD_TIMEOUT (observe_worker_block (host_systemd env) name))"

lemma poll_progress2:
  "(Inr x, y) = await c d w \<Longrightarrow> (Inr x', y') = await c' d y \<Longrightarrow> (Inr u, z) = pause t d y' \<Longrightarrow> 0 < t \<Longrightarrow>
    d - clock z < d - clock w"
  by (drule await_Inr [OF sym], drule await_Inr [OF sym], drule pause_Inr [OF sym]) linarith

text \<open>The loop of \<^verbatim>\<open>start_worker\<close>: the worker has been started once it is active or has a new invocation.\<close>

function wait_started :: "'s systemd \<Rightarrow> string \<Rightarrow> u8 list \<Rightarrow> ('s, 'e, unit) block" where
  "wait_started sd path previous d w =
     (case await (unit_property sd path SYSTEMD_UNIT ''ActiveState'') d w of
        (Inl e, w') \<Rightarrow> (Inl e, w')
      | (Inr active, w1) \<Rightarrow>
          (case await (invocation_id sd path) d w1 of
             (Inl e, w') \<Rightarrow> (Inl e, w')
           | (Inr invocation, w2) \<Rightarrow>
               if \<not> idle active \<or> invocation \<noteq> previous then (Inr (), w2)
               else (case pause 10 d w2 of (Inl e, w') \<Rightarrow> (Inl e, w') | (Inr _, w3) \<Rightarrow> wait_started sd path previous d w3)))"
  by pat_completeness auto

termination wait_started
  by (relation "measure (\<lambda>(_, _, _, d, w). d - clock w)") (auto intro: poll_progress2)

declare wait_started.simps [simp del]

definition start_worker_block :: "'s systemd \<Rightarrow> string \<Rightarrow> ('s, platform_error, unit) block" where
  "start_worker_block sd name d =
     and_then (await (load_unit sd name) d) (\<lambda>path.
     and_then (await (unit_property sd path SYSTEMD_UNIT ''ActiveState'') d) (\<lambda>active.
     if active \<noteq> ''inactive'' \<and> active \<noteq> ''failed''
     then err (Returned (Busy ''The requested deployment worker is already running''))
     else
       and_then (await (invocation_id sd path) d) (\<lambda>previous.
       and_then (await (start_unit sd name ''fail'') d) (\<lambda>_.
       wait_started sd path previous d))))"

definition start_worker :: "'s platform_env \<Rightarrow> string \<Rightarrow> platform_error \<Rightarrow> ('s timed, platform_error, unit) op" where
  "start_worker env name failure =
     map_err (\<lambda>e. case e of Returned (Busy m) \<Rightarrow> Busy m | _ \<Rightarrow> failure)
       (timeout SYSTEMD_TIMEOUT (start_worker_block (host_systemd env) name))"

section \<open>The mutations\<close>

definition mutation_busy :: platform_error where
  "mutation_busy = Busy ''A deployment mutation start is already in progress''"

definition start_update :: "bool \<Rightarrow> 's platform_env \<Rightarrow> ('s timed, platform_error, unit) op" where
  "start_update permit env =
     (if \<not> permit then err mutation_busy
      else
        and_then (map_err (\<lambda>_. rollback_unavailable) (observe_worker env ROLLBACK_UNIT)) (\<lambda>rollback.
        if worker_running rollback then err (Busy ''The rollback worker is already running'')
        else
          and_then (observe_mutation_state env) (\<lambda>state.
          if mutation_rollback_queued state then err (Conflict ''A rollback is already queued for the next boot'')
          else start_worker env UPDATE_UNIT update_unavailable)))"

definition start_rollback :: "bool \<Rightarrow> 's platform_env \<Rightarrow> ('s timed, platform_error, unit) op" where
  "start_rollback permit env =
     (if \<not> permit then err mutation_busy
      else
        and_then (map_err (\<lambda>_. update_unavailable) (observe_worker env UPDATE_UNIT)) (\<lambda>update.
        if worker_running update then err (Busy ''The update worker is already running'')
        else
          and_then (observe_mutation_state env) (\<lambda>state.
          if mutation_staged state
          then err (Conflict ''An unapplied update is staged; rollback selection was not changed'')
          else if \<not> mutation_retained_rollback state
          then err (RollbackUnavailable ''No retained rollback deployment exists'')
          else if mutation_rollback_queued state
          then err (Conflict ''A rollback is already queued for the next boot'')
          else start_worker env ROLLBACK_UNIT rollback_unavailable)))"

definition request_reboot :: "bool \<Rightarrow> (string \<Rightarrow> ('w, unit, worker_observation) op) \<Rightarrow> ('w, platform_error, unit) op \<Rightarrow>
    ('w, platform_error, unit) op" where
  "request_reboot permit observe start =
     (if \<not> permit then err mutation_busy
      else
        and_then (map_err (\<lambda>_. reboot_unavailable) (observe UPDATE_UNIT)) (\<lambda>update.
        and_then (map_err (\<lambda>_. reboot_unavailable) (observe ROLLBACK_UNIT)) (\<lambda>rollback.
        if worker_running update then err (Conflict ''The update worker is running; reboot was not requested'')
        else if worker_running rollback then err (Conflict ''The rollback worker is running; reboot was not requested'')
        else
          and_then (map_err (\<lambda>_. reboot_unavailable) (observe REBOOT_UNIT)) (\<lambda>reboot.
          if worker_running reboot then err (Busy ''The reboot worker is already running'')
          else start))))"

definition start_reboot :: "bool \<Rightarrow> 's platform_env \<Rightarrow> ('s timed, platform_error, unit) op" where
  "start_reboot permit env =
     request_reboot permit (observe_worker env) (start_worker env REBOOT_UNIT reboot_unavailable)"

section \<open>The status\<close>

text \<open>\<^verbatim>\<open>tokio::try_join!\<close> of two operations that only read: both start now, and the first failure ends both.\<close>

definition try_join :: "('s timed, 'e, 'a) op \<Rightarrow> ('s timed, 'e, 'b) op \<Rightarrow> ('s timed, 'e, 'a \<times> 'b) op" where
  "try_join m n w =
     (case m w of
        (a, u) \<Rightarrow>
          (case n (u\<lparr>clock := clock w\<rparr>) of
             (b, v) \<Rightarrow>
               (case (a, b) of
                  (Inr x, Inr y) \<Rightarrow> (Inr (x, y), v\<lparr>clock := max (clock u) (clock v)\<rparr>)
                | (Inl e, Inr _) \<Rightarrow> (Inl e, v\<lparr>clock := clock u\<rparr>)
                | (Inr _, Inl f) \<Rightarrow> (Inl f, v)
                | (Inl e, Inl f) \<Rightarrow> if clock u \<le> clock v then (Inl e, v\<lparr>clock := clock u\<rparr>) else (Inl f, v))))"

definition service_observe_network :: "'s platform_env \<Rightarrow> ('s timed, platform_error, network_status) op" where
  "service_observe_network env w =
     (case timeout NETWORK_TIMEOUT (await (host_observer env)) w of
        (r, w') \<Rightarrow>
          (observe_network (host_network_from_str env) (case r of Inl (_ :: unit stopped) \<Rightarrow> None | Inr json \<Rightarrow> Some json), w'))"

definition health_block :: "'s systemd \<Rightarrow> ('s, unit, health) block" where
  "health_block sd d =
     and_then (await (manager_state sd) d) (\<lambda>st.
     and_then (await (failed_count sd) d) (\<lambda>failed.
     ok (observed_health st failed)))"

definition look :: "('s \<Rightarrow> 'a) \<Rightarrow> ('s timed, 'e, 'a) op" where
  "look f w = (Inr (f (outside w)), w)"

definition observe_status :: "'s platform_env \<Rightarrow> ('s timed, platform_error, string) op" where
  "observe_status env =
     and_then (map_err (\<lambda>_. update_unavailable) (observe_worker env UPDATE_UNIT)) (\<lambda>update_worker.
     and_then (map_err (\<lambda>_. rollback_unavailable) (observe_worker env ROLLBACK_UNIT)) (\<lambda>rollback_worker.
     and_then (look (release_file env)) (\<lambda>file.
     and_then (lift_res (ok_or (MetadataUnavailable ''Image release metadata is unreadable'') file)) (\<lambda>release.
     and_then (look (\<lambda>s. observe_machine (machine_id_file env s) (boot_id_file env s) (uname_machine env s))) (\<lambda>m.
     and_then (lift_res m) (\<lambda>mach.
     and_then (try_join (backend_command env BACKEND_TIMEOUT) (service_observe_network env)) (\<lambda>(backend, net).
     and_then (map_err (\<lambda>_. health_error) (timeout 3000 (health_block (host_systemd env)))) (\<lambda>hlth.
     and_then (lift_res (status_from_observations (json_from_bytes env) release backend mach net hlth update_worker rollback_worker)) (\<lambda>st.
     lift_res (ok_or (invalid ''Status serialization failed'') (status_to_string env st)))))))))))"

text \<open>The answer of GetStatus to a caller, from what the shared read gave it: nothing only if the observation panicked.\<close>

definition get_status :: "(platform_error + string) option \<Rightarrow> platform_error + string" where
  "get_status shared = (case shared of Some r \<Rightarrow> r | None \<Rightarrow> Inl (invalid ''Status observation failed''))"

section \<open>Arguments\<close>

definition ZERO_ARGUMENT_METHODS :: "string list" where
  "ZERO_ARGUMENT_METHODS =
     [''GetStatus'', ''StartUpdate'', ''StartRollback'', ''StartReboot'', ''EnableRemoteManagement'', ''DisableRemoteManagement'',
      ''ReenrollRemoteManagement'', ''GetRemoteManagementEnrollment'']"

text \<open>A message body: whether its signature is that of the unit, and whether it has no bytes.\<close>

definition has_unexpected_arguments :: "string \<Rightarrow> bool \<Rightarrow> bool \<Rightarrow> bool" where
  "has_unexpected_arguments name unit_signature is_empty \<longleftrightarrow>
     name \<in> set ZERO_ARGUMENT_METHODS \<and> (\<not> unit_signature \<or> \<not> is_empty)"

section \<open>Time\<close>

lemma await_bounds: "await c d w = (r, w') \<Longrightarrow> clock w \<le> d \<Longrightarrow> clock w \<le> clock w' \<and> clock w' \<le> d"
  using bounded_await [of c] unfolding bounded_def by (metis snd_conv)

lemma pause_bounds: "pause t d w = (r, w') \<Longrightarrow> clock w \<le> d \<Longrightarrow> clock w \<le> clock w' \<and> clock w' \<le> d"
  by (auto simp: pause_def split: if_splits)

lemma wait_started_bounds:
  fixes w :: "'s timed"
  assumes "clock w \<le> d" "wait_started sd path previous d w = (x :: 'e stopped + unit, w')"
  shows "clock w \<le> clock w' \<and> clock w' \<le> d"
  using assms
proof (induction "d - clock w" arbitrary: w rule: less_induct)
  case less
  obtain r :: "'e stopped + string" and w1 where 1: "await (unit_property sd path SYSTEMD_UNIT ''ActiveState'') d w = (r, w1)" by fastforce
  obtain q :: "'e stopped + u8 list" and w2 where 2: "await (invocation_id sd path) d w1 = (q, w2)" by fastforce
  obtain p :: "'e stopped + unit" and w3 where 3: "pause 10 d w2 = (p, w3)" by fastforce
  have le: "clock w \<le> clock w1" "clock w1 \<le> d" using await_bounds [OF 1 less.prems(1)] by auto
  have le2: "clock w1 \<le> clock w2" "clock w2 \<le> d" using await_bounds [OF 2 le(2)] by auto
  have le3: "clock w2 \<le> clock w3" "clock w3 \<le> d" using pause_bounds [OF 3 le2(2)] by auto
  note step = less.prems(2) [unfolded wait_started.simps [of sd path previous d w] 1, simplified]
  show ?case
  proof (cases "\<exists>a i u. r = Inr a \<and> q = Inr i \<and> idle a \<and> i = previous \<and> p = Inr u")
    case True
    then obtain a where e: "r = Inr a" "q = Inr previous" "idle a" "p = Inr ()" by auto
    have "d - clock w3 < d - clock w" using pause_Inr [OF 3 [unfolded e(4)]] le le2 by linarith
    from less.hyps [OF this le3(2)] show ?thesis using step e 2 3 le le2 le3 by simp
  qed (use step 2 3 le le2 le3 in \<open>auto split: sum.splits if_splits\<close>)
qed

lemma bounded_wait_started [time_intros]: "bounded (wait_started sd path previous)"
  unfolding bounded_def by (metis prod.collapse wait_started_bounds)

lemma lasts_workers:
  "lasts 3000 (observe_worker env name)" "lasts 3000 (start_worker env name failure)"
  unfolding observe_worker_def start_worker_def SYSTEMD_TIMEOUT_def observe_worker_block_def start_worker_block_def
  by (intro time_intros)+

text \<open>A run of bootc takes up to 17 seconds when it fails and up to 15 when it succeeds.\<close>

definition lasts2 :: "nat \<Rightarrow> nat \<Rightarrow> ('s timed, 'e, 'a) op \<Rightarrow> bool" where
  "lasts2 n k m \<longleftrightarrow> (\<forall>w. clock w \<le> clock (snd (m w)) \<and>
     (case fst (m w) of Inl _ \<Rightarrow> clock (snd (m w)) \<le> clock w + n | Inr _ \<Rightarrow> clock (snd (m w)) \<le> clock w + k))"

lemma lasts2_lasts: "lasts n m \<longleftrightarrow> lasts2 n n m"
  by (auto simp: lasts_def lasts2_def split: sum.splits)

lemma lasts2_and_then:
  assumes m: "lasts2 n k m" and f: "\<And>x. lasts2 i j (f x)" and "n \<le> e" "k + i \<le> e" "k + j \<le> r"
  shows "lasts2 e r (and_then m f)"
  unfolding lasts2_def
proof
  fix w
  obtain a u where u: "m w = (a, u)" by fastforce
  have 1: "clock w \<le> clock u" "case a of Inl _ \<Rightarrow> clock u \<le> clock w + n | Inr _ \<Rightarrow> clock u \<le> clock w + k"
    using m [unfolded lasts2_def, rule_format, of w] u by (auto split: sum.splits)
  show "clock w \<le> clock (snd (and_then m f w)) \<and> (case fst (and_then m f w) of Inl _ \<Rightarrow> clock (snd (and_then m f w)) \<le> clock w + e
      | Inr _ \<Rightarrow> clock (snd (and_then m f w)) \<le> clock w + r)"
  proof (cases a)
    case (Inl x)
    then show ?thesis using 1 u assms(3) by (simp add: and_then_def)
  next
    case (Inr x)
    obtain b v where v: "f x u = (b, v)" by fastforce
    have "clock u \<le> clock v" "case b of Inl _ \<Rightarrow> clock v \<le> clock u + i | Inr _ \<Rightarrow> clock v \<le> clock u + j"
      using f [of x, unfolded lasts2_def, rule_format, of u] v by (auto split: sum.splits)
    then show ?thesis using 1 u v Inr assms(4,5) by (auto simp: and_then_def split: sum.splits)
  qed
qed

lemma lasts2_basic: "lasts2 0 0 (ok x)" "lasts2 0 0 (err e)" "lasts2 0 0 (lift_res r)" "lasts2 0 0 (look f)"
  "lasts2 n k m \<Longrightarrow> lasts2 n k (map_err g m)"
  by (auto simp: lasts2_def ok_def err_def lift_res_def look_def map_err_def split: sum.splits prod.splits)
    (metis fst_conv snd_conv sum.case)+

lemma lasts2_mono: "lasts2 n k m \<Longrightarrow> n \<le> e \<Longrightarrow> k \<le> r \<Longrightarrow> lasts2 e r m"
  unfolding lasts2_def by (fastforce split: sum.splits)

lemma lasts2_backend: "lasts2 17000 15000 (backend_command env BACKEND_TIMEOUT)"
  by (auto simp: lasts2_def backend_command_def BACKEND_TIMEOUT_def Let_def split: prod.splits sum.splits)

lemma lasts2_if: "lasts2 n k a \<Longrightarrow> lasts2 n k b \<Longrightarrow> lasts2 n k (if c then a else b)"
  by simp

lemma lasts2_err: "lasts2 n k (err e)"
  by (rule lasts2_mono [OF lasts2_basic(2)]) simp_all

lemmas lasts2_worker = lasts_workers [unfolded lasts2_lasts]

lemma lasts2_mutation_state: "lasts2 17000 15000 (observe_mutation_state env)"
  unfolding observe_mutation_state_def by (rule lasts2_and_then [OF lasts2_backend lasts2_basic(3)]) simp_all

lemma lasts2_starts:
  "lasts2 21000 21000 (start_update permit env)" "lasts2 21000 21000 (start_rollback permit env)"
  "lasts2 12000 12000 (start_reboot permit env)"
proof -
  have m: "lasts2 18000 18000 (and_then (observe_mutation_state env) f)" if "\<And>x. lasts2 3000 3000 (f x)" for f :: "mutation_state \<Rightarrow> ('a timed, platform_error, unit) op"
    by (rule lasts2_and_then [OF lasts2_mutation_state that]) simp_all
  have o: "lasts2 (3000 + n) (3000 + n) (and_then (map_err g (observe_worker env u)) f)" if "\<And>x. lasts2 n n (f x)"
    for n u g and f :: "worker_observation \<Rightarrow> ('a timed, platform_error, unit) op"
    by (rule lasts2_and_then [OF lasts2_basic(5) [OF lasts2_worker(1)] that]) simp_all
  show "lasts2 21000 21000 (start_update permit env)" "lasts2 21000 21000 (start_rollback permit env)"
    unfolding start_update_def start_rollback_def
    by (auto intro!: o [of 18000, simplified] m lasts2_err lasts2_worker)
  have "lasts2 12000 12000 (request_reboot True (observe_worker env) (start_worker env REBOOT_UNIT reboot_unavailable))"
    unfolding request_reboot_def
    by (auto intro!: o [of 9000, simplified] o [of 6000, simplified] o [of 3000, simplified] lasts2_err lasts2_worker)
  then show "lasts2 12000 12000 (start_reboot permit env)"
    by (cases permit) (simp_all add: start_reboot_def request_reboot_def lasts2_err)
qed

lemma lasts2_network: "lasts2 3000 3000 (service_observe_network env)"
proof -
  have "lasts 3000 (timeout NETWORK_TIMEOUT (await (host_observer env)) :: ('a timed, unit stopped, string) op)"
    unfolding NETWORK_TIMEOUT_def by (intro time_intros)
  then have "lasts 3000 (service_observe_network env)"
    by (rule lasts_snd) (simp add: service_observe_network_def split: prod.splits)
  then show ?thesis by (simp add: lasts2_lasts)
qed

lemma lasts2_try_join:
  assumes m: "lasts2 n k m" and f: "lasts2 i j f" and "i \<le> n" "j \<le> k"
  shows "lasts2 n k (try_join m f)"
  unfolding lasts2_def
proof
  fix w
  obtain a u where u: "m w = (a, u)" by fastforce
  obtain b v where v: "f (u\<lparr>clock := clock w\<rparr>) = (b, v)" by fastforce
  have 1: "clock w \<le> clock u" "case a of Inl _ \<Rightarrow> clock u \<le> clock w + n | Inr _ \<Rightarrow> clock u \<le> clock w + k"
    using m [unfolded lasts2_def, rule_format, of w] u by (auto split: sum.splits)
  have 2: "clock w \<le> clock v" "case b of Inl _ \<Rightarrow> clock v \<le> clock w + i | Inr _ \<Rightarrow> clock v \<le> clock w + j"
    using f [unfolded lasts2_def, rule_format, of "u\<lparr>clock := clock w\<rparr>"] v by (auto split: sum.splits)
  show "clock w \<le> clock (snd (try_join m f w)) \<and> (case fst (try_join m f w) of Inl _ \<Rightarrow> clock (snd (try_join m f w)) \<le> clock w + n
      | Inr _ \<Rightarrow> clock (snd (try_join m f w)) \<le> clock w + k)"
    using 1 2 assms(3,4) by (cases a; cases b) (auto simp: try_join_def u v)
qed

lemma lasts2_status: "lasts2 24000 24000 (observe_status env)"
proof -
  have h: "lasts2 3000 3000 (timeout 3000 (health_block sd) :: ('a timed, unit stopped, health) op)" for sd
    unfolding lasts2_lasts [symmetric] health_block_def by (intro time_intros)
  note join = lasts2_try_join [OF lasts2_backend lasts2_network]
  have end': "lasts2 0 0 (and_then (lift_res r) (\<lambda>st. lift_res (g st)) :: ('a timed, platform_error, string) op)" for r :: "platform_error + status" and g
    by (rule lasts2_and_then [OF lasts2_basic(3) lasts2_basic(3)]) simp_all
  have 1: "lasts2 18000 18000 (and_then (try_join (backend_command env BACKEND_TIMEOUT) (service_observe_network env)) (\<lambda>(backend, net).
     and_then (map_err (\<lambda>_. health_error) (timeout 3000 (health_block (host_systemd env)))) (\<lambda>hlth.
     and_then (lift_res (k backend net hlth)) (\<lambda>st. lift_res (g st)))) :: ('a timed, platform_error, string) op)"
    for k :: "string \<Rightarrow> network_status \<Rightarrow> health \<Rightarrow> platform_error + status" and g
    by (rule lasts2_and_then [OF join, where i = 3000 and j = 3000])
      (auto intro!: lasts2_and_then [OF lasts2_basic(5) [OF h] end'] split: prod.split)
  show ?thesis
    unfolding observe_status_def
    by (rule lasts2_and_then [OF lasts2_basic(5) [OF lasts2_worker(1)], where i = 21000 and j = 21000],
        rule lasts2_and_then [OF lasts2_basic(5) [OF lasts2_worker(1)], where i = 18000 and j = 18000])
      (auto intro!: lasts2_and_then [OF lasts2_basic(4)] lasts2_and_then [OF lasts2_basic(3)] 1)
qed

end
