(* ===== verification/Platform_Client.thy ===== *)
theory Platform_Client
  imports Platform_Service
begin

text \<open>
  The callers of the platform interface: the client library (\<^verbatim>\<open>src/crates/platform-client/src/lib.rs\<close>), and sl-sessiond, which
  adds the state of remote management to the status (\<^verbatim>\<open>src/sessiond/src/main.rs\<close>).  A call is cut off by the connection after \<open>METHOD_TIMEOUT\<close>; the caller then sees an I/O error
  of the kind \<^verbatim>\<open>TimedOut\<close>.
\<close>

section \<open>The client\<close>

definition METHOD_TIMEOUT :: nat where "METHOD_TIMEOUT = 25000"

datatype client_error =
  SystemBusUnavailable | ServiceUnavailable | RemoteMethod string string | InvalidResponse | UnsupportedSchema | Unsupported
| RebootOutcomeUnknown

fun client_code :: "client_error \<Rightarrow> string" where
  "client_code SystemBusUnavailable = ''ServiceUnavailable''"
| "client_code ServiceUnavailable = ''ServiceUnavailable''"
| "client_code (RemoteMethod code _) = code"
| "client_code InvalidResponse = ''InvalidResponse''"
| "client_code UnsupportedSchema = ''UnsupportedSchema''"
| "client_code Unsupported = ''Unsupported''"
| "client_code RebootOutcomeUnknown = ''OutcomeUnknown''"

fun client_message :: "client_error \<Rightarrow> string" where
  "client_message SystemBusUnavailable = ''The system D-Bus is unavailable''"
| "client_message ServiceUnavailable = ''The local platform status service could not be reached''"
| "client_message (RemoteMethod _ message) = message"
| "client_message InvalidResponse = ''The platform returned an invalid status response''"
| "client_message UnsupportedSchema = ''The platform status schema is unsupported''"
| "client_message Unsupported = ''The platform API version does not support this operation''"
| "client_message RebootOutcomeUnknown =
     ''Reboot request outcome unknown: connection closed while awaiting confirmation; the system may be rebooting.''"

record api_version =
  major :: u32
  minor :: u32

definition version_component :: "string \<Rightarrow> u32 option" where
  "version_component v =
     (if v = [] \<or> \<not> list_all is_ascii_digit v then None
      else let n = foldl (\<lambda>a c. a * 10 + (of_char c - 48)) (0 :: nat) v in if n < 2 ^ 32 then Some (word_of_nat n) else None)"

definition parse_version :: "string \<Rightarrow> api_version option" where
  "parse_version v =
     Option.bind (split_once CHR ''.'' v) (\<lambda>(a, b).
     Option.bind (version_component a) (\<lambda>ma.
     Option.bind (version_component b) (\<lambda>mi. Some \<lparr>major = ma, minor = mi\<rparr>)))"

text \<open>The derived order compares the major version first.\<close>

definition supports :: "api_version \<Rightarrow> u32 \<Rightarrow> u32 \<Rightarrow> bool" where
  "supports v ma mi \<longleftrightarrow> ma < major v \<or> ma = major v \<and> mi \<le> minor v"

definition map_bus_error :: "zbus_error \<Rightarrow> client_error" where
  "map_bus_error e =
     (case e of
        ErrorReply name message \<Rightarrow>
          (case strip_prefix ''org.signallayer.Platform1.Error.'' name of
             Some code \<Rightarrow> RemoteMethod code (case message of Some m \<Rightarrow> m | None \<Rightarrow> ''Platform status query failed'')
           | None \<Rightarrow> ServiceUnavailable)
      | _ \<Rightarrow> ServiceUnavailable)"

definition map_reboot_error :: "zbus_error \<Rightarrow> client_error" where
  "map_reboot_error e =
     (case e of
        InputOutput k \<Rightarrow>
          if k \<in> {BrokenPipe, UnexpectedEof, ConnectionReset, ConnectionAborted, TimedOutKind} then RebootOutcomeUnknown
          else map_bus_error e
      | _ \<Rightarrow> map_bus_error e)"

definition decode_status :: "(string \<Rightarrow> status option) \<Rightarrow> string \<Rightarrow> client_error + status" where
  "decode_status from_str response =
     (case from_str response of
        None \<Rightarrow> Inl InvalidResponse
      | Some st \<Rightarrow> if schema_version st \<noteq> SCHEMA_VERSION then Inl UnsupportedSchema else Inr st)"

definition require_reboot_support :: "client_error + status \<Rightarrow> client_error + unit" where
  "require_reboot_support r =
     bind_res r (\<lambda>st.
     bind_res (ok_or InvalidResponse (parse_version (platform_api_version st))) (\<lambda>v.
     if \<not> supports v 0 2 then Inl Unsupported else Inr ()))"

text \<open>The platform on the bus: \<open>build_proxy\<close> is what the proxy does before the first call.\<close>

record 's client_env =
  build_proxy :: "('s, unit) call"
  status_member :: "('s, string) call"
  client_member :: "string \<Rightarrow> ('s, unit) call"
  status_from_str :: "string \<Rightarrow> status option"

definition client_call :: "('s, 'a) call \<Rightarrow> ('s timed, zbus_error, 'a) op" where
  "client_call c w =
     (case timeout METHOD_TIMEOUT (await c :: ('s, unit, 'a) block) w of
        (Inr x, w') \<Rightarrow> (Inr x, w')
      | (Inl (BusError e), w') \<Rightarrow> (Inl e, w')
      | (Inl _, w') \<Rightarrow> (Inl (InputOutput TimedOutKind), w'))"

definition proxy :: "'s client_env \<Rightarrow> ('s timed, client_error, unit) op" where
  "proxy env = map_err map_bus_error (client_call (build_proxy env))"

definition client_get_status :: "'s client_env \<Rightarrow> ('s timed, client_error, status) op" where
  "client_get_status env =
     and_then (proxy env) (\<lambda>_.
     and_then (map_err map_bus_error (client_call (status_member env))) (\<lambda>response.
     lift_res (decode_status (status_from_str env) response)))"

definition client_start_update :: "'s client_env \<Rightarrow> ('s timed, client_error, unit) op" where
  "client_start_update env = and_then (proxy env) (\<lambda>_. map_err map_bus_error (client_call (client_member env ''StartUpdate'')))"

definition client_start_rollback :: "'s client_env \<Rightarrow> ('s timed, client_error, unit) op" where
  "client_start_rollback env = and_then (proxy env) (\<lambda>_. map_err map_bus_error (client_call (client_member env ''StartRollback'')))"

definition client_start_reboot :: "'s client_env \<Rightarrow> ('s timed, client_error, unit) op" where
  "client_start_reboot env =
     and_then (attempt (client_get_status env)) (\<lambda>r.
     and_then (lift_res (require_reboot_support r)) (\<lambda>_.
     and_then (proxy env) (\<lambda>_.
     map_err map_reboot_error (client_call (client_member env ''StartReboot'')))))"

section \<open>sl-sessiond\<close>

definition LISTENING_PATH :: path where "LISTENING_PATH = [''run'', ''sl-remoted'', ''listening'']"

definition SESSION_AUTH_TIMEOUT :: nat where "SESSION_AUTH_TIMEOUT = 10000"

datatype session_error =
  PlatformUnavailable string | InvalidPlatformStatus string | UnsupportedPlatform string
| SessionRemoteUnavailable string | SessionAuthUnavailable string

fun map_platform_error :: "client_error \<Rightarrow> session_error" where
  "map_platform_error InvalidResponse = InvalidPlatformStatus ''The Platform service returned an invalid status response''"
| "map_platform_error UnsupportedSchema = UnsupportedPlatform ''The Platform status schema is unsupported''"
| "map_platform_error _ = PlatformUnavailable ''Platform status is temporarily unavailable''"

record 's session_env =
  session_client :: "'s client_env"
  session_io :: io_env
  session_files :: "'s \<Rightarrow> world"
  put_session_files :: "world \<Rightarrow> 's \<Rightarrow> 's"
  enrollment_state :: "('s, bool \<times> bool) call"
  session_to_string :: "session_status \<Rightarrow> string option"

text \<open>The result is a value: a failure to check is kept until \<^verbatim>\<open>compose\<close> looks at it.\<close>

definition session_path_exists :: "'s session_env \<Rightarrow> path \<Rightarrow> ('s timed, 'e, unit + bool) op" where
  "session_path_exists env p =
     and_then (attempt (on_part (\<lambda>w. session_files env (outside w)) (\<lambda>f w. w\<lparr>outside := put_session_files env f (outside w)\<rparr>)
       (symlink_metadata (session_io env) p))) (\<lambda>r.
     ok (case r of Inr _ \<Rightarrow> Inr True | Inl e \<Rightarrow> if e = NotFound then Inr False else Inl ()))"

definition compose :: "status \<Rightarrow> unit + bool \<Rightarrow> unit + bool \<Rightarrow> unit + bool \<Rightarrow> session_error + session_status" where
  "compose st on up who =
     bind_res (map_sum (\<lambda>_. SessionRemoteUnavailable ''Remote-management state is temporarily unavailable'') (\<lambda>x. x) on) (\<lambda>on.
     bind_res (map_sum (\<lambda>_. SessionRemoteUnavailable ''Remote-management state is temporarily unavailable'') (\<lambda>x. x) up) (\<lambda>up.
     bind_res (map_sum (\<lambda>_. SessionAuthUnavailable ''The authentication service is temporarily unavailable'') (\<lambda>x. x) who) (\<lambda>who.
     Inr (from_platform st \<lparr>enabled = on, listening = up, enrolled = who\<rparr>))))"

definition session_enrolled :: "'s session_env \<Rightarrow> ('s timed, 'e, unit + bool) op" where
  "session_enrolled env =
     and_then (attempt (timeout SESSION_AUTH_TIMEOUT (await (enrollment_state env) :: ('s, unit, bool \<times> bool) block))) (\<lambda>r.
     ok (map_sum (\<lambda>_. ()) fst r))"

definition get_platform_status :: "'s session_env \<Rightarrow> ('s timed, session_error, string) op" where
  "get_platform_status env =
     and_then (map_err map_platform_error (client_get_status (session_client env))) (\<lambda>st.
     and_then (session_path_exists env (STATE_DIR @ [ENABLED])) (\<lambda>on.
     and_then (session_path_exists env LISTENING_PATH) (\<lambda>up.
     and_then (session_enrolled env) (\<lambda>who.
     and_then (lift_res (compose st on up who)) (\<lambda>session.
     lift_res (ok_or (InvalidPlatformStatus ''The Platform status response could not be serialized'') (session_to_string env session)))))))"

section \<open>Properties\<close>

text \<open>Platformd on the bus.  GetStatus is seen by the caller that starts the observation; one that joins it waits less.\<close>

definition with_platform :: "'s platform_env \<Rightarrow> bool \<Rightarrow> 's client_env \<Rightarrow> 's client_env" where
  "with_platform penv permit env =
     env\<lparr>status_member := served (\<lambda>w. case observe_status penv w of (r, w') \<Rightarrow> (get_status (Some r), w')),
         client_member := (\<lambda>name.
           if name = ''StartUpdate'' then served (start_update permit penv)
           else if name = ''StartRollback'' then served (start_rollback permit penv)
           else if name = ''StartReboot'' then served (start_reboot permit penv)
           else client_member env name)\<rparr>"

text \<open>What a caller hears who waits long enough.\<close>

definition heard :: "('s timed, platform_error, 'a) op \<Rightarrow> ('s timed, zbus_error, 'a) op" where
  "heard m w = (case m \<lparr>clock = 0, outside = outside w\<rparr> of (r, v) \<Rightarrow>
     (map_sum platform_reply (\<lambda>x. x) r, \<lparr>clock = clock w + clock v, outside = outside v\<rparr>))"

lemma client_call_served:
  assumes "lasts2 n n m" "n \<le> METHOD_TIMEOUT"
  shows "client_call (served m) w = heard m w"
proof -
  have "clock (snd (m \<lparr>clock = 0, outside = outside w\<rparr>)) \<le> n"
    using assms(1) [unfolded lasts2_lasts [symmetric] lasts_def, rule_format, of "\<lparr>clock = 0, outside = outside w\<rparr>"] by simp
  then have "clock (snd (m \<lparr>clock = 0, outside = outside w\<rparr>)) \<le> METHOD_TIMEOUT" using assms(2) by simp
  then show ?thesis by (auto simp: client_call_def heard_def timeout_def await_def served_def split: prod.splits sum.splits)
qed

text \<open>C34: The deadline of the client covers platformd: the status and the starts of the update, the rollback and the reboot
  are answered within 25 seconds, bootc and every poll included, so the caller hears the answer of platformd and never a
  time-out; an error of platformd reaches it with its own name and text.\<close>

theorem client_hears_platform:
  "client_call (status_member (with_platform penv permit env)) w = heard (observe_status penv) w \<and>
   client_call (client_member (with_platform penv permit env) ''StartUpdate'') w = heard (start_update permit penv) w \<and>
   client_call (client_member (with_platform penv permit env) ''StartRollback'') w = heard (start_rollback permit penv) w \<and>
   client_call (client_member (with_platform penv permit env) ''StartReboot'') w = heard (start_reboot permit penv) w"
  by (simp add: with_platform_def get_status_def client_call_served [OF lasts2_status] client_call_served [OF lasts2_starts(1)]
      client_call_served [OF lasts2_starts(2)] client_call_served [OF lasts2_starts(3)] METHOD_TIMEOUT_def)

text \<open>The file system of the device, seen by sl-sessiond through its calls.\<close>

definition files_steady :: "'s session_env \<Rightarrow> bool" where
  "files_steady env \<longleftrightarrow>
     (\<forall>f s. session_files env (put_session_files env f s) = f) \<and>
     (\<forall>s. disk (session_files env (snd (snd (build_proxy (session_client env) s)))) = disk (session_files env s)) \<and>
     (\<forall>s. disk (session_files env (snd (snd (status_member (session_client env) s)))) = disk (session_files env s)) \<and>
     (\<forall>s. disk (session_files env (snd (snd (enrollment_state env s)))) = disk (session_files env s))"

abbreviation on_disk :: "'s session_env \<Rightarrow> fs \<Rightarrow> 's timed \<Rightarrow> bool" where
  "on_disk env d w \<equiv> disk (session_files env (outside w)) = d"

lemma client_call_disk:
  assumes "\<And>s. disk (session_files env (snd (snd (c s)))) = disk (session_files env s)"
  shows "preserves (on_disk env d) (client_call c)"
  using assms by (auto simp: preserves_def client_call_def timeout_def await_def split: prod.splits sum.splits) (metis snd_conv)+

lemma path_exists_disk:
  assumes "files_steady env" "p \<noteq> []" "on_disk env d w"
  shows "wp (session_path_exists env p) (\<lambda>r w'. on_disk env d w' \<and> (\<forall>x. r = Inr x \<longrightarrow> x = (map_of d p \<noteq> None))) (\<lambda>_. on_disk env d) w"
  using assms stat_Inl_None [OF assms(2), of d]
  by (auto simp: session_path_exists_def files_steady_def wp_simps wp_and_then_fun Let_def stat_Inr [OF assms(2)] split: sum.splits)

lemma client_status_disk:
  assumes "files_steady env" "on_disk env d w"
  shows "wp (map_err map_platform_error (client_get_status (session_client env))) (\<lambda>st w'. on_disk env d w' \<and> schema_version st = SCHEMA_VERSION)
    (\<lambda>_ _. True) w"
proof -
  have p: "preserves (on_disk env d) (proxy (session_client env))"
    unfolding proxy_def by (rule preserves_map_err, rule client_call_disk) (use assms(1) in \<open>simp add: files_steady_def\<close>)
  have c: "preserves (on_disk env d) (map_err map_bus_error (client_call (status_member (session_client env))))"
    by (rule preserves_map_err, rule client_call_disk) (use assms(1) in \<open>simp add: files_steady_def\<close>)
  have l: "wp (lift_res (decode_status f body)) (\<lambda>st w'. on_disk env d w' \<and> schema_version st = SCHEMA_VERSION) (\<lambda>_ _. True) w'"
    if "on_disk env d w'" for f body and w' :: "'a timed"
    using that by (auto simp: wp_lift_res decode_status_def split: option.splits)
  show ?thesis
    unfolding client_get_status_def wp_map_err
    apply (rule wp_bind [OF preservesD [where I = "on_disk env d", OF p assms(2)]])
    apply (rule wp_bind [OF preservesD [where I = "on_disk env d", OF c]])
    apply assumption
     apply (rule l, assumption)
    apply simp_all
   done
qed


subsection \<open>A device that is enabled\<close>

definition demo_platform_status :: status where
  "demo_platform_status =
     \<lparr>schema_version = ''0.3'', product = ''SignalLayer CoreOS'', version = ''0.0.3'', platform_api_version = ''0.3'',
      source_revision = None, build_id = None,
      machine = \<lparr>machine_id = ''machine'', architecture = ''x86_64'', boot_id = ''boot''\<rparr>,
      network = \<lparr>network_status_state = ConnectedGlobal, primary_connection = None\<rparr>,
      booted = \<lparr>deployment_id = ''a.0'', image_reference = None, image_digest = None\<rparr>, retained_rollback = None,
      update = \<lparr>update_status_state = UpdateIdle, staged = None, update_reboot_required = False, update_status_failure = None\<rparr>,
      rollback = \<lparr>rollback_status_state = RollbackIdle, rollback_reboot_required = False, rollback_status_failure = None\<rparr>,
      health = \<lparr>health_state = Healthy, system_state = ''running'', failed_units = 0\<rparr>\<rparr>"

definition demo_session :: "world session_env" where
  "demo_session =
     \<lparr>session_client = \<lparr>build_proxy = (\<lambda>s. (Inr (), 1, s)), status_member = (\<lambda>s. (Inr ''status'', 5, s)),
        client_member = (\<lambda>_ s. (Inr (), 5, s)), status_from_str = (\<lambda>_. Some demo_platform_status)\<rparr>,
      session_io = \<lparr>io_fault = \<lambda>_. False, io_partial = \<lambda>_. 0, link_fault = \<lambda>_. False\<rparr>, session_files = (\<lambda>s. s), put_session_files = (\<lambda>f _. f),
      enrollment_state = (\<lambda>s. (Inr (True, False), 5, s)),
      session_to_string = (\<lambda>st. Some (if enabled (remote_management st) \<and> \<not> listening (remote_management st) then ''enabled'' else ''other''))\<rparr>"

definition demo_session_world :: "world timed" where
  "demo_session_world = \<lparr>clock = 0, outside = \<lparr>disk = [([''var''], Dir), ([''var'', ''lib''], Dir), (STATE_DIR, Dir), (STATE_DIR @ [ENABLED], File [] True)],
     images = [], tick = 0\<rparr>\<rparr>"


end
