(* ===== verification/Corectl.thy ===== *)
theory Corectl
  imports Platform_Client
begin

text \<open>
  The command line tool (\<^verbatim>\<open>src/corectl/src/main.rs\<close>): its arguments, the four commands over the client and what they print.
  The property says what the exit status of a reboot means.
\<close>

section \<open>Reports\<close>

definition EXIT_FAILURE :: u8 where "EXIT_FAILURE = 1"
definition EXIT_OUTCOME_UNKNOWN :: u8 where "EXIT_OUTCOME_UNKNOWN = 3"

record report =
  report_exit :: u8
  report_stdout :: "string option"
  report_stderr :: "string option"

text \<open>\<open>error_json\<close> is the text of \<^verbatim>\<open>serde_json::json!\<close> for a code and a message.\<close>

definition error_report :: "(string \<Rightarrow> string \<Rightarrow> string) \<Rightarrow> bool \<Rightarrow> u8 \<Rightarrow> string \<Rightarrow> string \<Rightarrow> report" where
  "error_report error_json json exit code message =
     (if json then \<lparr>report_exit = exit, report_stdout = Some (error_json code message), report_stderr = None\<rparr>
      else \<lparr>report_exit = exit, report_stdout = None, report_stderr = Some (''corectl: '' @ code @ '': '' @ message)\<rparr>)"

definition ACCEPTED_JSON :: string where
  "ACCEPTED_JSON = ''{'' @ [CHR 0x22] @ ''state'' @ [CHR 0x22] @ '':'' @ [CHR 0x22] @ ''accepted'' @ [CHR 0x22] @ ''}''"

definition reboot_report :: "(string \<Rightarrow> string \<Rightarrow> string) \<Rightarrow> bool \<Rightarrow> client_error + unit \<Rightarrow> report" where
  "reboot_report error_json json r =
     (case r of
        Inr _ \<Rightarrow> \<lparr>report_exit = 0,
            report_stdout = Some (if json then ACCEPTED_JSON else ''Reboot accepted by systemd. The system is restarting.''),
            report_stderr = None\<rparr>
      | Inl RebootOutcomeUnknown \<Rightarrow>
          if json then error_report error_json json EXIT_OUTCOME_UNKNOWN (client_code RebootOutcomeUnknown) (client_message RebootOutcomeUnknown)
          else \<lparr>report_exit = EXIT_OUTCOME_UNKNOWN, report_stdout = None, report_stderr = Some (client_message RebootOutcomeUnknown)\<rparr>
      | Inl e \<Rightarrow> error_report error_json json EXIT_FAILURE (client_code e) (client_message e))"

datatype corectl_action = CtlStatus | CtlUpdate | CtlRollback | CtlReboot

definition corectl_action :: "string list \<Rightarrow> corectl_action option" where
  "corectl_action args =
     (if args = [''status''] \<or> args = [''status'', ''--json''] then Some CtlStatus
      else if args = [''update''] \<or> args = [''update'', ''--json''] then Some CtlUpdate
      else if args = [''rollback''] \<or> args = [''rollback'', ''--json''] then Some CtlRollback
      else if args = [''reboot''] \<or> args = [''reboot'', ''--json''] then Some CtlReboot
      else None)"

section \<open>Printing the status\<close>

definition newline :: string where "newline = [CHR 0x0A]"

definition UNKNOWN_TEXT :: string where "UNKNOWN_TEXT = ''unknown''"

fun join_comma :: "string list \<Rightarrow> string" where
  "join_comma [] = []"
| "join_comma [x] = x"
| "join_comma (x # xs) = x @ '', '' @ join_comma xs"

definition or_else :: "string \<Rightarrow> string option \<Rightarrow> string" where
  "or_else d x = (case x of Some v \<Rightarrow> v | None \<Rightarrow> d)"

definition update_text :: "update_status \<Rightarrow> string" where
  "update_text u =
     (case update_status_state u of
        UpdateIdle \<Rightarrow> ''idle''
      | UpdateRunning \<Rightarrow> ''running''
      | UpdateStaged \<Rightarrow> ''staged (reboot required; '' @ or_else UNKNOWN_TEXT (map_option deployment_id (staged u)) @ '')''
      | UpdateFailed \<Rightarrow> ''failed ('' @ or_else ''unknown worker failure'' (map_option update_failure_message (update_status_failure u)) @ '')'')"

definition rollback_text :: "rollback_status \<Rightarrow> string" where
  "rollback_text r =
     (case rollback_status_state r of
        RollbackIdle \<Rightarrow> ''idle''
      | RollbackRunning \<Rightarrow> ''running''
      | RollbackQueued \<Rightarrow> ''queued (reboot required)''
      | RollbackFailed \<Rightarrow> ''failed ('' @ or_else ''unknown worker failure'' (map_option rollback_failure_message (rollback_status_failure r)) @ '')'')"

fun debug_health :: "health_state \<Rightarrow> string" where
  "debug_health Healthy = ''Healthy''"
| "debug_health Degraded = ''Degraded''"

fun debug_network :: "network_state \<Rightarrow> string" where
  "debug_network Unknown = ''Unknown''"
| "debug_network Disconnected = ''Disconnected''"
| "debug_network Connecting = ''Connecting''"
| "debug_network ConnectedLocal = ''ConnectedLocal''"
| "debug_network ConnectedSite = ''ConnectedSite''"
| "debug_network ConnectedGlobal = ''ConnectedGlobal''"

definition none_or_list :: "string list \<Rightarrow> string" where
  "none_or_list xs = (if xs = [] then ''none'' else join_comma xs)"

definition connection_text :: "primary_connection option \<Rightarrow> string" where
  "connection_text c =
     (case c of
        Some p \<Rightarrow> ''Primary connection: '' @ interface p @ newline @ ''Addresses: '' @ none_or_list (addresses p) @ newline @
          ''Default gateways: '' @ none_or_list (default_gateways p) @ newline
      | None \<Rightarrow> ''Primary connection: none'' @ newline)"

definition status_text :: "status \<Rightarrow> string" where
  "status_text st =
     product st @ '' '' @ version st @ newline @
     ''Platform API: '' @ platform_api_version st @ newline @
     ''Source: '' @ or_else UNKNOWN_TEXT (source_revision st) @ newline @
     ''Build: '' @ or_else UNKNOWN_TEXT (build_id st) @ newline @
     ''Deployment: '' @ deployment_id (booted st) @ newline @
     ''Image: '' @ or_else UNKNOWN_TEXT (image_reference (booted st)) @ newline @
     ''Digest: '' @ or_else UNKNOWN_TEXT (image_digest (booted st)) @ newline @
     ''Retained rollback: '' @ or_else ''none'' (map_option deployment_id (retained_rollback st)) @ newline @
     ''Health: '' @ debug_health (health_state (health st)) @ '' (systemd '' @ system_state (health st) @ ''; '' @
       decimal (unat (failed_units (health st))) @ '' failed units)'' @ newline @
     ''Machine: '' @ machine_id (machine st) @ '' ('' @ architecture (machine st) @ ''; boot '' @ boot_id (machine st) @ '')'' @ newline @
     ''Network: '' @ debug_network (network_status_state (network st)) @ newline @
     connection_text (primary_connection (network st)) @
     ''Update: '' @ update_text (update st) @ newline @
     ''Rollback: '' @ rollback_text (rollback st) @ newline"

section \<open>The program\<close>

text \<open>\<open>bus_up\<close> says that the connection to the system bus is made; \<open>status_pretty\<close> is \<^verbatim>\<open>serde_json::to_string_pretty\<close>.\<close>

record 's corectl_env =
  client :: "'s client_env"
  bus_up :: bool
  error_json :: "string \<Rightarrow> string \<Rightarrow> string"
  status_pretty :: "status \<Rightarrow> string"

record ctl_output =
  exit_code :: u8
  to_stdout :: string
  to_stderr :: string

definition emit :: "report \<Rightarrow> ctl_output" where
  "emit r =
     \<lparr>exit_code = report_exit r,
      to_stdout = (case report_stdout r of Some t \<Rightarrow> t @ newline | None \<Rightarrow> []),
      to_stderr = (case report_stderr r of Some t \<Rightarrow> t @ newline | None \<Rightarrow> [])\<rparr>"

definition report_error :: "'s corectl_env \<Rightarrow> bool \<Rightarrow> string \<Rightarrow> string \<Rightarrow> ctl_output" where
  "report_error env json code message = emit (error_report (error_json env) json EXIT_FAILURE code message)"

definition report_client_error :: "'s corectl_env \<Rightarrow> bool \<Rightarrow> client_error \<Rightarrow> ctl_output" where
  "report_client_error env json e = report_error env json (client_code e) (client_message e)"

definition RUNNING_JSON :: string where
  "RUNNING_JSON = ''{'' @ [CHR 0x22] @ ''state'' @ [CHR 0x22] @ '':'' @ [CHR 0x22] @ ''running'' @ [CHR 0x22] @ ''}''"

definition success :: "string \<Rightarrow> ctl_output" where
  "success out = \<lparr>exit_code = 0, to_stdout = out, to_stderr = []\<rparr>"

definition start_output :: "'s corectl_env \<Rightarrow> bool \<Rightarrow> string \<Rightarrow> client_error + unit \<Rightarrow> ctl_output" where
  "start_output env json said r =
     (case r of
        Inr _ \<Rightarrow> success ((if json then RUNNING_JSON else said) @ newline)
      | Inl e \<Rightarrow> report_client_error env json e)"

definition USAGE :: string where
  "USAGE = ''Usage: corectl status [--json] | corectl update [--json] | corectl rollback [--json] | corectl reboot [--json]''"

definition connect :: "'s corectl_env \<Rightarrow> client_error + unit" where
  "connect env = (if bus_up env then Inr () else Inl SystemBusUnavailable)"

fun run_action :: "'s corectl_env \<Rightarrow> bool \<Rightarrow> corectl_action \<Rightarrow> 's timed \<Rightarrow> ctl_output \<times> 's timed" where
  "run_action env json CtlUpdate w =
     (case client_start_update (client env) w of
        (r, w') \<Rightarrow> (start_output env json ''Update staging started. Use `corectl status` to observe it.'' r, w'))"
| "run_action env json CtlReboot w =
     (case client_start_reboot (client env) w of (r, w') \<Rightarrow> (emit (reboot_report (error_json env) json r), w'))"
| "run_action env json CtlRollback w =
     (case client_start_rollback (client env) w of
        (r, w') \<Rightarrow> (start_output env json ''Rollback selection started. Use `corectl status` to observe it.'' r, w'))"
| "run_action env json CtlStatus w =
     (case client_get_status (client env) w of
        (Inl e, w') \<Rightarrow> (report_client_error env json e, w')
      | (Inr st, w') \<Rightarrow> (success (if json then status_pretty env st @ newline else status_text st), w'))"

definition corectl_main :: "'s corectl_env \<Rightarrow> string list \<Rightarrow> 's timed \<Rightarrow> ctl_output \<times> 's timed" where
  "corectl_main env args w =
     (let json = ''--json'' \<in> set args in
      case corectl_action args of
        None \<Rightarrow> (report_error env json ''Usage'' USAGE, w)
      | Some a \<Rightarrow>
          (case connect env of
             Inl e \<Rightarrow> (report_client_error env json e, w)
           | Inr _ \<Rightarrow> run_action env json a w))"
section \<open>The exit status of a reboot\<close>

text \<open>The state in which the reboot is requested: the status was read, its version is at least 0.2, and the proxy is there.\<close>

definition asked :: "'s client_env \<Rightarrow> 's timed \<Rightarrow> 's timed \<Rightarrow> bool" where
  "asked c w w1 \<longleftrightarrow>
     (\<exists>st v w0. client_get_status c w = (Inr st, w0) \<and> parse_version (platform_api_version st) = Some v \<and> supports v 0 2 \<and>
        proxy c w0 = (Inr (), w1))"

lemma reboot_not_asked:
  assumes "\<nexists>w1. asked c w w1"
  shows "\<exists>e w'. client_start_reboot c w = (Inl e, w') \<and> e \<noteq> RebootOutcomeUnknown"
proof -
  have p: "fst (proxy c w0) \<noteq> Inl RebootOutcomeUnknown" for w0
    by (auto simp: proxy_def map_err_def map_bus_error_def split: sum.splits prod.splits zbus_error.splits option.splits)
  have s: "fst (client_get_status c w) \<noteq> Inl RebootOutcomeUnknown"
    using p [of w] by (auto simp: client_get_status_def and_then_def map_err_def map_bus_error_def decode_status_def lift_res_def
        split: sum.splits prod.splits zbus_error.splits option.splits if_splits)
  obtain r w0 where r: "client_get_status c w = (r, w0)" by fastforce
  obtain q w1 where q: "proxy c w0 = (q, w1)" by fastforce
  show ?thesis
    using assms r q s p [of w0]
    by (cases r; cases q)
      (auto simp: client_start_reboot_def asked_def and_then_def attempt_def lift_res_def require_reboot_support_def bind_res_def ok_or_def
        split: option.splits if_splits)
qed

lemma reboot_asked:
  assumes "asked c w w1"
  shows "client_start_reboot c w = map_err map_reboot_error (client_call (client_member c ''StartReboot'')) w1"
  using assms
  by (auto simp: asked_def client_start_reboot_def and_then_def attempt_def lift_res_def require_reboot_support_def bind_res_def ok_or_def)

lemma reboot_exits:
  "exit_code (emit (reboot_report j json (Inr u))) = 0"
  "exit_code (emit (reboot_report j json (Inl RebootOutcomeUnknown))) = 3"
  "e \<noteq> RebootOutcomeUnknown \<Longrightarrow> exit_code (emit (reboot_report j json (Inl e))) = 1"
  by (simp_all add: emit_def reboot_report_def error_report_def EXIT_FAILURE_def EXIT_OUTCOME_UNKNOWN_def split: client_error.splits)

lemma map_reboot_unknown:
  "map_reboot_error e = RebootOutcomeUnknown \<longleftrightarrow>
     (\<exists>k. e = InputOutput k \<and> k \<in> {BrokenPipe, UnexpectedEof, ConnectionReset, ConnectionAborted, TimedOutKind})"
  by (auto simp: map_reboot_error_def map_bus_error_def split: zbus_error.splits option.splits)

lemma asked_unique: "asked c w w1 \<Longrightarrow> asked c w w2 \<Longrightarrow> w1 = w2"
  by (auto simp: asked_def)

lemma main_reboot:
  assumes "flags \<in> {[], [''--json'']}"
  shows "corectl_main env (''reboot'' # flags) w =
    (if bus_up env then run_action env (flags \<noteq> []) CtlReboot w else (report_client_error env (flags \<noteq> []) SystemBusUnavailable, w))"
  using assms by (auto simp: corectl_main_def corectl_action_def connect_def)

lemma main_reboot_exit:
  assumes "flags \<in> {[], [''--json'']}" "corectl_main env (''reboot'' # flags) w = (out, w')" "bus_up env"
    "client_start_reboot (client env) w = (r, v)"
  shows "exit_code out = exit_code (emit (reboot_report (error_json env) (flags \<noteq> []) r))"
  using assms(2-4) unfolding main_reboot [OF assms(1)] by auto

text \<open>C35: The exit status of \<^verbatim>\<open>corectl reboot\<close> is 0 exactly if the reboot was requested and the request was answered, 3 exactly if
  it was requested and the connection was lost or the deadline passed before an answer, and 1 otherwise: nothing was
  requested, or the request was refused.\<close>

theorem corectl_reboot_exit:
  assumes "flags \<in> {[], [''--json'']}" "corectl_main env (''reboot'' # flags) w = (out, w')"
  shows "(exit_code out = 0 \<longleftrightarrow>
      bus_up env \<and> (\<exists>w1. asked (client env) w w1 \<and> fst (client_call (client_member (client env) ''StartReboot'') w1) = Inr ())) \<and>
    (exit_code out = 3 \<longleftrightarrow>
      bus_up env \<and> (\<exists>w1 k. asked (client env) w w1 \<and> fst (client_call (client_member (client env) ''StartReboot'') w1) = Inl (InputOutput k) \<and>
        k \<in> {BrokenPipe, UnexpectedEof, ConnectionReset, ConnectionAborted, TimedOutKind})) \<and>
    exit_code out \<in> {0, 1, 3}"
proof (cases "bus_up env \<and> (\<exists>w1. asked (client env) w w1)")
  case True
  then obtain w1 where w1: "asked (client env) w w1" and up: "bus_up env" by auto
  obtain r w2 where r: "client_call (client_member (client env) ''StartReboot'') w1 = (r, w2)" by fastforce
  have out: "exit_code out = exit_code (emit (reboot_report (error_json env) (flags \<noteq> []) (map_sum map_reboot_error (\<lambda>x. x) r)))"
    by (rule main_reboot_exit [OF assms up, of _ w2]) (cases r; simp add: reboot_asked [OF w1] map_err_def r)
  have u: "asked (client env) w x \<longleftrightarrow> x = w1" for x using w1 asked_unique by blast
  show ?thesis
  proof (cases r)
    case (Inl e)
    show ?thesis
      using out up r u Inl map_reboot_unknown [of e] reboot_exits(2,3)
      by (cases "map_reboot_error e = RebootOutcomeUnknown") auto
  qed (use out up r u reboot_exits(1) in auto)
next
  case False
  have "exit_code out = 1"
  proof (cases "bus_up env")
    case True
    then obtain e v where "client_start_reboot (client env) w = (Inl e, v)" "e \<noteq> RebootOutcomeUnknown"
      using False reboot_not_asked by blast
    then show ?thesis using main_reboot_exit [OF assms True] reboot_exits(3) by metis
  qed (use assms(2) [unfolded main_reboot [OF assms(1)]] in \<open>auto simp: report_client_error_def report_error_def emit_def error_report_def EXIT_FAILURE_def\<close>)
  then show ?thesis using False by auto
qed
subsection \<open>A machine that goes down before it answers\<close>

definition closing_platform :: "unit corectl_env" where
  "closing_platform =
     \<lparr>client = \<lparr>build_proxy = (\<lambda>s. (Inr (), 1, s)), status_member = (\<lambda>s. (Inr ''status'', 5, s)),
        client_member = (\<lambda>_ s. (Inl (InputOutput UnexpectedEof), 5, s)), status_from_str = (\<lambda>_. Some demo_platform_status)\<rparr>,
      bus_up = True, error_json = (\<lambda>code _. code), status_pretty = version\<rparr>"

definition started_clock :: "unit timed" where "started_clock = \<lparr>clock = 0, outside = ()\<rparr>"

theorem corectl_reboot_exit_witness:
  "[] \<in> {[], [''--json'']} \<and> exit_code (fst (corectl_main closing_platform [''reboot''] started_clock)) = 3"
proof -
  obtain out w' where o: "corectl_main closing_platform [''reboot''] started_clock = (out, w')" by fastforce
  have a: "asked (client closing_platform) started_clock \<lparr>clock = 7, outside = ()\<rparr>"
    by (simp add: asked_def client_get_status_def proxy_def client_call_def timeout_def await_def decode_status_def closing_platform_def
        started_clock_def demo_platform_status_def METHOD_TIMEOUT_def SCHEMA_VERSION_def and_then_def map_err_def lift_res_def
        parse_version_def version_component_def supports_def is_ascii_digit_def)
  have c: "bus_up closing_platform \<and>
      fst (client_call (client_member (client closing_platform) ''StartReboot'') \<lparr>clock = 7, outside = ()\<rparr>) = Inl (InputOutput UnexpectedEof)"
    by (simp add: closing_platform_def client_call_def timeout_def await_def METHOD_TIMEOUT_def)
  have "exit_code out = 3" using corectl_reboot_exit [OF _ o] a c by auto
  then show ?thesis using o by simp
qed

end
