(* ===== verification/Mutations.thy ===== *)
theory Mutations
  imports Platform_Service
begin

text \<open>
  The starts of the update, rollback and reboot workers on the host they run on.  systemd queues the job of a start and
  begins it later, a worker that has begun ends by itself, and calls over the bus may be lost or late.  platformd starts one
  of the deployment workers only if the other is neither running nor queued, provided that no job was left over; a start
  that timed out leaves one, and then the exclusion is lost.
\<close>

section \<open>The host\<close>

record host_weather = weather +
  ends :: "string \<Rightarrow> bool"
  begins :: bool

record host =
  active :: "string \<Rightarrow> bool"
  queue :: "string list"
  invocation :: "string \<Rightarrow> nat"
  host_calls :: nat

record host_env =
  host_weather_at :: "nat \<Rightarrow> host_weather"
  bootc_child :: "nat \<Rightarrow> child"
  bootc_json :: "string \<Rightarrow> json option"

definition begin_unit :: "string \<Rightarrow> host \<Rightarrow> host" where
  "begin_unit u h = h\<lparr>active := (active h)(u := True), invocation := (invocation h)(u := invocation h u + 1)\<rparr>"

text \<open>Before a call some workers end and the queued jobs may begin.\<close>

definition host_before :: "host_env \<Rightarrow> host \<Rightarrow> host" where
  "host_before env h =
     (let weather = host_weather_at env (host_calls h);
          h1 = h\<lparr>host_calls := host_calls h + 1, active := (\<lambda>u. active h u \<and> \<not> ends weather u)\<rparr>
      in if begins weather then (fold begin_unit (queue h1) h1)\<lparr>queue := []\<rparr> else h1)"

abbreviation reach :: "host_env \<Rightarrow> (host \<Rightarrow> (zbus_error + 'a) \<times> host) \<Rightarrow> (host, 'a) call" where
  "reach env act \<equiv> lossy (\<lambda>h. host_weather_at env (host_calls h)) (host_before env) act"

definition host_state :: "host \<Rightarrow> string \<Rightarrow> string" where
  "host_state h u = (if active h u then ''activating'' else ''inactive'')"

definition host_services :: "host_env \<Rightarrow> host systemd" where
  "host_services env =
     \<lparr>load_unit = (\<lambda>u. reach env (\<lambda>h. (Inr u, h))),
      unit_property = (\<lambda>u _ p. reach env (\<lambda>h. (Inr (if p = ''Result'' then ''success'' else host_state h u), h))),
      main_status = (\<lambda>u. reach env (\<lambda>h. (Inr 0, h))),
      invocation_id = (\<lambda>u. reach env (\<lambda>h. (Inr [word_of_nat (invocation h u)], h))),
      start_unit = (\<lambda>u _. reach env (\<lambda>h. (Inr u, h\<lparr>queue := queue h @ [u]\<rparr>))),
      stop_unit = (\<lambda>u _. reach env (\<lambda>h. (Inr u, h))),
      list_jobs = reach env (\<lambda>h. (Inr (queue h), h)),
      manager_state = reach env (\<lambda>h. (Inr ''running'', h)),
      failed_count = reach env (\<lambda>h. (Inr 0, h))\<rparr>"

definition host_platform :: "host_env \<Rightarrow> host platform_env" where
  "host_platform env =
     \<lparr>host_systemd = host_services env, bootc_status = (\<lambda>h. (bootc_child env (host_calls h), h)),
      host_observer = reach env (\<lambda>h. (Inr [], h)), host_network_from_str = (\<lambda>_. None), release_file = (\<lambda>_. None),
      machine_id_file = (\<lambda>_. None), boot_id_file = (\<lambda>_. None), uname_machine = (\<lambda>_. None),
      json_from_bytes = bootc_json env, status_to_string = (\<lambda>_. None)\<rparr>"

text \<open>A worker is engaged when it runs or is going to.\<close>

definition engaged :: "host \<Rightarrow> string \<Rightarrow> bool" where
  "engaged h u \<longleftrightarrow> active h u \<or> u \<in> set (queue h)"

datatype mutation = Update | Rollback | Reboot

fun start_mutation :: "mutation \<Rightarrow> bool \<Rightarrow> 's platform_env \<Rightarrow> ('s timed, platform_error, unit) op" where
  "start_mutation Update = start_update"
| "start_mutation Rollback = start_rollback"
| "start_mutation Reboot = start_reboot"

fun unit_of :: "mutation \<Rightarrow> string" where
  "unit_of Update = UPDATE_UNIT"
| "unit_of Rollback = ROLLBACK_UNIT"
| "unit_of Reboot = REBOOT_UNIT"

text \<open>What must not be engaged when a worker is started.\<close>

fun excludes :: "mutation \<Rightarrow> string set" where
  "excludes Update = {ROLLBACK_UNIT}"
| "excludes Rollback = {UPDATE_UNIT}"
| "excludes Reboot = {UPDATE_UNIT, ROLLBACK_UNIT}"

section \<open>Calls\<close>

lemma engaged_begin: "engaged (fold begin_unit us h) u \<longleftrightarrow> u \<in> set us \<or> engaged h u"
  by (induction us arbitrary: h) (auto simp: begin_unit_def engaged_def)

lemma fold_begin_queue [simp]: "queue (fold begin_unit us h) = queue h" "active (fold begin_unit us h) u \<longleftrightarrow> u \<in> set us \<or> active h u"
  by (induction us arbitrary: h) (auto simp: begin_unit_def)

lemma before_engaged: "engaged (host_before env h) u \<Longrightarrow> engaged h u"
  by (auto simp: host_before_def engaged_def Let_def split: if_splits)

lemma before_queue: "set (queue (host_before env h)) \<subseteq> set (queue h)" "queue h = [] \<Longrightarrow> queue (host_before env h) = []"
  by (auto simp: host_before_def Let_def)

text \<open>\<open>off U\<close>: nothing of \<open>U\<close> is engaged.  \<open>within V\<close>: only units of \<open>V\<close> are queued.\<close>

definition off :: "string set \<Rightarrow> host \<Rightarrow> bool" where
  "off U h \<longleftrightarrow> (\<forall>u \<in> U. \<not> engaged h u)"

definition tranquil :: "string set \<Rightarrow> host \<Rightarrow> bool" where
  "tranquil U h \<longleftrightarrow> queue h = [] \<and> off U h"

lemma off_before: "off U h \<Longrightarrow> off U (host_before env h)"
  by (auto simp: off_def dest: before_engaged)

lemma tranquil_before: "tranquil U h \<Longrightarrow> tranquil U (host_before env h)"
  by (simp add: tranquil_def off_before before_queue)

lemmas host_call_defs = host_services_def systemd.simps

lemma wp_host_read:
  assumes "tranquil U (outside w)"
  shows "wp (await (load_unit (host_services env) u) d) (\<lambda>p w'. tranquil U (outside w') \<and> p = u) (\<lambda>_ w'. tranquil U (outside w')) w"
    "wp (await (unit_property (host_services env) u i ''ActiveState'') d) (\<lambda>s w'. tranquil U (outside w') \<and> s = host_state (outside w') u)
      (\<lambda>_ w'. tranquil U (outside w')) w"
    "wp (await (unit_property (host_services env) u i ''Result'') d) (\<lambda>s w'. tranquil U (outside w')) (\<lambda>_ w'. tranquil U (outside w')) w"
    "wp (await (main_status (host_services env) u) d) (\<lambda>s w'. tranquil U (outside w')) (\<lambda>_ w'. tranquil U (outside w')) w"
    "wp (await (invocation_id (host_services env) u) d) (\<lambda>s w'. tranquil U (outside w')) (\<lambda>_ w'. tranquil U (outside w')) w"
proof -
  have r: "wp (await (reach env (\<lambda>h. (Inr (f h), h))) d) (\<lambda>x w'. tranquil U (outside w') \<and> x = f (outside w')) (\<lambda>_ w'. tranquil U (outside w')) w"
    for f :: "host \<Rightarrow> 'x"
    by (rule wp_lossy_read [where I = "tranquil U"]) (auto intro: tranquil_before assms)
  show "wp (await (load_unit (host_services env) u) d) (\<lambda>p w'. tranquil U (outside w') \<and> p = u) (\<lambda>_ w'. tranquil U (outside w')) w"
    using r [of "\<lambda>_. u"] by (simp add: host_call_defs)
  show "wp (await (unit_property (host_services env) u i ''ActiveState'') d) (\<lambda>s w'. tranquil U (outside w') \<and> s = host_state (outside w') u)
      (\<lambda>_ w'. tranquil U (outside w')) w"
    using r [of "\<lambda>h. host_state h u"] by (simp add: host_call_defs)
  show "wp (await (unit_property (host_services env) u i ''Result'') d) (\<lambda>s w'. tranquil U (outside w')) (\<lambda>_ w'. tranquil U (outside w')) w"
    using wp_weaken [OF r [of "\<lambda>_. ''success''"], of "\<lambda>_ w'. tranquil U (outside w')" "\<lambda>_ w'. tranquil U (outside w')"]
    by (simp add: host_call_defs)
  show "wp (await (main_status (host_services env) u) d) (\<lambda>s w'. tranquil U (outside w')) (\<lambda>_ w'. tranquil U (outside w')) w"
    unfolding host_call_defs by (rule wp_weaken [OF r]) simp_all
  show "wp (await (invocation_id (host_services env) u) d) (\<lambda>s w'. tranquil U (outside w')) (\<lambda>_ w'. tranquil U (outside w')) w"
    unfolding host_call_defs by (rule wp_weaken [OF r]) simp_all
qed

section \<open>Exclusion\<close>

lemma wp_observe_rest:
  assumes "tranquil V (outside w)"
  shows "wp (and_then (await (unit_property (host_services env) u SYSTEMD_SERVICE ''Result'') d) (\<lambda>res.
     and_then (await (main_status (host_services env) u) d) (\<lambda>exit. ok \<lparr>active_state = a, result = res, exit_status = exit\<rparr>)))
    (\<lambda>x w'. tranquil V (outside w') \<and> active_state x = a) (\<lambda>_ w'. tranquil V (outside w')) w"
  by (rule wp_bind [OF wp_host_read(3) [OF assms]], rule wp_bind [OF wp_host_read(4)], assumption) (auto simp: wp_ok)

lemma tranquil_seen: "tranquil U h \<Longrightarrow> tranquil (if idle (host_state h u) then insert u U else U) h"
  by (auto simp: tranquil_def off_def engaged_def host_state_def idle_def)

lemma tranquil_if: "tranquil (if c then insert u U else U) h \<longleftrightarrow> tranquil U h \<and> (c \<longrightarrow> \<not> engaged h u)"
  by (auto simp: tranquil_def off_def)

lemma wp_observe_worker:
  assumes w: "tranquil U (outside w)"
  shows "wp (observe_worker (host_platform env) u)
    (\<lambda>x w'. tranquil U (outside w') \<and> (\<not> worker_running x \<longrightarrow> tranquil (insert u U) (outside w'))) (\<lambda>_ w'. tranquil U (outside w')) w"
proof -
  have "wp (observe_worker_block (host_services env) u d)
    (\<lambda>x w'. tranquil U (outside w') \<and> (\<not> worker_running x \<longrightarrow> tranquil (insert u U) (outside w'))) (\<lambda>_ w'. tranquil U (outside w')) w" for d
    unfolding observe_worker_block_def
  proof (rule wp_bind [OF wp_host_read(1) [OF w]], elim conjE, simp only:, rule wp_bind [OF wp_host_read(2)], assumption, elim conjE)
    fix a and w1 :: "host timed"
    assume w1: "tranquil U (outside w1)" and a: "a = host_state (outside w1) u"
    show "wp (and_then (await (unit_property (host_services env) u SYSTEMD_SERVICE ''Result'') d) (\<lambda>res.
       and_then (await (main_status (host_services env) u) d) (\<lambda>exit. ok \<lparr>active_state = a, result = res, exit_status = exit\<rparr>)))
      (\<lambda>x w'. tranquil U (outside w') \<and> (\<not> worker_running x \<longrightarrow> tranquil (insert u U) (outside w'))) (\<lambda>_ w'. tranquil U (outside w')) w1"
      by (rule wp_weaken [OF wp_observe_rest [OF tranquil_seen [OF w1, of u, folded a]]])
        (auto simp: tranquil_if worker_running_def idle_def tranquil_def off_def)
  qed auto
  from this [of "clock w + SYSTEMD_TIMEOUT"] show ?thesis
    unfolding observe_worker_def wp_map_err by (simp add: wp_def timeout_def host_platform_def)
qed

lemma wp_mutation_state:
  assumes "tranquil U (outside w)"
  shows "wp (observe_mutation_state (host_platform env)) (\<lambda>_ w'. tranquil U (outside w')) (\<lambda>_ w'. tranquil U (outside w')) w"
  using assms by (auto simp: observe_mutation_state_def wp_def and_then_def backend_command_def host_platform_def lift_res_def Let_def
      split: prod.splits sum.splits)

text \<open>Starting \<open>v\<close> engages nothing else.\<close>

definition only :: "string \<Rightarrow> string set \<Rightarrow> host \<Rightarrow> bool" where
  "only v U h \<longleftrightarrow> off (U - {v}) h \<and> set (queue h) \<subseteq> {v}"

lemma only_before: "only v U h \<Longrightarrow> only v U (host_before env h)"
  unfolding only_def using before_queue(1) [of env h] off_before [of "U - {v}" h env] by blast

lemma only_call: "(\<And>h. only v U h \<Longrightarrow> only v U (snd (act h))) \<Longrightarrow> preserves (\<lambda>w. only v U (outside w)) (await (reach env act) d)"
  unfolding preserves_wp
proof (intro allI impI wp_lossy [where I = "only v U" and B = "only v U"])
  fix h h' r assume "\<And>h. only v U h \<Longrightarrow> only v U (snd (act h))" "only v U h" "act h = (r, h')"
  then show "only v U h' \<and> (\<forall>x. r = Inr x \<longrightarrow> only v U h')" by (metis snd_conv)
qed (auto intro: only_before)

lemma only_calls [preserve_intros]:
  "preserves (\<lambda>w. only v U (outside w)) (await (load_unit (host_services env) u) d)"
  "preserves (\<lambda>w. only v U (outside w)) (await (unit_property (host_services env) u i p) d)"
  "preserves (\<lambda>w. only v U (outside w)) (await (invocation_id (host_services env) u) d)"
  "preserves (\<lambda>w. only v U (outside w)) (await (start_unit (host_services env) v mode) d)"
  unfolding host_call_defs by (rule only_call; auto simp: only_def off_def engaged_def)+

lemma only_wait_started [preserve_intros]:
  "preserves (\<lambda>w. only v U (outside w)) (wait_started (host_services env) path previous d :: (host timed, 'e stopped, unit) op)"
  unfolding preserves_def
proof (intro allI impI)
  fix w :: "host timed" assume "only v U (outside w)"
  then show "only v U (outside (snd (wait_started (host_services env) path previous d w :: ('e stopped + unit) \<times> host timed)))"
  proof (induction "d - clock w" arbitrary: w rule: less_induct)
    case less
    obtain r :: "'e stopped + string" and w1 where 1: "await (unit_property (host_services env) path SYSTEMD_UNIT ''ActiveState'') d w = (r, w1)" by fastforce
    obtain q :: "'e stopped + u8 list" and w2 where 2: "await (invocation_id (host_services env) path) d w1 = (q, w2)" by fastforce
    obtain p :: "'e stopped + unit" and w3 where 3: "pause 10 d w2 = (p, w3)" by fastforce
    have o1: "only v U (outside w1)" using only_calls(2) [of v U env path SYSTEMD_UNIT "''ActiveState''" d] less.prems 1
      unfolding preserves_def by (metis snd_conv)
    then have o2: "only v U (outside w2)" using only_calls(3) [of v U env path d] 2 unfolding preserves_def by (metis snd_conv)
    then have o3: "only v U (outside w3)" using 3 by (auto simp: pause_def split: if_splits)
    show ?case
    proof (cases "\<exists>a i u. r = Inr a \<and> q = Inr i \<and> p = Inr u")
      case True
      then obtain a i where e: "r = Inr a" "q = Inr i" "p = Inr ()" by auto
      have "d - clock w3 < d - clock w"
        using await_Inr [OF 1 [unfolded e]] await_Inr [OF 2 [unfolded e]] pause_Inr [OF 3 [unfolded e]] by linarith
      from less.hyps [OF this o3] show ?thesis
        using e 1 2 3 o2 by (simp add: wait_started.simps [of "host_services env" path previous d w])
    qed (use 1 2 3 o1 o2 o3 in \<open>auto simp: wait_started.simps [of "host_services env" path previous d w] split: sum.splits\<close>)
  qed
qed

lemma only_start_worker: "preserves (\<lambda>w. only v U (outside w)) (start_worker (host_platform env) v failure)"
proof -
  have "preserves (\<lambda>w. only v U (outside w)) (start_worker_block (host_services env) v d)" for d
    unfolding start_worker_block_def by (intro preserve_intros)
  then show ?thesis by (auto simp: start_worker_def timeout_def preserves_def host_platform_def)
qed

text \<open>\<open>A\<close> is what was engaged before the call.\<close>

definition allowed :: "mutation \<Rightarrow> (string \<Rightarrow> bool) \<Rightarrow> host \<Rightarrow> bool" where
  "allowed m A h \<longleftrightarrow>
     (\<forall>u. engaged h u \<longrightarrow> A u) \<or>
     (\<forall>u. engaged h u \<longrightarrow> A u \<or> u = unit_of m) \<and> (\<forall>u \<in> excludes m. \<not> engaged h u)"

lemma allowed_tranquil: "tranquil U h \<Longrightarrow> {u. \<not> A u} \<subseteq> U \<Longrightarrow> allowed m A h"
  by (auto simp: tranquil_def off_def allowed_def)

lemma units_differ: "unit_of m \<notin> excludes m"
  by (cases m) (simp_all add: UPDATE_UNIT_def ROLLBACK_UNIT_def REBOOT_UNIT_def)

lemma allowed_start:
  assumes "tranquil U (outside w)" "{u. \<not> A u} \<subseteq> U" "excludes m \<subseteq> U"
  shows "wp (start_worker (host_platform env) (unit_of m) failure) (\<lambda>_ w'. allowed m A (outside w')) (\<lambda>_ w'. allowed m A (outside w')) w"
proof -
  have "only (unit_of m) U (outside w)" using assms(1) by (auto simp: only_def tranquil_def off_def)
  from preservesD [where I = "\<lambda>w. only (unit_of m) U (outside w)", OF only_start_worker this] show ?thesis
    by (rule wp_weaken) (use assms(2,3) units_differ [of m] in \<open>auto simp: only_def off_def allowed_def\<close>)
qed

lemma allowed_state:
  assumes "tranquil U (outside w)" "{u. \<not> A u} \<subseteq> U"
    and "\<And>x w'. tranquil U (outside w') \<Longrightarrow> wp (f x) (\<lambda>_ w'. allowed m A (outside w')) (\<lambda>_ w'. allowed m A (outside w')) w'"
  shows "wp (and_then (observe_mutation_state (host_platform env)) f) (\<lambda>_ w'. allowed m A (outside w')) (\<lambda>_ w'. allowed m A (outside w')) w"
  by (rule wp_bind [OF wp_mutation_state [OF assms(1)]]) (auto intro: assms(3) allowed_tranquil [OF _ assms(2)])

lemma allowed_observe:
  assumes "tranquil U (outside w)" "{u. \<not> A u} \<subseteq> U"
    and "\<And>x w'. tranquil U (outside w') \<Longrightarrow> (\<not> worker_running x \<Longrightarrow> tranquil (insert u U) (outside w')) \<Longrightarrow>
      wp (f x) (\<lambda>_ w'. allowed m A (outside w')) (\<lambda>_ w'. allowed m A (outside w')) w'"
  shows "wp (and_then (map_err g (observe_worker (host_platform env) u)) f) (\<lambda>_ w'. allowed m A (outside w')) (\<lambda>_ w'. allowed m A (outside w')) w"
  by (rule wp_bind [where P = "\<lambda>x w'. tranquil U (outside w') \<and> (\<not> worker_running x \<longrightarrow> tranquil (insert u U) (outside w'))"
        and F = "\<lambda>_ w'. tranquil U (outside w')"])
    (auto simp: wp_map_err intro: wp_observe_worker [OF assms(1)] assms(3) allowed_tranquil [OF _ assms(2)])

lemma allowed_err: "tranquil U (outside w) \<Longrightarrow> {u. \<not> A u} \<subseteq> U \<Longrightarrow>
    wp (err e) (\<lambda>_ w'. allowed m A (outside w')) (\<lambda>_ w'. allowed m A (outside w')) w"
  by (simp add: wp_err allowed_tranquil)

text \<open>The part of each mutation behind its first guard.\<close>

lemma allowed_guarded:
  assumes "tranquil U (outside w)" "{u. \<not> A u} \<subseteq> U" "excludes m \<subseteq> U"
    and f: "\<And>st. f st \<in> insert (start_worker (host_platform env) (unit_of m) failure) (range err)"
  shows "wp (and_then (observe_mutation_state (host_platform env)) f) (\<lambda>_ w'. allowed m A (outside w')) (\<lambda>_ w'. allowed m A (outside w')) w"
proof (rule allowed_state [OF assms(1,2)])
  fix st and w' :: "host timed" assume w': "tranquil U (outside w')"
  show "wp (f st) (\<lambda>_ w'. allowed m A (outside w')) (\<lambda>_ w'. allowed m A (outside w')) w'"
    using f [of st] allowed_start [OF w' assms(2,3)] allowed_err [OF w' assms(2)] by auto
qed

lemma allowed_if:
  assumes "tranquil U (outside w)" "{u. \<not> A u} \<subseteq> U"
    and "\<not> c \<Longrightarrow> wp f (\<lambda>_ w'. allowed m A (outside w')) (\<lambda>_ w'. allowed m A (outside w')) w"
  shows "wp (if c then err e else f) (\<lambda>_ w'. allowed m A (outside w')) (\<lambda>_ w'. allowed m A (outside w')) w"
  by (cases c) (simp_all add: assms(3) allowed_err [OF assms(1,2)])

lemma mutation_allowed:
  assumes "queue (outside w) = []" and A: "A = engaged (outside w)"
  shows "wp (start_mutation m permit (host_platform env)) (\<lambda>_ w'. allowed m A (outside w')) (\<lambda>_ w'. allowed m A (outside w')) w"
proof -
  let ?U = "{u. \<not> A u}"
  have t: "tranquil ?U (outside w)" using assms by (auto simp: tranquil_def off_def)
  note first = allowed_if [OF t subset_refl] allowed_observe [OF t subset_refl]
  show ?thesis
  proof (cases m)
    case Update
    show ?thesis unfolding Update start_mutation.simps start_update_def
      by (rule first(1), rule first(2), rule allowed_if, assumption, rule subset_refl,
          rule allowed_guarded [where U = "insert ROLLBACK_UNIT ?U"]) (auto simp: Update)
  next
    case Rollback
    show ?thesis unfolding Rollback start_mutation.simps start_rollback_def
      by (rule first(1), rule first(2), rule allowed_if, assumption, rule subset_refl,
          rule allowed_guarded [where U = "insert UPDATE_UNIT ?U"]) (auto simp: Rollback)
  next
    case Reboot
    let ?V = "insert UPDATE_UNIT (insert ROLLBACK_UNIT ?U)"
    have V: "?U \<subseteq> ?V" "excludes Reboot \<subseteq> ?V" by auto
    have last: "wp (and_then (map_err g (observe_worker (host_platform env) REBOOT_UNIT)) (\<lambda>reboot.
          if worker_running reboot then err e else start_worker (host_platform env) REBOOT_UNIT failure))
        (\<lambda>_ w'. allowed Reboot A (outside w')) (\<lambda>_ w'. allowed Reboot A (outside w')) w'"
      if "tranquil ?V (outside w')" for g e failure w'
      by (rule allowed_observe [OF that V(1)], rule allowed_if [OF _ V(1)], assumption, rule allowed_start [OF _ V, simplified])
    have second: "wp (if c then err e else if d then err e' else f) (\<lambda>_ w'. allowed Reboot A (outside w')) (\<lambda>_ w'. allowed Reboot A (outside w')) w'"
      if "tranquil ?U (outside w')" "\<not> c \<Longrightarrow> \<not> d \<Longrightarrow> wp f (\<lambda>_ w'. allowed Reboot A (outside w')) (\<lambda>_ w'. allowed Reboot A (outside w')) w'"
      for c d e e' f w'
      by (rule allowed_if [OF that(1) subset_refl], rule allowed_if [OF that(1) subset_refl], rule that(2))
    show ?thesis unfolding Reboot start_mutation.simps start_reboot_def request_reboot_def
    proof (rule first(1), rule first(2))
      fix update and w1 :: "host timed"
      assume w1: "tranquil ?U (outside w1)" "\<not> worker_running update \<Longrightarrow> tranquil (insert UPDATE_UNIT ?U) (outside w1)"
      let ?W = "if worker_running update then ?U else insert UPDATE_UNIT ?U"
      have W: "tranquil ?W (outside w1)" "?U \<subseteq> ?W" using w1 by auto
      show "wp (and_then (map_err (\<lambda>_. reboot_unavailable) (observe_worker (host_platform env) ROLLBACK_UNIT)) (\<lambda>rollback.
          if worker_running update then err (Conflict ''The update worker is running; reboot was not requested'')
          else if worker_running rollback then err (Conflict ''The rollback worker is running; reboot was not requested'')
          else and_then (map_err (\<lambda>_. reboot_unavailable) (observe_worker (host_platform env) REBOOT_UNIT)) (\<lambda>reboot.
            if worker_running reboot then err (Busy ''The reboot worker is already running'')
            else start_worker (host_platform env) REBOOT_UNIT reboot_unavailable)))
        (\<lambda>_ w'. allowed Reboot A (outside w')) (\<lambda>_ w'. allowed Reboot A (outside w')) w1"
      proof (rule allowed_observe [OF W], rule second)
        fix rollback and w2 :: "host timed"
        assume w2: "tranquil ?W (outside w2)" "\<not> worker_running rollback \<Longrightarrow> tranquil (insert ROLLBACK_UNIT ?W) (outside w2)"
        show "tranquil ?U (outside w2)" using w2(1) by (auto simp: tranquil_def off_def split: if_splits)
        assume "\<not> worker_running update" "\<not> worker_running rollback"
        then have "tranquil ?V (outside w2)" using w2(2) by (simp add: insert_commute)
        then show "wp (and_then (map_err (\<lambda>_. reboot_unavailable) (observe_worker (host_platform env) REBOOT_UNIT)) (\<lambda>reboot.
            if worker_running reboot then err (Busy ''The reboot worker is already running'')
            else start_worker (host_platform env) REBOOT_UNIT reboot_unavailable))
          (\<lambda>_ w'. allowed Reboot A (outside w')) (\<lambda>_ w'. allowed Reboot A (outside w')) w2"
          by (rule last)
      qed
    qed
  qed
qed

section \<open>Properties\<close>


subsection \<open>A start that comes late\<close>

text \<open>Every call takes half a second and queued jobs begin at the nineteenth call; bootc has a retained deployment and nothing
  staged or queued.\<close>

definition slow_host :: host_env where
  "slow_host =
     \<lparr>host_weather_at = (\<lambda>n. \<lparr>delivered = True, answered = True, took = 500, ends = (\<lambda>_. False), begins = (n = 18)\<rparr>),
      bootc_child = (\<lambda>_. \<lparr>spawned = True, child_stdout = Some ''doc'', child_stderr = Some [], waited = True, success = True,
         ended_after = 100, killed_after = 0\<rparr>),
      bootc_json = (\<lambda>_. Some (Object [(''apiVersion'', Text ''org.containers.bootc/v1''), (''kind'', Text ''BootcHost''),
         (''status'', Object [(''staged'', Null), (''rollback'', Object []), (''rollbackQueued'', Bool False)])]))\<rparr>"

definition resting_host :: "host timed" where
  "resting_host = \<lparr>clock = 0, outside = \<lparr>active = (\<lambda>_. False), queue = [], invocation = (\<lambda>_. 0), host_calls = 0\<rparr>\<rparr>"

lemmas mutation_defs = start_update_def start_rollback_def observe_worker_def observe_worker_block_def start_worker_def
  start_worker_block_def observe_mutation_state_def backend_command_def join_child_def bounded_output_def bind_res_def
  mutation_state_from_backend_def supported_schema_def get_def as_str_def as_boolean_def is_object_def keep_def worker_running_def
  timeout_def await_def pause_def lossy_def host_before_def begin_unit_def host_state_def host_platform_def host_call_defs Let_def
  SYSTEMD_TIMEOUT_def BACKEND_TIMEOUT_def OUTPUT_LIMIT_def and_then_def map_err_def ok_def err_def lift_res_def

lemmas late_defs = slow_host_def resting_host_def UPDATE_UNIT_def ROLLBACK_UNIT_def

definition left_over :: "host timed" where
  "left_over = \<lparr>clock = 5100, outside = \<lparr>active = (\<lambda>_. False), queue = [UPDATE_UNIT], invocation = (\<lambda>_. 0), host_calls = 10\<rparr>\<rparr>"

lemma late_update: "start_update True (host_platform slow_host) resting_host = (Inl update_unavailable, left_over)"
  by (simp add: mutation_defs late_defs left_over_def wait_started.simps idle_def)

lemma late_rollback:
  "fst (start_rollback True (host_platform slow_host) left_over) = Inr ()"
  "active (outside (snd (start_rollback True (host_platform slow_host) left_over))) UPDATE_UNIT"
  "active (outside (snd (start_rollback True (host_platform slow_host) left_over))) ROLLBACK_UNIT"
  by (simp_all add: mutation_defs late_defs left_over_def wait_started.simps idle_def)



end
