(* ===== verification/Shared_Read.thy ===== *)
theory Shared_Read
  imports Main
begin

text \<open>
  Observations shared by concurrent callers (\<^verbatim>\<open>src/platformd/src/shared_read.rs\<close>), as a transition system.  A flight is one run
  of the observation in its own task; the slot names the flight that callers may join.  The slot is read and changed
  under its lock, so each transition is one critical section: a call of \<^verbatim>\<open>run\<close>, the end of an observation that publishes
  its value, the drop of \<^verbatim>\<open>EndFlight\<close> and that of the sender after it or after a panic, and a receiver that wakes up.
\<close>

section \<open>State\<close>

text \<open>\<open>Unwinding\<close>: the observation panicked and its task is being dropped.\<close>

datatype task = Running | Published | Unwinding

record 'v shared_read =
  slot :: "nat option"
  tasks :: "nat \<Rightarrow> task option"
  outcome :: "nat \<Rightarrow> 'v option option"  \<comment> \<open>\<open>Some None\<close>: the sender is gone without a value\<close>
  joined :: "nat \<Rightarrow> nat option"
  answers :: "(nat \<times> 'v option) list"
  next_flight :: nat

definition shared_new :: "'v shared_read" where
  "shared_new = \<lparr>slot = None, tasks = (\<lambda>_. None), outcome = (\<lambda>_. None), joined = (\<lambda>_. None), answers = [], next_flight = 0\<rparr>"

section \<open>Transitions\<close>

definition clear_flight :: "nat \<Rightarrow> 'v shared_read \<Rightarrow> 'v shared_read" where
  "clear_flight f s = (if slot s = Some f then s\<lparr>slot := None\<rparr> else s)"

definition run_call :: "nat \<Rightarrow> 'v shared_read \<Rightarrow> 'v shared_read" where
  "run_call c s =
     (case slot s of
        Some f \<Rightarrow> s\<lparr>joined := (joined s)(c \<mapsto> f)\<rparr>
      | None \<Rightarrow>
          (let f = next_flight s
           in s\<lparr>slot := Some f, tasks := (tasks s)(f \<mapsto> Running), joined := (joined s)(c \<mapsto> f), next_flight := f + 1\<rparr>))"

definition publish :: "nat \<Rightarrow> 'v \<Rightarrow> 'v shared_read \<Rightarrow> 'v shared_read" where
  "publish f v s = (clear_flight f s)\<lparr>outcome := (outcome s)(f \<mapsto> Some v), tasks := (tasks s)(f \<mapsto> Published)\<rparr>"

definition drop_end :: "nat \<Rightarrow> 'v shared_read \<Rightarrow> 'v shared_read" where
  "drop_end f s = clear_flight f s"

definition drop_sender :: "nat \<Rightarrow> 'v shared_read \<Rightarrow> 'v shared_read" where
  "drop_sender f s = (if outcome s f = None then s\<lparr>outcome := (outcome s)(f \<mapsto> None)\<rparr> else s)"

definition receive :: "nat \<Rightarrow> 'v option \<Rightarrow> 'v shared_read \<Rightarrow> 'v shared_read" where
  "receive c v s = s\<lparr>joined := (joined s)(c := None), answers := answers s @ [(c, v)]\<rparr>"

inductive flight_step :: "'v shared_read \<Rightarrow> 'v shared_read \<Rightarrow> bool" where
  call: "joined s c = None \<Longrightarrow> flight_step s (run_call c s)"
| ends: "tasks s f = Some Running \<Longrightarrow> flight_step s (publish f v s)"
| panics: "tasks s f = Some Running \<Longrightarrow> flight_step s (s\<lparr>tasks := (tasks s)(f \<mapsto> Unwinding)\<rparr>)"
| end_dropped: "tasks s f \<in> {Some Published, Some Unwinding} \<Longrightarrow> flight_step s (drop_end f s)"
| sender_dropped: "tasks s f \<in> {Some Published, Some Unwinding} \<Longrightarrow> flight_step s (drop_sender f s)"
| received: "joined s c = Some f \<Longrightarrow> outcome s f = Some v \<Longrightarrow> flight_step s (receive c v s)"
| gone: "joined s c = Some f \<Longrightarrow> flight_step s (s\<lparr>joined := (joined s)(c := None)\<rparr>)"

inductive flights :: "'v shared_read \<Rightarrow> bool" where
  new: "flights shared_new"
| step: "flights s \<Longrightarrow> flight_step s s' \<Longrightarrow> flights s'"

section \<open>Invariant\<close>

definition flight_inv :: "'v shared_read \<Rightarrow> bool" where
  "flight_inv s \<longleftrightarrow>
     (\<forall>f. tasks s f = Some Running \<longrightarrow> slot s = Some f \<and> outcome s f = None) \<and>
     (\<forall>f. slot s = Some f \<longrightarrow> tasks s f \<in> {Some Running, Some Unwinding}) \<and>
     (\<forall>f. next_flight s \<le> f \<longrightarrow> tasks s f = None \<and> outcome s f = None) \<and>
     (\<forall>f v. outcome s f = Some (Some v) \<longrightarrow> tasks s f = Some Published) \<and>
     (\<forall>f. tasks s f = Some Published \<longrightarrow> outcome s f \<noteq> None) \<and>
     (\<forall>c f. joined s c = Some f \<longrightarrow> tasks s f \<noteq> None)"

lemma flight_invD:
  assumes "flight_inv s"
  shows "tasks s f = Some Running \<Longrightarrow> slot s = Some f" "tasks s f = Some Running \<Longrightarrow> outcome s f = None"
    "slot s = Some f \<Longrightarrow> tasks s f = Some Running \<or> tasks s f = Some Unwinding" "next_flight s \<le> f \<Longrightarrow> tasks s f = None"
    "next_flight s \<le> f \<Longrightarrow> outcome s f = None" "outcome s f = Some (Some v) \<Longrightarrow> tasks s f = Some Published"
    "tasks s f = Some Published \<Longrightarrow> outcome s f \<noteq> None" "joined s c = Some f \<Longrightarrow> tasks s f \<noteq> None"
  using assms by (simp_all add: flight_inv_def)

lemma one_running: "flight_inv s \<Longrightarrow> tasks s f = Some Running \<Longrightarrow> tasks s g = Some Running \<Longrightarrow> f = g"
  using flight_invD(1) [of s f] flight_invD(1) [of s g] by simp

lemma flight_inv_call: "flight_inv s \<Longrightarrow> flight_inv (run_call c s)"
proof (cases "slot s")
  case None
  assume i: "flight_inv s"
  then have "tasks s f \<noteq> Some Running" for f using None flight_invD(1) by fastforce
  then show ?thesis using flight_invD [OF i] None
    by (auto simp: flight_inv_def run_call_def Let_def)
next
  case (Some f)
  assume "flight_inv s"
  then show ?thesis using Some by (auto simp: flight_inv_def run_call_def)
qed

lemma flight_inv_clear: "flight_inv s \<Longrightarrow> tasks s f \<noteq> Some Running \<Longrightarrow> flight_inv (clear_flight f s)"
  by (auto simp: flight_inv_def clear_flight_def)

lemma flight_inv_publish:
  assumes i: "flight_inv s" and f: "tasks s f = Some Running"
  shows "flight_inv (publish f v s)" "flight_inv (s\<lparr>tasks := (tasks s)(f \<mapsto> Unwinding)\<rparr>)"
proof -
  note d = flight_invD [OF i]
  have others: "tasks s g \<noteq> Some Running" if "g \<noteq> f" for g using one_running [OF i f] that by blast
  have "publish f v s = s\<lparr>slot := None, outcome := (outcome s)(f \<mapsto> Some v), tasks := (tasks s)(f \<mapsto> Published)\<rparr>"
    using d(1) [OF f] by (simp add: publish_def clear_flight_def)
  then show "flight_inv (publish f v s)" using others f d(4-8) by (auto simp: flight_inv_def)
  show "flight_inv (s\<lparr>tasks := (tasks s)(f \<mapsto> Unwinding)\<rparr>)" using others f d(3-8) d(1,2) [OF f] by (auto simp: flight_inv_def)
qed

lemma flight_inv_step: "flight_step s s' \<Longrightarrow> flight_inv s \<Longrightarrow> flight_inv s'"
proof (induction rule: flight_step.induct)
  case (end_dropped s f)
  then show ?case using flight_inv_clear [of s f] by (auto simp: drop_end_def)
next
  case (sender_dropped s f)
  then show ?case using flight_invD(7) [of s f] by (auto simp: flight_inv_def drop_sender_def)
next
  case (received s c f v)
  then show ?case by (auto simp: flight_inv_def receive_def)
next
  case (gone s c f)
  then show ?case by (auto simp: flight_inv_def)
qed (simp_all add: flight_inv_call flight_inv_publish)

lemma flights_inv: "flights s \<Longrightarrow> flight_inv s"
proof (induction rule: flights.induct)
  case new
  then show ?case by (simp add: flight_inv_def shared_new_def)
next
  case (step s s')
  then show ?case using flight_inv_step by blast
qed

section \<open>Properties\<close>

text \<open>C33: In every reachable state at most one observation runs; a flight that a new caller would join has not published a
  value, so a caller never gets an observation that was complete when it called; and no caller is stranded: the flight it
  waits for is running, or its task has ended or is being dropped, and an ended one has left its value.\<close>

theorem one_observation_in_flight:
  assumes "flights s"
  shows "(\<forall>f g. tasks s f = Some Running \<and> tasks s g = Some Running \<longrightarrow> f = g) \<and>
    (\<forall>f v. slot s = Some f \<longrightarrow> outcome s f \<noteq> Some (Some v)) \<and>
    (\<forall>c f. joined s c = Some f \<longrightarrow> tasks s f \<in> {Some Running, Some Unwinding} \<or> outcome s f \<noteq> None)"
proof -
  have i: "flight_inv s" by (rule flights_inv [OF assms])
  have "tasks s f \<in> {Some Running, Some Unwinding} \<or> outcome s f \<noteq> None" if "joined s c = Some f" for c f
  proof (cases "tasks s f")
    case (Some t)
    then show ?thesis using i by (cases t) (auto simp: flight_inv_def)
  qed (use flight_invD(8) [OF i that] in simp)
  then show ?thesis using one_running [OF i] flight_invD(3,6) [OF i] by fastforce
qed

definition demo_flight :: "nat shared_read" where
  "demo_flight = run_call 8 (run_call 7 shared_new)"

theorem one_observation_in_flight_witness:
  "flights demo_flight \<and> tasks demo_flight 0 = Some Running \<and> joined demo_flight 8 = Some 0 \<and>
   outcome demo_flight 0 \<noteq> Some (Some 3)"
proof -
  have "flights (run_call 7 shared_new :: nat shared_read)"
    by (rule flights.step [OF flights.new], rule flight_step.call) (simp add: shared_new_def)
  then have f: "flights demo_flight"
    unfolding demo_flight_def by (rule flights.step, intro flight_step.call) (simp add: shared_new_def run_call_def)
  have "slot demo_flight = Some 0" by (simp add: demo_flight_def run_call_def shared_new_def)
  then show ?thesis using one_observation_in_flight [OF f] f by (simp add: demo_flight_def run_call_def shared_new_def)
qed

end
