(* ===== verification/Web_Auth.thy ===== *)
theory Web_Auth
  imports Http Service
begin

text \<open>
  The web interface on top of the authentication service: the bus peers of sl-remoted (\<^verbatim>\<open>src/remoted/src/peers.rs\<close>) reach
  the methods of sl-authd (\<^verbatim>\<open>src/authd/src/service.rs\<close>) through its signature check
  (\<^verbatim>\<open>src/authd/src/checked_interface.rs\<close>), and the status goes through sl-sessiond, which asks for the enrollment.

  The state behind the peers is the record \<open>auth_world\<close>.  A call may be lost before it is served, or its reply may come too
  late; between two requests of the web interface other callers (platformd, the console) may call Auth1.
\<close>

section \<open>A method of Auth1\<close>

record auth_world =
  authd :: shared
  auth_journal :: "string list"  \<comment> \<open>newest first\<close>
  bus_calls :: nat

text \<open>Whether a call reaches sl-authd, and whether its reply is back within the time limit.\<close>

record fate =
  reaches :: bool
  replied :: bool

record web_env =
  machine_of :: machine_env
  sender_uid :: "u32 option"
  fates :: "nat \<Rightarrow> fate"
  status_reply :: "nat \<Rightarrow> string bus_reply"

fun member_name :: "auth_call \<Rightarrow> string" where
  "member_name (PasswordCall _) = ''VerifyPassword''"
| "member_name (PlainCall (VerifyPassword _ _)) = ''VerifyPassword''"
| "member_name (PlainCall (ConsumePairing _ _)) = ''ConsumePairing''"
| "member_name (PlainCall (ConfirmRecoveryKey _)) = ''ConfirmRecoveryKey''"
| "member_name (PlainCall (RecoverPassword _ _)) = ''RecoverPassword''"
| "member_name (PlainCall EnsurePendingPairing) = ''EnsurePendingPairing''"
| "member_name (PlainCall CancelPendingPairing) = ''CancelPendingPairing''"
| "member_name (PlainCall ResetEnrollment) = ''ResetEnrollment''"
| "member_name (PlainCall GetPendingPairing) = ''GetPendingPairing''"
| "member_name (PlainCall GetEnrollmentState) = ''GetEnrollmentState''"

definition write_event :: "string \<Rightarrow> u32 option \<Rightarrow> failure + reply \<Rightarrow> auth_world \<Rightarrow> auth_world" where
  "write_event member uid r a = a\<lparr>auth_journal := Service.event_line member uid r # auth_journal a\<rparr>"

text \<open>\<open>run\<close>: the operation under the lock, the permit given back, the journal line.  A password is checked for the sender's
  user; if the bus does not tell it, the method fails before it runs.\<close>

definition run_method :: "machine_env \<Rightarrow> u32 option \<Rightarrow> auth_call \<Rightarrow> (auth_world, failure, reply) op" where
  "run_method env uid c a =
     (case serve_call env uid c (authd a) of
        (r, m) \<Rightarrow>
          (r, (if request_of uid c = None then \<lambda>a. a
               else write_event (member_name c) (case c of PasswordCall _ \<Rightarrow> uid | PlainCall _ \<Rightarrow> None) r)
             (a\<lparr>authd := if takes_permit c then drop_permit m else m\<rparr>)))"

definition auth_method :: "machine_env \<Rightarrow> u32 option \<Rightarrow> auth_call \<Rightarrow> (auth_world, failure, reply) op" where
  "auth_method env uid c a =
     (if takes_permit c
      then (case admit (authd a) of
              (Inl e, m) \<Rightarrow> (Inl e, write_event (member_name c) None (Inl e) (a\<lparr>authd := m\<rparr>))
            | (Inr _, m) \<Rightarrow> run_method env uid c (a\<lparr>authd := m\<rparr>))
      else run_method env uid c a)"

section \<open>The bus\<close>

text \<open>The body of a message that carries strings.\<close>

definition body_signature :: "string list \<Rightarrow> signature" where
  "body_signature args = (case args of [] \<Rightarrow> SignatureUnit | [_] \<Rightarrow> Signature ''s'' | _ \<Rightarrow> Signature (''('' @ replicate (length args) CHR ''s'' @ '')''))"

text \<open>The dispatch that zbus generates for the interface: the method of that name, with its arguments read.\<close>

fun decode_call :: "string \<Rightarrow> string list \<Rightarrow> auth_call option" where
  "decode_call member [] =
     (if member = ''EnsurePendingPairing'' then Some (PlainCall EnsurePendingPairing)
      else if member = ''CancelPendingPairing'' then Some (PlainCall CancelPendingPairing)
      else if member = ''ResetEnrollment'' then Some (PlainCall ResetEnrollment)
      else if member = ''GetPendingPairing'' then Some (PlainCall GetPendingPairing)
      else if member = ''GetEnrollmentState'' then Some (PlainCall GetEnrollmentState)
      else None)"
| "decode_call member [x] =
     (if member = ''VerifyPassword'' then Some (PasswordCall x)
      else if member = ''ConfirmRecoveryKey'' then Some (PlainCall (ConfirmRecoveryKey x))
      else None)"
| "decode_call member [x, y] =
     (if member = ''ConsumePairing'' then Some (PlainCall (ConsumePairing x y))
      else if member = ''RecoverPassword'' then Some (PlainCall (RecoverPassword x y))
      else None)"
| "decode_call member _ = None"

text \<open>What the web interface reads of a reply: the recovery key.\<close>

fun reply_text :: "reply \<Rightarrow> string" where
  "reply_text (Key k) = k"
| "reply_text _ = []"

definition method_reply :: "failure + reply \<Rightarrow> string bus_reply" where
  "method_reply r = (case r of Inr x \<Rightarrow> Reply (reply_text x) | Inl e \<Rightarrow> MethodError (fst (to_dbus e)))"

text \<open>\<open>CheckedAuth\<close>: a body of the wrong signature is refused before the method.\<close>

definition checked_call :: "machine_env \<Rightarrow> u32 option \<Rightarrow> string \<Rightarrow> string list \<Rightarrow> auth_world \<Rightarrow> string bus_reply \<times> auth_world" where
  "checked_call env uid member args a =
     (if has_unexpected_arguments member (body_signature args) (args = [])
      then (MethodError ''org.freedesktop.DBus.Error.InvalidArgs'', a)
      else case decode_call member args of
             None \<Rightarrow> (MethodError ''org.freedesktop.DBus.Error.UnknownMethod'', a)
           | Some c \<Rightarrow> (case auth_method env uid c a of (r, a') \<Rightarrow> (method_reply r, a')))"

definition send_call :: "web_env \<Rightarrow> string \<Rightarrow> string list \<Rightarrow> auth_world \<Rightarrow> string bus_reply \<times> auth_world" where
  "send_call env member args a =
     (let f = fates env (bus_calls a); a = a\<lparr>bus_calls := bus_calls a + 1\<rparr> in
      if \<not> reaches f then (BusFailure, a)
      else case checked_call (machine_of env) (sender_uid env) member args a of
             (r, a') \<Rightarrow> (if replied f then r else TimedOut, a'))"

text \<open>sl-sessiond asks Auth1 for the enrollment on the way to the status.\<close>

definition send_status :: "web_env \<Rightarrow> string \<Rightarrow> auth_world \<Rightarrow> string bus_reply \<times> auth_world" where
  "send_status env member a =
     (let text = status_reply env (bus_calls a) in case send_call env ''GetEnrollmentState'' [] a of (_, a') \<Rightarrow> (text, a'))"

definition web_peer :: "web_env \<Rightarrow> auth_world peer" where
  "web_peer env = bus_peer \<lparr>auth_member = send_call env, session_member = send_status env\<rparr>"

section \<open>Errors across the bus\<close>

fun peer_failure :: "failure \<Rightarrow> Peers.auth_failure" where
  "peer_failure NotEnrolled = Peers.NotEnrolled"
| "peer_failure EnrollmentUnconfirmed = Peers.EnrollmentUnconfirmed"
| "peer_failure AlreadyEnrolled = Peers.AlreadyEnrolled"
| "peer_failure NoPendingPairing = Peers.NoPendingPairing"
| "peer_failure InvalidPairingCode = Peers.InvalidPairingCode"
| "peer_failure PairingAttemptsExhausted = Peers.PairingAttemptsExhausted"
| "peer_failure NoProvisionalEnrollment = Peers.NoProvisionalEnrollment"
| "peer_failure ConfirmationExpired = Peers.ConfirmationExpired"
| "peer_failure InvalidCredential = Peers.InvalidCredential"
| "peer_failure PasswordRejected = Peers.PasswordRejected"
| "peer_failure RateLimited = Peers.RateLimited"
| "peer_failure Busy = Peers.Busy"
| "peer_failure InvalidArgument = Peers.InvalidArgument"
| "peer_failure Unavailable = Peers.Unavailable"

lemma error_name_round_trip [simp]: "from_error_name (fst (to_dbus e)) = peer_failure e"
proof -
  have "strip_prefix Peers.AUTH_ERROR_PREFIX (Service.AUTH_ERROR_PREFIX @ v) = Some v" for v
    unfolding Peers.AUTH_ERROR_PREFIX_def Service.AUTH_ERROR_PREFIX_def by (rule strip_prefix_append)
  then show ?thesis by (cases e) (simp_all add: from_error_name_def to_dbus_def)
qed

lemma foreign_error_names [simp]:
  "from_error_name ''org.freedesktop.DBus.Error.InvalidArgs'' = Peers.Unavailable"
  "from_error_name ''org.freedesktop.DBus.Error.UnknownMethod'' = Peers.Unavailable"
  by (simp_all add: from_error_name_def Peers.AUTH_ERROR_PREFIX_def strip_prefix_def)

lemma bus_call_reply: "Peers.bus_call (method_reply r) = map_sum peer_failure reply_text r"
  by (cases r) (simp_all add: Peers.bus_call_def method_reply_def)

section \<open>Wrong codes\<close>

abbreviation core_behind :: "auth_world \<Rightarrow> core" where
  "core_behind a \<equiv> core_of (authd a)"

definition wrong_code :: "Peers.auth_failure + 'r \<Rightarrow> nat" where
  "wrong_code r = (if r = Inl Peers.InvalidPairingCode \<or> r = Inl Peers.PairingAttemptsExhausted then 1 else 0)"

lemma peer_failure_wrong:
  "peer_failure e = Peers.InvalidPairingCode \<longleftrightarrow> e = InvalidPairingCode"
  "peer_failure e = Peers.PairingAttemptsExhausted \<longleftrightarrow> e = PairingAttemptsExhausted"
  by (cases e; simp)+

lemma wrong_code_reply: "wrong_code (map_sum peer_failure f r) = wrong_codes [r]"
  by (cases r) (auto simp: wrong_code_def wrong_codes_def peer_failure_wrong)

text \<open>A step of the state behind the peers that may report \<open>n\<close> wrong codes.\<close>

definition spends :: "machine_env \<Rightarrow> nat \<Rightarrow> auth_world \<Rightarrow> auth_world \<Rightarrow> bool" where
  "spends env n a a' \<longleftrightarrow>
     (core_inv env (core_behind a) \<longrightarrow> core_inv env (core_behind a') \<and> n + budget (core_behind a') \<le> budget (core_behind a)) \<and>
     (reachable env (core_behind a) \<longrightarrow> reachable env (core_behind a'))"

lemma spends_refl [simp]: "core_behind a' = core_behind a \<Longrightarrow> spends env 0 a a'"
  by (simp add: spends_def)

lemma spends_trans: "spends env n a b \<Longrightarrow> spends env m b c \<Longrightarrow> spends env (n + m) a c"
  by (auto simp: spends_def)

lemma serve_call_core:
  assumes "serve_call env uid c m = (r, m')"
  shows "core_of m' = core_of m \<and> r = Inl Unavailable \<or>
    (\<exists>req. request_of uid c = Some req \<and> execute env req (core_of m) = (r, core_of m'))"
  using assms by (auto simp: serve_call_def with_core_def on_part_def err_def split: option.splits if_splits prod.splits)

lemma admit_core: "admit m = (r, m') \<Longrightarrow> core_of m' = core_of m \<and> (\<forall>e. r = Inl e \<longrightarrow> e = Busy)"
  by (auto simp: admit_def split: if_splits)

lemma run_method_core:
  assumes "run_method env uid c a = (r, a')"
  shows "core_behind a' = core_behind a \<and> r = Inl Unavailable \<or>
    (\<exists>req. request_of uid c = Some req \<and> execute env req (core_behind a) = (r, core_behind a'))"
proof -
  obtain m where m: "serve_call env uid c (authd a) = (r, m)" "core_behind a' = core_of m"
    using assms by (auto simp: run_method_def write_event_def drop_permit_def split: prod.splits)
  show ?thesis using serve_call_core [OF m(1)] m(2) by simp
qed

lemma auth_method_core:
  assumes "auth_method env uid c a = (r, a')"
  shows "core_behind a' = core_behind a \<and> (r = Inl Unavailable \<or> r = Inl Busy) \<or>
    (\<exists>req. request_of uid c = Some req \<and> execute env req (core_behind a) = (r, core_behind a'))"
proof -
  obtain q m where m: "admit (authd a) = (q, m)" by fastforce
  show ?thesis
    using assms m admit_core [OF m] run_method_core [of env uid c "a\<lparr>authd := m\<rparr>" r a'] run_method_core [of env uid c a r a']
    by (auto simp: auth_method_def write_event_def split: if_splits sum.splits)
qed

lemma auth_method_spends:
  assumes "env_ok env" "auth_method env uid c a = (r, a')" "c \<noteq> PlainCall EnsurePendingPairing"
  shows "spends env (wrong_codes [r]) a a'"
  using auth_method_core [OF assms(2)]
proof (elim disjE exE conjE)
  fix req assume req: "request_of uid c = Some req" "execute env req (core_behind a) = (r, core_behind a')"
  then have "req \<noteq> EnsurePendingPairing" using assms(3) by (cases c) auto
  moreover have "reachable env (core_behind a) \<Longrightarrow> reachable env (core_behind a')"
    using reachable.serve [of env "core_behind a" req] req(2) by simp
  ultimately show ?thesis using execute_good [OF _ assms(1) req(2)] by (auto simp: spends_def good_def)
qed (auto simp: wrong_codes_def spends_def)

lemma checked_call_spends:
  assumes "env_ok env" "checked_call env uid member args a = (b, a')" "member \<noteq> ''EnsurePendingPairing''"
  shows "spends env (wrong_code (Peers.bus_call b)) a a'"
proof (cases "has_unexpected_arguments member (body_signature args) (args = []) \<or> decode_call member args = None")
  case True
  then show ?thesis
    using assms(2) by (auto simp: checked_call_def Peers.bus_call_def wrong_code_def split: if_splits)
next
  case False
  then obtain c where c: "decode_call member args = Some c" by auto
  then obtain r where r: "auth_method env uid c a = (r, a')" "b = method_reply r"
    using assms(2) False by (auto simp: checked_call_def split: prod.splits)
  have "c \<noteq> PlainCall EnsurePendingPairing"
    using c assms(3) by (cases "(member, args)" rule: decode_call.cases) (auto split: if_splits)
  from auth_method_spends [OF assms(1) r(1) this] show ?thesis
    by (simp add: r(2) bus_call_reply wrong_code_reply)
qed

lemma send_call_spends:
  assumes "env_ok (machine_of env)" "send_call env member args a = (b, a')" "member \<noteq> ''EnsurePendingPairing''"
  shows "spends (machine_of env) (wrong_code (Peers.bus_call b)) a a'"
proof (cases "reaches (fates env (bus_calls a))")
  case False
  then show ?thesis using assms(2) by (auto simp: send_call_def Let_def Peers.bus_call_def wrong_code_def)
next
  case True
  let ?a = "a\<lparr>bus_calls := bus_calls a + 1\<rparr>"
  obtain r where r: "checked_call (machine_of env) (sender_uid env) member args ?a = (r, a')"
    "b = (if replied (fates env (bus_calls a)) then r else TimedOut)"
    using assms(2) True by (auto simp: send_call_def Let_def split: prod.splits)
  have "spends (machine_of env) (wrong_code (Peers.bus_call r)) ?a a'" by (rule checked_call_spends [OF assms(1) r(1) assms(3)])
  then show ?thesis by (auto simp: spends_def r(2) Peers.bus_call_def wrong_code_def)
qed

subsection \<open>Through the web interface\<close>

definition reports_wrong_code :: "response option \<Rightarrow> nat" where
  "reports_wrong_code r =
     (case r of
        None \<Rightarrow> 0
      | Some resp \<Rightarrow>
          if status_code resp = 403 \<and>
             resp_body resp \<in> {resp_body (error 403 ''invalid_pairing_code''), resp_body (error 403 ''pairing_attempts_exhausted'')}
          then 1 else 0)"

lemma reports_security_headers [simp]: "reports_wrong_code (map_option security_headers r) = reports_wrong_code r"
  by (cases r) (simp_all add: reports_wrong_code_def security_headers_def)

lemma reports_basic [simp]:
  "reports_wrong_code None = 0"
  "n \<noteq> 403 \<Longrightarrow> reports_wrong_code (Some (error n why)) = 0"
  "reports_wrong_code (Some (error 403 ''forbidden_origin'')) = 0"
  "reports_wrong_code (Some (json_response t)) = 0" "reports_wrong_code (Some (static_response ct t)) = 0"
  "reports_wrong_code (Some no_content) = 0" "reports_wrong_code (Some (with_cookie ck no_content)) = 0"
  by (simp_all add: reports_wrong_code_def error_def json_response_def static_response_def no_content_def with_cookie_def)

lemma parse_body_reports: "parse_body http f req = Inl resp \<Longrightarrow> reports_wrong_code (Some resp) = 0"
  by (auto simp: parse_body_def ok_or_def split: if_splits option.splits)

lemma refused_fields:
  "Http.refused route c e s = (resp, s') \<Longrightarrow> reports_wrong_code resp = wrong_code (Inl e :: Peers.auth_failure + unit) \<and> peer_state s' = peer_state s"
  by (cases e) (auto simp: Http.refused_def auth_error_def log_event_def reports_wrong_code_def error_def wrong_code_def)

lemma wrong_code_map [simp]: "wrong_code (map_sum (\<lambda>e. e) f r) = wrong_code r"
  by (cases r) (simp_all add: wrong_code_def)

lemma wrong_code_Inr [simp]: "wrong_code (Inr x) = 0"
  by (simp add: wrong_code_def)

lemma web_peer_spends:
  assumes "env_ok (machine_of env)"
  shows "peer_verify_password (web_peer env) pw p = (q, p') \<Longrightarrow> spends (machine_of env) (wrong_code q) p p'"
    and "peer_consume_pairing (web_peer env) pc pw p = (k, p') \<Longrightarrow> spends (machine_of env) (wrong_code k) p p'"
    and "peer_confirm_recovery_key (web_peer env) key p = (q, p') \<Longrightarrow> spends (machine_of env) (wrong_code q) p p'"
    and "peer_status (web_peer env) p = (t, p') \<Longrightarrow> spends (machine_of env) 0 p p'"
proof -
  note call = send_call_spends [OF assms]
  show "peer_verify_password (web_peer env) pw p = (q, p') \<Longrightarrow> spends (machine_of env) (wrong_code q) p p'"
    "peer_consume_pairing (web_peer env) pc pw p = (k, p') \<Longrightarrow> spends (machine_of env) (wrong_code k) p p'"
    "peer_confirm_recovery_key (web_peer env) key p = (q, p') \<Longrightarrow> spends (machine_of env) (wrong_code q) p p'"
    using call [of "''VerifyPassword''" "[pw]" p _ p'] call [of "''ConsumePairing''" "[pc, pw]" p _ p']
      call [of "''ConfirmRecoveryKey''" "[key]" p _ p']
    by (auto simp: web_peer_def bus_peer_def split: prod.splits)
  show "peer_status (web_peer env) p = (t, p') \<Longrightarrow> spends (machine_of env) 0 p p'"
    using call [of "''GetEnrollmentState''" "[]" p _ p']
    by (auto simp: web_peer_def bus_peer_def send_status_def Let_def spends_def split: prod.splits)
qed

lemma ask_spends:
  assumes "ask m s = (r, s')" "\<And>p q p'. m p = (q, p') \<Longrightarrow> spends env (f q) p p'"
  shows "spends env (f r) (peer_state s) (peer_state s')"
  using assms by (auto simp: ask_def on_part_def split: prod.splits)

lemma with_origin_spends:
  assumes "with_origin route req rest s = (resp, s')"
    "\<And>c. rest c s = (resp, s') \<Longrightarrow> spends env (reports_wrong_code resp) (peer_state s) (peer_state s')"
  shows "spends env (reports_wrong_code resp) (peer_state s) (peer_state s')"
  using assms by (auto simp: with_origin_cases log_event_def split: option.splits if_splits)

lemma create_peer: "on_part sess (\<lambda>t s. s\<lparr>sess := t\<rparr>) m s = (r, s') \<Longrightarrow> peer_state s' = peer_state s"
  by (auto simp: on_part_def split: prod.splits)

lemma log_event_peer [simp]: "peer_state (log_event route c o' s) = peer_state s"
  by (simp add: log_event_def)

lemma pair_spends:
  assumes "env_ok (machine_of env)" "pair http (web_peer env) req s = (resp, s')"
  shows "spends (machine_of env) (reports_wrong_code resp) (peer_state s) (peer_state s')"
  using assms(2) unfolding pair_def
  by (rule with_origin_spends)
    (auto dest!: parse_body_reports refused_fields ask_spends [OF _ web_peer_spends(2) [OF assms(1)]] simp: wrong_code_def
      split: sum.splits if_splits prod.splits)

lemma confirm_spends:
  assumes "env_ok (machine_of env)" "confirm http (web_peer env) req s = (resp, s')"
  shows "spends (machine_of env) (reports_wrong_code resp) (peer_state s) (peer_state s')"
  using assms(2) unfolding confirm_def
  by (rule with_origin_spends)
    (auto dest!: parse_body_reports refused_fields ask_spends [OF _ web_peer_spends(3) [OF assms(1)]] split: sum.splits if_splits prod.splits)

lemma login_spends:
  assumes "env_ok (machine_of env)" "login http senv (web_peer env) req s = (resp, s')"
  shows "spends (machine_of env) (reports_wrong_code resp) (peer_state s) (peer_state s')"
  using assms(2) unfolding login_def
  by (rule with_origin_spends)
    (auto dest!: parse_body_reports refused_fields create_peer ask_spends [OF _ web_peer_spends(1) [OF assms(1)]] split: sum.splits if_splits prod.splits)

lemma logout_spends:
  assumes "logout http req s = (resp, s')"
  shows "spends env (reports_wrong_code resp) (peer_state s) (peer_state s')"
  using assms unfolding logout_def
  by (rule with_origin_spends) (auto simp: Let_def split: option.splits list.splits)

lemma status_spends:
  assumes "env_ok (machine_of env)" "Http.status http senv (web_peer env) req s = (resp, s')"
  shows "spends (machine_of env) (reports_wrong_code resp) (peer_state s) (peer_state s')"
  using assms(2) unfolding Http.status_def
  by (auto dest!: ask_spends [where f = "\<lambda>_. 0", OF _ web_peer_spends(4) [OF assms(1)]] simp: Let_def
      split: option.splits sum.splits if_splits prod.splits)

lemma router_spends:
  assumes "env_ok (machine_of env)" "router http senv (web_peer env) req s = (resp, s')"
  shows "spends (machine_of env) (reports_wrong_code resp) (peer_state s) (peer_state s')"
proof (cases "addressed req")
  case True
  then obtain r where h: "handle http senv (web_peer env) (routed_to http req) req s = (r, s')" "resp = map_option security_headers r"
    using assms(2) by (auto simp: router_cases split: prod.splits)
  have "spends (machine_of env) (reports_wrong_code r) (peer_state s) (peer_state s')"
    using h(1)
    by (cases "(http, senv, web_peer env, routed_to http req, req, s)" rule: handle.cases)
      (auto intro: pair_spends confirm_spends login_spends logout_spends status_spends assms(1))
  then show ?thesis by (simp add: h(2))
next
  case False
  then show ?thesis using assms(2) by (auto simp: router_cases reports_wrong_code_def error_def security_headers_def)
qed

section \<open>Runs\<close>

text \<open>Requests of the web interface, and calls of others in between: any method, from any user.\<close>

datatype web_step = Web Http.request | Other "u32 option" auth_call

fun web_run :: "http_env \<Rightarrow> sessions_env \<Rightarrow> web_env \<Rightarrow> web_step list \<Rightarrow> auth_world app_state \<Rightarrow>
    response option list \<times> auth_world app_state" where
  "web_run http senv env [] s = ([], s)"
| "web_run http senv env (Web req # steps) s =
     (case router http senv (web_peer env) req s of (resp, s1) \<Rightarrow>
      case web_run http senv env steps s1 of (resps, s2) \<Rightarrow> (resp # resps, s2))"
| "web_run http senv env (Other uid c # steps) s =
     web_run http senv env steps (s\<lparr>peer_state := snd (auth_method (machine_of env) uid c (peer_state s))\<rparr>)"

lemma web_run_spends:
  assumes "env_ok (machine_of env)"
  shows "web_run http senv env steps s = (resps, s') \<Longrightarrow>
    \<forall>uid. Other uid (PlainCall EnsurePendingPairing) \<notin> set steps \<Longrightarrow>
    spends (machine_of env) (sum_list (map reports_wrong_code resps)) (peer_state s) (peer_state s')"
proof (induction steps arbitrary: s resps)
  case (Cons st steps)
  show ?case
  proof (cases st)
    case (Web req)
    then obtain resp s1 rest where r: "router http senv (web_peer env) req s = (resp, s1)"
      "web_run http senv env steps s1 = (rest, s')" "resps = resp # rest"
      using Cons.prems(1) by (auto split: prod.splits)
    show ?thesis
      using spends_trans [OF router_spends [OF assms r(1)] Cons.IH [OF r(2)]] Cons.prems(2) by (simp add: r(3))
  next
    case (Other uid c)
    let ?m = "auth_method (machine_of env) uid c (peer_state s)"
    have "spends (machine_of env) (wrong_codes [fst ?m]) (peer_state s) (snd ?m)"
      by (rule auth_method_spends [OF assms]) (use Cons.prems(2) Other in auto)
    then have "spends (machine_of env) 0 (peer_state s) (snd ?m)" by (auto simp: spends_def)
    moreover have "spends (machine_of env) (sum_list (map reports_wrong_code resps)) (snd ?m) (peer_state s')"
      using Cons.IH [of "s\<lparr>peer_state := snd ?m\<rparr>" resps] Cons.prems Other by simp
    ultimately show ?thesis using spends_trans by fastforce
  qed
qed simp

section \<open>Properties\<close>

text \<open>C10: Guessing the pairing code through the web interface is bounded.  Whatever requests are sent, whatever other callers
  do in between, and whichever calls and replies the bus loses: as long as no new pairing is opened, no more responses
  report a wrong code than the pending pairing has attempts left, which are at most five.\<close>

theorem web_guesses_bounded:
  assumes "env_ok (machine_of env)" "reachable (machine_of env) (core_of (authd (peer_state s)))"
    "\<forall>uid. Other uid (PlainCall EnsurePendingPairing) \<notin> set steps"
  shows "sum_list (map reports_wrong_code (fst (web_run http senv env steps s))) \<le>
    (case pending (core_of (authd (peer_state s))) of None \<Rightarrow> 0 | Some p \<Rightarrow> 5 - unat (wrong_attempts p))"
proof -
  obtain resps s' where r: "web_run http senv env steps s = (resps, s')" by fastforce
  have "sum_list (map reports_wrong_code resps) \<le> budget (core_behind (peer_state s))"
    using web_run_spends [OF assms(1) r assms(3)] reachable_inv [OF assms(1,2)] by (simp add: spends_def)
  then show ?thesis by (simp add: r budget_def PAIRING_ATTEMPTS_def split: option.splits)
qed

subsection \<open>Logging in\<close>

lemma accepted_password:
  assumes "peer_verify_password (web_peer env) pw a = (Inr (), a')"
  shows "\<exists>uid s'. sender_uid env = Some uid \<and> verify_password (machine_of env) uid pw (core_behind a) = (Inr (), s')"
proof -
  let ?a = "a\<lparr>bus_calls := bus_calls a + 1\<rparr>"
  obtain r where r: "auth_method (machine_of env) (sender_uid env) (PasswordCall pw) ?a = (r, a')" and ok: "\<exists>x. r = Inr x"
  proof -
    obtain r b where r: "auth_method (machine_of env) (sender_uid env) (PasswordCall pw) ?a = (r, b)" by fastforce
    have "has_unexpected_arguments ''VerifyPassword'' (body_signature [pw]) False = False"
      by (simp add: has_unexpected_arguments_def METHOD_SIGNATURES_def body_signature_def)
    then have "b = a' \<and> (\<exists>x. r = Inr x)"
      using assms r by (cases r) (auto simp: web_peer_def bus_peer_def send_call_def checked_call_def Let_def bus_call_reply
          Peers.bus_call_def [of TimedOut] Peers.bus_call_def [of BusFailure] split: if_splits)
    then show ?thesis using that r by blast
  qed
  from auth_method_core [OF r] ok obtain req where "request_of (sender_uid env) (PasswordCall pw) = Some req"
    "execute (machine_of env) req (core_behind ?a) = (r, core_behind a')" by auto
  with ok show ?thesis by (auto simp: and_then_def ok_def split: prod.splits sum.splits)
qed


subsection \<open>Enrolling\<close>

text \<open>The bus delivers, the service takes calls, and the user of sl-remoted is known.\<close>

definition bus_works :: "web_env \<Rightarrow> bool" where
  "bus_works env \<longleftrightarrow> (\<forall>n. reaches (fates env n) \<and> replied (fates env n)) \<and> sender_uid env \<noteq> None"

definition takes_calls :: "auth_world \<Rightarrow> bool" where
  "takes_calls a \<longleftrightarrow> \<not> poisoned (authd a) \<and> admitted (authd a) < MAX_ADMITTED"

lemma method_served:
  assumes "takes_calls a" "takes_permit c" "request_of uid c = Some req" "execute env req (core_behind a) = (r, s)"
  shows "\<exists>a'. auth_method env uid c a = (r, a') \<and> core_behind a' = s \<and> takes_calls a'"
  using assms by (simp add: auth_method_def admit_def run_method_def serve_call_def with_core_def on_part_def takes_calls_def
      write_event_def drop_permit_def)

lemma call_served:
  assumes "bus_works env" "takes_calls a" "\<not> has_unexpected_arguments member (body_signature args) (args = [])"
    "decode_call member args = Some c" "takes_permit c" "request_of (sender_uid env) c = Some req"
    "execute (machine_of env) req (core_behind a) = (r, s)"
  shows "\<exists>a'. send_call env member args a = (method_reply r, a') \<and> core_behind a' = s \<and> takes_calls a'"
proof -
  let ?a = "a\<lparr>bus_calls := bus_calls a + 1\<rparr>"
  have "takes_calls ?a" using assms(2) by (simp add: takes_calls_def)
  from method_served [OF this assms(5,6), of "machine_of env" r s] assms(7) obtain a' where
    "auth_method (machine_of env) (sender_uid env) c ?a = (r, a')" "core_behind a' = s" "takes_calls a'" by auto
  then show ?thesis using assms(1,3,4) by (auto simp: send_call_def checked_call_def Let_def bus_works_def)
qed

text \<open>A well-formed POST to an action, with the body that it carries.\<close>

definition posts :: "http_env \<Rightarrow> Http.request \<Rightarrow> handler \<Rightarrow> (string \<Rightarrow> 'b option) \<Rightarrow> 'b \<Rightarrow> bool" where
  "posts http req h f v \<longleftrightarrow> routed_to http req = Matched h \<and> addressed req \<and> same_origin req \<and> parse_body http f req = Inr v"

lemma posts_conn: "posts http req h f v \<Longrightarrow> \<exists>c. req_conn req = Some c"
  by (auto simp: posts_def addressed_def)

lemma posts_sess:
  assumes "posts http req h f v" "h \<in> {Pair, Confirm}" "router http senv pr req s = (resp, s')"
  shows "sess s' = sess s"
  using assms by (auto simp: posts_def router_cases dest: pair_sess confirm_sess split: prod.splits)

lemma bus_signatures:
  "\<not> has_unexpected_arguments ''VerifyPassword'' (body_signature [x]) ([x] = [])"
  "\<not> has_unexpected_arguments ''ConfirmRecoveryKey'' (body_signature [x]) ([x] = [])"
  "\<not> has_unexpected_arguments ''ConsumePairing'' (body_signature [x, y]) ([x, y] = [])"
  by (simp_all add: has_unexpected_arguments_def METHOD_SIGNATURES_def body_signature_def)

lemma web_pair:
  assumes "bus_works env" "takes_calls (peer_state s)"
    and "posts http req Pair (from_slice_pair http) \<lparr>pairing_code = shown, pair_password = pw\<rparr>"
    and "length pw \<le> 1024" "length shown \<le> 64"
    and "consume_pairing (machine_of env) shown pw (core_behind (peer_state s)) = (Inr key, c)"
  shows "\<exists>s'. router http senv (web_peer env) req s = (Some (security_headers (json_response (json_recovery_key http key))), s') \<and>
    sess s' = sess s \<and> core_behind (peer_state s') = c \<and> takes_calls (peer_state s')"
proof -
  have "execute (machine_of env) (ConsumePairing shown pw) (core_behind (peer_state s)) = (Inr (Key key), c)"
    using assms(6) by (simp add: and_then_def ok_def)
  from call_served [OF assms(1,2) bus_signatures(3) _ _ _ this] obtain a' where
    a': "send_call env ''ConsumePairing'' [shown, pw] (peer_state s) = (Reply key, a')" "core_behind a' = c" "takes_calls a'"
    by (auto simp: method_reply_def)
  then show ?thesis
    using assms(3-5) posts_conn [OF assms(3)]
    by (auto simp: router_cases posts_def pair_def with_origin_cases ask_def on_part_def web_peer_def bus_peer_def
        Peers.bus_call_def Http.PASSWORD_MAX_BYTES_def Http.CODE_MAX_BYTES_def log_event_def)
qed

lemma web_confirm:
  assumes "bus_works env" "takes_calls (peer_state s)"
    and "posts http req Confirm (from_slice_confirm http) \<lparr>recovery_key = key\<rparr>" "length key \<le> 64"
    and "confirm_recovery_key (machine_of env) key (core_behind (peer_state s)) = (Inr (), c)"
  shows "\<exists>s'. router http senv (web_peer env) req s = (Some (security_headers no_content), s') \<and>
    sess s' = sess s \<and> core_behind (peer_state s') = c \<and> takes_calls (peer_state s')"
proof -
  have "execute (machine_of env) (ConfirmRecoveryKey key) (core_behind (peer_state s)) = (Inr Done, c)"
    using assms(5) by (simp add: and_then_def ok_def)
  from call_served [OF assms(1,2) bus_signatures(2) _ _ _ this] obtain a' where
    a': "send_call env ''ConfirmRecoveryKey'' [key] (peer_state s) = (Reply [], a')" "core_behind a' = c" "takes_calls a'"
    by (auto simp: method_reply_def)
  then show ?thesis
    using assms(3,4) posts_conn [OF assms(3)]
    by (auto simp: router_cases posts_def confirm_def with_origin_cases ask_def on_part_def web_peer_def bus_peer_def
        Peers.bus_call_def Http.CODE_MAX_BYTES_def log_event_def)
qed

lemma web_login:
  assumes "bus_works env" "takes_calls (peer_state s)"
    and "posts http req Login (from_slice_login http) \<lparr>password = pw\<rparr>" "length pw \<le> 1024"
    and "\<And>uid. fst (verify_password (machine_of env) uid pw (core_behind (peer_state s))) = Inr ()"
    and "create senv (sess s) = (Inr sid, t)"
  shows "\<exists>s'. router http senv (web_peer env) req s =
      (Some (security_headers (with_cookie (set_cookie http sid 28800) no_content)), s') \<and> sess s' = t"
proof -
  obtain uid where uid: "sender_uid env = Some uid" using assms(1) by (auto simp: bus_works_def)
  obtain c where "verify_password (machine_of env) uid pw (core_behind (peer_state s)) = (Inr (), c)"
    using assms(5) [of uid] by (metis prod.collapse)
  then have "execute (machine_of env) (VerifyPassword uid pw) (core_behind (peer_state s)) = (Inr Done, c)"
    by (simp add: and_then_def ok_def)
  from call_served [OF assms(1,2) bus_signatures(1) _ _ _ this] uid obtain a' where
    a': "send_call env ''VerifyPassword'' [pw] (peer_state s) = (Reply [], a')" by (auto simp: method_reply_def)
  then show ?thesis
    using assms(3,4,6) posts_conn [OF assms(3)]
    by (auto simp: router_cases posts_def login_def with_origin_cases ask_def on_part_def web_peer_def bus_peer_def
        Peers.bus_call_def Http.PASSWORD_MAX_BYTES_def ABSOLUTE_TIMEOUT_def log_event_def)
qed
lemma web_enrollment_run:
  assumes "working (machine_of env)" "bus_works env" "takes_calls (peer_state s)"
    and "idle (machine_of env) (core_of (authd (peer_state s)))" "unexpired (machine_of env) (core_of (authd (peer_state s)))"
    and "pending (core_of (authd (peer_state s))) = Some p" "backoff (core_of (authd (peer_state s))) = Map.empty"
    and "acceptable pw" "not_a_code pw" "create senv (sess s) = (Inr sid, t)"
    and "now_at senv (readings (sess s)) = Some n" "now_at senv (readings t) = Some n'" "unat n' - unat n < 900"
    and "posts http pair_req Pair (from_slice_pair http) \<lparr>pairing_code = encode_pairing_code (code p), pair_password = pw\<rparr>"
    and "\<And>key. length key = 26 \<Longrightarrow> posts http (confirm_req key) Confirm (from_slice_confirm http) \<lparr>recovery_key = key\<rparr>"
    and "posts http login_req Login (from_slice_login http) \<lparr>password = pw\<rparr>"
  shows "\<exists>key s1 s2 s3.
    router http senv (web_peer env) pair_req s = (Some (security_headers (json_response (json_recovery_key http key))), s1) \<and>
    router http senv (web_peer env) (confirm_req key) s1 = (Some (security_headers no_content), s2) \<and>
    router http senv (web_peer env) login_req s2 = (Some (security_headers (with_cookie (set_cookie http sid 28800) no_content)), s3) \<and>
    fst (validate senv sid (sess s3))"
proof -
  have len: "length pw \<le> 1024" using assms(8) by (simp add: acceptable_def Machine.PASSWORD_MAX_BYTES_def)
  have "core_inv (machine_of env) (core_behind (peer_state s))" using assms(4) by (simp add: idle_def)
  then have "length (code p) = 5" using core_inv_pending(2) [OF _ assms(6)] by (simp add: PAIRING_CODE_BYTES_def)
  then have short: "length (encode_pairing_code (code p)) \<le> 64"
    using length_encode_pairing [of "code p"] by (simp add: encode_pairing_code_def)
  obtain key c1 where c1: "consume_pairing (machine_of env) (encode_pairing_code (code p)) pw (core_behind (peer_state s)) = (Inr key, c1)"
    "idle (machine_of env) c1" "unexpired (machine_of env) c1" "is_provisional (persisted c1)"
    "enrolled_with (machine_of env) pw key (persisted c1)" "parse_recovery_key key \<noteq> None" "backoff c1 = Map.empty"
    using consume_ok [OF assms(1,4,5,6,8,9)] assms(7) by (auto simp: wp_def split: prod.splits sum.splits)
  have klen: "length key = 26"
    using c1(6) by (auto simp: parse_recovery_key_def RECOVERY_KEY_SYMBOLS_def split: if_splits)
  obtain c2 where c2: "confirm_recovery_key (machine_of env) key c1 = (Inr (), c2)" "idle (machine_of env) c2"
    "is_enrolled (persisted c2)" "enrolled_with (machine_of env) pw key (persisted c2)" "backoff c2 = Map.empty"
    using confirm_ok [OF assms(1) c1(2-6)] c1(7) by (auto simp: wp_def split: prod.splits sum.splits)
  have login: "fst (verify_password (machine_of env) uid pw c2) = Inr ()" for uid
    using login_ok [OF assms(1) c2(2-4), of uid pw] c2(5) len by (simp add: Machine.PASSWORD_MAX_BYTES_def)
  obtain s1 where s1: "router http senv (web_peer env) pair_req s = (Some (security_headers (json_response (json_recovery_key http key))), s1)"
    "sess s1 = sess s" "core_behind (peer_state s1) = c1" "takes_calls (peer_state s1)"
    using web_pair [OF assms(2,3,14) len short c1(1)] by blast
  obtain s2 where s2: "router http senv (web_peer env) (confirm_req key) s1 = (Some (security_headers no_content), s2)"
    "sess s2 = sess s" "core_behind (peer_state s2) = c2" "takes_calls (peer_state s2)"
    using web_confirm [OF assms(2) s1(4) assms(15) [OF klen], of c2 senv] klen c2(1) s1(2,3) by auto
  obtain s3 where "router http senv (web_peer env) login_req s2 =
      (Some (security_headers (with_cookie (set_cookie http sid 28800) no_content)), s3)" "sess s3 = t"
    using web_login [OF assms(2) s2(4) assms(16) len, of senv sid t] login assms(10) s2(2,3) by auto
  then show ?thesis using s1(1) s2(1) issued_session_accepted [OF assms(10-13)] by blast
qed

subsection \<open>A browser in front of a device\<close>

definition demo_web :: web_env where
  "demo_web = \<lparr>machine_of = demo_machine, sender_uid = Some 990, fates = (\<lambda>_. \<lparr>reaches = True, replied = True\<rparr>),
     status_reply = (\<lambda>_. Reply ''{}'')\<rparr>"

definition demo_web_state :: "auth_world app_state" where
  "demo_web_state = \<lparr>sess = no_sessions, peer_state = \<lparr>authd = Service.shared_new demo_paired, auth_journal = [], bus_calls = 0\<rparr>, journal = []\<rparr>"

definition demo_browser :: http_env where
  "demo_browser = demo_http\<lparr>from_slice_pair := (\<lambda>b. Some \<lparr>pairing_code = take 8 b, pair_password = drop 8 b\<rparr>),
     from_slice_confirm := (\<lambda>b. Some \<lparr>recovery_key = b\<rparr>)\<rparr>"

definition demo_post :: "string \<Rightarrow> string \<Rightarrow> Http.request" where
  "demo_post path body = demo_login\<lparr>req_path := path, req_body := body\<rparr>"

lemma demo_post_sent:
  assumes "length body \<le> 4096" "f body = Some v"
    and "(path, h) \<in> {(''/api/v1/pair'', Pair), (''/api/v1/confirm'', Confirm), (''/api/v1/login'', Login)}"
  shows "posts demo_browser (demo_post path body) h f v"
proof -
  have "to_ascii_lowercase ''application/json'' = ''application/json''"
    by (simp add: to_ascii_lowercase_def to_ascii_lowercase_char_def Let_def)
  then have "parse_body demo_browser f (demo_post path body) = Inr v"
    using assms(1,2) by (simp add: parse_body_def json_content_type_def demo_browser_def demo_http_def demo_post_def demo_login_def
        get_all_def BODY_LIMIT_def)
  moreover have "routed_to demo_browser (demo_post path body) = Matched h"
    using assms(3) by (auto simp: demo_browser_def demo_http_def demo_post_def demo_login_def routes_def)
  moreover have "addressed (demo_post path body)" "same_origin (demo_post path body)"
    using demo_addressed(1,2) by (simp_all add: demo_post_def addressed_def same_origin_def host_ok_def origin_ok_def Let_def)
  ultimately show ?thesis by (simp add: posts_def)
qed

lemma demo_browser_reads:
  "from_slice_pair demo_browser b = Some \<lparr>pairing_code = take 8 b, pair_password = drop 8 b\<rparr>"
  "from_slice_confirm demo_browser b = Some \<lparr>recovery_key = b\<rparr>" "from_slice_login demo_browser b = Some \<lparr>password = b\<rparr>"
  "json_recovery_key demo_browser b = b"
  by (simp_all add: demo_browser_def demo_http_def)

lemma demo_paired_ok:
  "idle demo_machine demo_paired" "unexpired demo_machine demo_paired" "pending demo_paired \<noteq> None" "backoff demo_paired = Map.empty"
proof -
  have "wp (ensure_pending_pairing demo_machine) (\<lambda>_ s'. idle demo_machine s' \<and> unexpired demo_machine s' \<and>
      persisted s' = Some Unenrolled \<and> pending s' \<noteq> None \<and> backoff s' = backoff demo_core) (\<lambda>_ _. False) demo_core"
    by (rule ensure_ok [OF demo_working demo_idle]) (simp_all add: demo_core_eq)
  then have "idle demo_machine demo_paired \<and> unexpired demo_machine demo_paired \<and> pending demo_paired \<noteq> None \<and> backoff demo_paired = Map.empty"
    by (auto simp: demo_paired_def wp_def and_then_def ok_def demo_core_eq split: prod.splits sum.splits)
  then show "idle demo_machine demo_paired" "unexpired demo_machine demo_paired" "pending demo_paired \<noteq> None" "backoff demo_paired = Map.empty"
    by simp_all
qed

lemma demo_paired_reachable: "reachable demo_machine demo_paired"
  unfolding demo_paired_def by (rule reachable.serve [OF demo_reachable])

definition demo_code :: string where
  "demo_code = encode_pairing_code (code (the (pending demo_paired)))"

lemma demo_code_length: "length demo_code = 8"
proof -
  obtain p where p: "pending demo_paired = Some p" using demo_paired_ok(3) by blast
  have inv: "core_inv demo_machine demo_paired" using demo_paired_ok(1) by (simp add: idle_def)
  show ?thesis
    using length_encode_pairing [of "code p"] core_inv_pending(2) [OF inv p]
    by (simp add: demo_code_def p encode_pairing_code_def PAIRING_CODE_BYTES_def)
qed

lemma demo_web_ready:
  "bus_works demo_web" "takes_calls (peer_state demo_web_state)" "core_of (authd (peer_state demo_web_state)) = demo_paired"
  "machine_of demo_web = demo_machine" "sess demo_web_state = no_sessions"
  "now_at demo_sessions (readings no_sessions) = Some 0" "now_at demo_sessions (readings one_session) = Some 200"
  by (simp_all add: bus_works_def demo_web_def demo_web_state_def Service.shared_new_def takes_calls_def MAX_ADMITTED_def
      demo_sessions_def no_sessions_def one_session_def)

lemma demo_password: "acceptable ''correct horse''" "not_a_code ''correct horse''"
  by code_simp+

lemma demo_pending: "pending demo_paired = Some (the (pending demo_paired))"
  using demo_paired_ok(3) by auto

lemma demo_requests_sent:
  "posts demo_browser (demo_post ''/api/v1/pair'' (demo_code @ ''correct horse'')) Pair (from_slice_pair demo_browser)
      \<lparr>pairing_code = encode_pairing_code (code (the (pending demo_paired))), pair_password = ''correct horse''\<rparr>"
  "\<And>key. length key = 26 \<Longrightarrow> posts demo_browser (demo_post ''/api/v1/confirm'' key) Confirm (from_slice_confirm demo_browser) \<lparr>recovery_key = key\<rparr>"
  "posts demo_browser (demo_post ''/api/v1/login'' ''correct horse'') Login (from_slice_login demo_browser) \<lparr>password = ''correct horse''\<rparr>"
  by (rule demo_post_sent; use demo_code_length in \<open>simp add: demo_browser_reads demo_code_def\<close>)+

lemmas demo_exchange = demo_working demo_web_ready(1,2) demo_paired_ok(1,2) demo_pending demo_paired_ok(4) demo_password demo_create
  demo_web_ready(6,7)

text \<open>C39: An operator can enroll in the browser.  On a working device that shows a pairing code, posting the shown code with an
  acceptable password is answered with a recovery key, posting that key back is accepted, and posting the password then
  logs in: the response sets a session cookie, and the next status query with it is let in.\<close>

theorem web_enrollment_succeeds:
  assumes "working (machine_of env)" "bus_works env" "takes_calls (peer_state s)"
    and "idle (machine_of env) (core_of (authd (peer_state s)))" "unexpired (machine_of env) (core_of (authd (peer_state s)))"
    and "pending (core_of (authd (peer_state s))) = Some p" "backoff (core_of (authd (peer_state s))) = Map.empty"
    and "acceptable pw" "not_a_code pw" "create senv (sess s) = (Inr sid, t)"
    and "now_at senv (readings (sess s)) = Some n" "now_at senv (readings t) = Some n'" "unat n' - unat n < 900"
    and "posts http pair_req Pair (from_slice_pair http) \<lparr>pairing_code = encode_pairing_code (code p), pair_password = pw\<rparr>"
    and "\<And>key. length key = 26 \<Longrightarrow> posts http (confirm_req key) Confirm (from_slice_confirm http) \<lparr>recovery_key = key\<rparr>"
    and "posts http login_req Login (from_slice_login http) \<lparr>password = pw\<rparr>"
  shows "\<exists>key s1 s2 s3.
    router http senv (web_peer env) pair_req s = (Some (security_headers (json_response (json_recovery_key http key))), s1) \<and>
    router http senv (web_peer env) (confirm_req key) s1 = (Some (security_headers no_content), s2) \<and>
    router http senv (web_peer env) login_req s2 = (Some (security_headers (with_cookie (set_cookie http sid 28800) no_content)), s3) \<and>
    fst (validate senv sid (sess s3))"
  by (rule web_enrollment_run [OF assms])

theorem web_enrollment_succeeds_witness:
  "bus_works demo_web \<and>
   (\<exists>key s1 s2 s3.
      router demo_browser demo_sessions (web_peer demo_web) (demo_post ''/api/v1/pair'' (demo_code @ ''correct horse'')) demo_web_state =
        (Some (security_headers (json_response key)), s1) \<and>
      router demo_browser demo_sessions (web_peer demo_web) (demo_post ''/api/v1/confirm'' key) s1 =
        (Some (security_headers no_content), s2) \<and>
      router demo_browser demo_sessions (web_peer demo_web) (demo_post ''/api/v1/login'' ''correct horse'') s2 =
        (Some (security_headers (with_cookie (set_cookie demo_browser demo_sid 28800) no_content)), s3) \<and>
      fst (validate demo_sessions demo_sid (sess s3)))"
  using web_enrollment_succeeds [of demo_web demo_web_state "the (pending demo_paired)" "''correct horse''" demo_sessions demo_sid
      one_session 0 200 demo_browser, unfolded demo_web_ready(3-5), OF demo_exchange _ demo_requests_sent] demo_web_ready(1)
  by (simp add: demo_browser_reads)


theorem web_guesses_bounded_witness:
  "reachable demo_machine demo_paired \<and>
   sum_list (map reports_wrong_code (fst (web_run demo_browser demo_sessions demo_web
     (replicate 7 (Web (demo_post ''/api/v1/pair'' ''00000000correct horse''))) demo_web_state))) \<le> 5"
proof -
  have env: "env_ok (machine_of demo_web)" using working_env_ok [OF demo_working] demo_web_ready(4) by simp
  have reach: "reachable (machine_of demo_web) (core_of (authd (peer_state demo_web_state)))"
    using demo_paired_reachable demo_web_ready(3,4) by simp
  let ?steps = "replicate 7 (Web (demo_post ''/api/v1/pair'' ''00000000correct horse''))"
  have "\<forall>uid. Other uid (PlainCall EnsurePendingPairing) \<notin> set ?steps" by simp
  from web_guesses_bounded [OF env reach this, of demo_browser demo_sessions]
  have "sum_list (map reports_wrong_code (fst (web_run demo_browser demo_sessions demo_web ?steps demo_web_state))) \<le> 5"
    by (rule order_trans) (simp split: option.split)
  then show ?thesis using demo_paired_reachable by blast
qed

end
