(* ===== verification/Startup.thy ===== *)
theory Startup
  imports Worker_Identity
begin

text \<open>
  How the daemons start: the state directory of sl-authd (\<^verbatim>\<open>src/authd/src/main.rs\<close>), and for sl-remoted the TLS identity
  (\<^verbatim>\<open>src/remoted/src/tls.rs\<close>), the kernel's change notifications (\<^verbatim>\<open>src/remoted/src/netlink.rs\<close>) and the start sequence
  (\<^verbatim>\<open>src/remoted/src/main.rs\<close>).  The PEM decoder and the acceptance by the rustls configuration builder, which checks that
  the key belongs to the certificate, are fields of \<open>tls_env\<close>.
\<close>

section \<open>The state directory of sl-authd\<close>

definition DEFAULT_STATE_DIRECTORY :: string where "DEFAULT_STATE_DIRECTORY = ''/var/lib/sl-authd''"

text \<open>\<open>utf8\<close> is \<^verbatim>\<open>OsStr::to_str\<close>.\<close>

definition state_directory :: "(string \<Rightarrow> string option) \<Rightarrow> string option \<Rightarrow> string" where
  "state_directory utf8 environment =
     (case Option.bind environment (\<lambda>value.
           Option.bind (utf8 value) (\<lambda>value.
           let first = takeWhile (\<lambda>c. c \<noteq> CHR '':'') value in
           if take 1 first = ''/'' then Some first else None)) of
        Some d \<Rightarrow> d
      | None \<Rightarrow> DEFAULT_STATE_DIRECTORY)"

section \<open>The TLS identity\<close>

record tls_env =
  pem_certificates :: "string \<Rightarrow> string list option"
  pem_private_key :: "string \<Rightarrow> string option"
  single_cert_accepted :: "string \<Rightarrow> string \<Rightarrow> bool"

record server_config =
  config_certificate :: string
  config_key :: string
  alpn_protocols :: "string list"

definition tls_load :: "tls_env \<Rightarrow> io_env \<Rightarrow> (world, unit, server_config) op" where
  "tls_load env ioe =
     and_then (map_err (\<lambda>_. ()) (current_generation ioe)) (\<lambda>current.
     case current of
       None \<Rightarrow> err ()
     | Some generation \<Rightarrow>
         let directory = tls_path @ [generation] in
         and_then (map_err (\<lambda>_. ()) (read_file ioe (directory @ [CERT_FILE]))) (\<lambda>cert_pem.
         and_then (lift_res (ok_or () (pem_certificates env cert_pem))) (\<lambda>certificates.
         if length certificates \<noteq> 1 then err ()
         else
           and_then (map_err (\<lambda>_. ()) (read_file ioe (directory @ [KEY_FILE]))) (\<lambda>key_pem.
           and_then (lift_res (ok_or () (pem_private_key env key_pem))) (\<lambda>key.
           if \<not> single_cert_accepted env (hd certificates) key then err ()
           else ok \<lparr>config_certificate = hd certificates, config_key = key, alpn_protocols = [''http/1.1'']\<rparr>)))))"

text \<open>The contents of two files from which the identity can be loaded.\<close>

definition loadable :: "tls_env \<Rightarrow> string \<Rightarrow> string \<Rightarrow> bool" where
  "loadable env key_pem cert_pem \<longleftrightarrow>
     (case (pem_certificates env cert_pem, pem_private_key env key_pem) of
        (Some [cert], Some key) \<Rightarrow> single_cert_accepted env cert key
      | _ \<Rightarrow> False)"

section \<open>Change notifications of the kernel\<close>

text \<open>The link, address and route groups of \<^verbatim>\<open>linux/rtnetlink.h\<close>.\<close>

definition RTMGRP_LINK :: u32 where "RTMGRP_LINK = 0x1"
definition RTMGRP_IPV4_IFADDR :: u32 where "RTMGRP_IPV4_IFADDR = 0x10"
definition RTMGRP_IPV4_ROUTE :: u32 where "RTMGRP_IPV4_ROUTE = 0x40"
definition RTMGRP_IPV6_IFADDR :: u32 where "RTMGRP_IPV6_IFADDR = 0x100"
definition RTMGRP_IPV6_ROUTE :: u32 where "RTMGRP_IPV6_ROUTE = 0x400"

definition GROUPS :: u32 where
  "GROUPS = RTMGRP_LINK OR RTMGRP_IPV4_IFADDR OR RTMGRP_IPV6_IFADDR OR RTMGRP_IPV4_ROUTE OR RTMGRP_IPV6_ROUTE"

text \<open>What the calls that open the socket return: \<^verbatim>\<open>socket\<close>, \<^verbatim>\<open>bind\<close> to a descriptor and the groups, and the registration
  with the reactor.\<close>

record socket_env =
  socket_call :: int
  bind_call :: "int \<Rightarrow> u32 \<Rightarrow> int"
  registers :: "int \<Rightarrow> bool"

text \<open>The bound descriptor.\<close>

definition netlink_open :: "socket_env \<Rightarrow> unit + int" where
  "netlink_open env =
     (let raw = socket_call env in
      if raw < 0 then Inl ()
      else if bind_call env raw GROUPS < 0 then Inl ()
      else if registers env raw then Inr raw else Inl ())"

text \<open>A call of \<^verbatim>\<open>recv\<close>: what it returned, and the last error number of the thread, which a successful call leaves as it was.\<close>

datatype errno = EAGAIN | ENOBUFS | EINTR | OtherErrno

record received =
  size_of :: int
  last_errno :: errno

record netlink_env =
  becomes_readable :: "nat \<Rightarrow> bool"
  recv :: "nat \<Rightarrow> received"

datatype drained = Go bool | Break | Fail

text \<open>One round of the inner loop.\<close>

definition drain_round :: "received \<Rightarrow> drained" where
  "drain_round r =
     (if 0 < size_of r then Go True
      else case last_errno r of
             EAGAIN \<Rightarrow> Break
           | ENOBUFS \<Rightarrow> Go True
           | EINTR \<Rightarrow> Go False
           | OtherErrno \<Rightarrow> if size_of r = 0 then Break else Fail)"

text \<open>The loop ends only when the kernel has nothing more; \<open>None\<close> if it never does.  The result says whether something was
  received, and how many calls were made.\<close>

partial_function (option) drain :: "netlink_env \<Rightarrow> bool \<Rightarrow> nat \<Rightarrow> ((unit + bool) \<times> nat) option" where
  "drain env notified n =
     (case drain_round (recv env n) of
        Go seen \<Rightarrow> drain env (notified \<or> seen) (n + 1)
      | Break \<Rightarrow> Some (Inr notified, n + 1)
      | Fail \<Rightarrow> Some (Inl (), n + 1))"

partial_function (option) netlink_changed :: "netlink_env \<Rightarrow> nat \<Rightarrow> nat \<Rightarrow> ((unit + unit) \<times> nat) option" where
  "netlink_changed env k n =
     (if \<not> becomes_readable env k then Some (Inl (), n)
      else Option.bind (drain env False n) (\<lambda>(r, m).
        case r of
          Inl e \<Rightarrow> Some (Inl e, m)
        | Inr notified \<Rightarrow> if notified then Some (Inr (), m) else netlink_changed env (k + 1) m))"

text \<open>The owner changes of Session1 are a stream; its end is an error.\<close>

definition owner_changed :: "'e option \<Rightarrow> unit + unit" where
  "owner_changed item = (case item of Some _ \<Rightarrow> Inr () | None \<Rightarrow> Inl ())"

text \<open>Both sources of invalidation, the owner changes first; \<open>None\<close> is a source that is not ready.\<close>

definition invalidations_changed :: "(unit + unit) option \<Rightarrow> (unit + unit) option \<Rightarrow> (unit + unit) option" where
  "invalidations_changed first second = (case first of Some changed \<Rightarrow> Some changed | None \<Rightarrow> second)"

section \<open>sl-remoted\<close>

record start_env =
  netlink_socket :: socket_env
  bus_connects :: bool
  owner_events :: bool
  failure_kind :: string
  package_version :: string

record start =
  serving :: "server_config option"
  error_lines :: "string list"
  exit_failure :: bool

text \<open>\<open>serving\<close> is the configuration with which the controller runs; it runs until its notifications fail.\<close>

definition remoted_main :: "tls_env \<Rightarrow> io_env \<Rightarrow> start_env \<Rightarrow> world \<Rightarrow> start" where
  "remoted_main tls ioe env w =
     (let banner = ''sl-remoted '' @ package_version env;
          give_up = (\<lambda>line. \<lparr>serving = None, error_lines = [banner, line], exit_failure = True\<rparr>) in
      case fst (tls_load tls ioe w) of
        Inl _ \<Rightarrow> give_up ''sl-remoted: the TLS identity could not be loaded''
      | Inr config \<Rightarrow>
          if netlink_open (netlink_socket env) = Inl () then give_up ''sl-remoted: network change notifications are unavailable''
          else if \<not> bus_connects env then give_up ''sl-remoted: the system bus is unavailable''
          else if \<not> owner_events env then give_up ''sl-remoted: Session1 owner notifications are unavailable''
          else \<lparr>serving = Some config,
                error_lines = [banner, ''sl-remoted: invalidation notifications failed: '' @ failure_kind env], exit_failure = True\<rparr>)"

section \<open>Loading what the worker wrote\<close>

lemma tls_load_sound:
  assumes "sound (loadable env) d"
  shows "case current_link d of
      None \<Rightarrow> fst (tls_load env no_faults (booted d)) = Inl ()
    | Some g \<Rightarrow> \<exists>key cert k c. map_of d (gen_path g @ [KEY_FILE]) = Some (File key True) \<and>
        map_of d (gen_path g @ [CERT_FILE]) = Some (File cert True) \<and> pem_private_key env key = Some k \<and> pem_certificates env cert = Some [c] \<and>
        fst (tls_load env no_faults (booted d)) = Inr \<lparr>config_certificate = c, config_key = k, alpn_protocols = [''http/1.1'']\<rparr>"
proof (cases "map_of d cur_path")
  case None
  then have "wp (tls_load env no_faults) (\<lambda>_ _. False) (\<lambda>_ _. True) (booted d)"
    using assms missing_not_found
    by (auto simp: tls_load_def current_generation_def wp_simps wp_fun Let_def no_faults_def booted_def stat_def sound_def)
  then show ?thesis using None by (auto simp: current_link_def wp_def split: prod.splits sum.splits)
next
  case (Some n)
  then obtain g key cert where g: "n = Symlink g" "is_generation_name g" "loadable env key cert"
    "map_of d (gen_path g @ [KEY_FILE]) = Some (File key True)" "map_of d (gen_path g @ [CERT_FILE]) = Some (File cert True)"
    using assms by (auto simp: sound_def complete_def files_ok_def split: node.splits)
  obtain c k where ck: "pem_certificates env cert = Some [c]" "pem_private_key env key = Some k" "single_cert_accepted env c k"
    using g(3) by (auto simp: loadable_def split: option.splits list.splits)
  have "wp (tls_load env no_faults) (\<lambda>r _. r = \<lparr>config_certificate = c, config_key = k, alpn_protocols = [''http/1.1'']\<rparr>) (\<lambda>_ _. False) (booted d)"
    using g Some ck
    by (auto simp: tls_load_def current_generation_def wp_simps wp_fun Let_def no_faults_def booted_def stat_def)
  then have "fst (tls_load env no_faults (booted d)) = Inr \<lparr>config_certificate = c, config_key = k, alpn_protocols = [''http/1.1'']\<rparr>"
    by (auto simp: wp_def split: prod.splits sum.splits)
  then show ?thesis using g Some ck by (simp add: current_link_def)
qed

section \<open>Draining the socket\<close>

lemma drain_until:
  "n \<le> m \<Longrightarrow> (\<And>i. n \<le> i \<Longrightarrow> i < m \<Longrightarrow> \<exists>seen. drain_round (recv env i) = Go seen) \<Longrightarrow>
    drain env b n = drain env (b \<or> (\<exists>i. n \<le> i \<and> i < m \<and> drain_round (recv env i) = Go True)) m"
proof (induction "m - n" arbitrary: n b)
  case 0
  then have "m = n" by simp
  moreover have "(b \<or> (\<exists>i. n \<le> i \<and> i < n \<and> drain_round (recv env i) = Go True)) = b" by auto
  ultimately show ?case by (simp only:)
next
  case (Suc k)
  then obtain seen where seen: "drain_round (recv env n) = Go seen" "n < m" by (metis le_neq_implies_less le_refl zero_less_diff zero_less_Suc)
  have "drain env b n = drain env (b \<or> seen) (n + 1)" by (simp add: drain.simps [of env b n] seen(1))
  also have "\<dots> = drain env ((b \<or> seen) \<or> (\<exists>i. n + 1 \<le> i \<and> i < m \<and> drain_round (recv env i) = Go True)) m"
    by (rule Suc.hyps(1)) (use Suc seen in auto)
  also have "((b \<or> seen) \<or> (\<exists>i. n + 1 \<le> i \<and> i < m \<and> drain_round (recv env i) = Go True)) =
      (b \<or> (\<exists>i. n \<le> i \<and> i < m \<and> drain_round (recv env i) = Go True))"
    using seen by (auto simp: Suc_le_eq) (metis drained.inject le_neq_implies_less)
  finally show ?case .
qed

section \<open>Properties\<close>

text \<open>C12: sl-remoted starts with what the worker wrote.  After any run of the worker that began with a complete identity or
  none, whatever failed and whenever power was lost, sl-remoted finds no identity and does not serve, or it loads the key and
  the certificate of the one generation that the link names, and serves with them if the notifications are available.
  Without the notifications of the kernel and of the bus it never serves.\<close>

theorem remoted_starts_with_identity:
  assumes "openssl_ok env" "random_ok env" "link_reads_ok (io env)" "openssl_pairs (loadable tls) env"
    and "images (wd s) = []" "sound (loadable tls) (disk (wd s))"
    and "run_worker env m s = (r, s')" "survives (wd s') d"
  shows "(serving (remoted_main tls no_faults start (booted d)) \<noteq> None \<longleftrightarrow>
      current_link d \<noteq> None \<and> netlink_open (netlink_socket start) \<noteq> Inl () \<and> bus_connects start \<and> owner_events start) \<and>
    (\<forall>config g. serving (remoted_main tls no_faults start (booted d)) = Some config \<and> current_link d = Some g \<longrightarrow>
      (\<exists>key cert. map_of d (gen_path g @ [KEY_FILE]) = Some (File key True) \<and> map_of d (gen_path g @ [CERT_FILE]) = Some (File cert True) \<and>
         pem_private_key tls key = Some (config_key config) \<and> pem_certificates tls cert = Some [config_certificate config]))"
  using tls_load_sound [OF worker_leaves_sound [OF assms]]
  by (cases "current_link d") (auto simp: remoted_main_def Let_def split: if_splits)

text \<open>C40: A change of the network is not lost.  If one of the calls until the socket is empty brings a message, or reports that
  messages were lost, then waiting for a change ends, successfully, and exactly when the socket has been emptied;
  interrupted calls do not end it.  The controller is then notified, whatever the owner changes of Session1 do: by them if
  they are ready, and otherwise by the network.\<close>

theorem netlink_change_reported:
  assumes "becomes_readable env k" "drain_round (recv env m) = Break"
    and "\<And>i. n \<le> i \<Longrightarrow> i < m \<Longrightarrow> 0 < size_of (recv env i) \<or> last_errno (recv env i) \<in> {ENOBUFS, EINTR}"
    and "n \<le> j" "j < m" "0 < size_of (recv env j) \<or> last_errno (recv env j) = ENOBUFS"
  shows "netlink_changed env k n = Some (Inr (), m + 1) \<and>
    invalidations_changed owner (map_option fst (netlink_changed env k n)) =
      Some (case owner of None \<Rightarrow> Inr () | Some changed \<Rightarrow> changed)"
proof -
  have go: "\<exists>seen. drain_round (recv env i) = Go seen" if "n \<le> i" "i < m" for i
    using assms(3) [OF that] by (auto simp: drain_round_def)
  have "drain_round (recv env j) = Go True" using assms(6) by (auto simp: drain_round_def)
  then have "(False \<or> (\<exists>i. n \<le> i \<and> i < m \<and> drain_round (recv env i) = Go True)) = True" using assms(4,5) by blast
  then have "drain env False n = drain env True m"
    using drain_until [of n m env False, OF _ go] assms(4,5) by (simp only: less_imp_le order_trans)
  also have "\<dots> = Some (Inr True, m + 1)" by (simp add: drain.simps [of env True m] assms(2))
  finally show ?thesis by (simp add: netlink_changed.simps [of env k n] assms(1) invalidations_changed_def split: option.split)
qed

definition demo_tls :: tls_env where
  "demo_tls = \<lparr>pem_certificates = (\<lambda>c. if c = ''cert'' then Some [''C''] else None),
     pem_private_key = (\<lambda>k. if k = ''key'' then Some ''K'' else None), single_cert_accepted = (\<lambda>_ _. True)\<rparr>"

definition demo_start :: start_env where
  "demo_start = \<lparr>netlink_socket = \<lparr>socket_call = 3, bind_call = (\<lambda>_ _. 0), registers = (\<lambda>_. True)\<rparr>, bus_connects = True, owner_events = True, failure_kind = ''other error'', package_version = ''0.0.3''\<rparr>"

lemma demo_loadable: "loadable demo_tls = demo_pem"
  by (auto simp: fun_eq_iff loadable_def demo_tls_def demo_pem_def)

theorem remoted_starts_with_identity_witness:
  "\<exists>d. survives (wd (snd (run_worker (demo_worker (\<lambda>_. False)) Enable fresh_device))) d \<and>
     (serving (remoted_main demo_tls no_faults demo_start (booted d)) \<noteq> None) = (current_link d \<noteq> None)"
proof -
  obtain r s' where run: "run_worker (demo_worker (\<lambda>_. False)) Enable fresh_device = (r, s')" by fastforce
  have "openssl_pairs (loadable demo_tls) (demo_worker (\<lambda>_. False))" unfolding demo_loadable by (rule demo_pairs)
  moreover have "sound (loadable demo_tls) (disk (wd fresh_device))" unfolding demo_loadable by (rule fresh_device_sound(1))
  ultimately have "serving (remoted_main demo_tls no_faults demo_start (booted (disk (wd s')))) \<noteq> None \<longleftrightarrow> current_link (disk (wd s')) \<noteq> None"
    using remoted_starts_with_identity [OF demo_openssl_ok demo_worker_ok _ fresh_device_sound(2) _ run survives_now, of demo_tls demo_start]
    by (simp add: demo_start_def netlink_open_def)
  then show ?thesis using survives_now [of "wd s'"] run by (metis snd_conv)
qed

definition demo_netlink :: netlink_env where
  "demo_netlink = \<lparr>becomes_readable = (\<lambda>_. True),
     recv = (\<lambda>i. if i = 0 then \<lparr>size_of = -1, last_errno = EINTR\<rparr> else if i = 1 then \<lparr>size_of = 60, last_errno = EINTR\<rparr>
       else \<lparr>size_of = -1, last_errno = EAGAIN\<rparr>)\<rparr>"

theorem netlink_change_reported_witness:
  "netlink_changed demo_netlink 0 0 = Some (Inr (), 3) \<and>
   invalidations_changed (Some (owner_changed (None :: unit option))) (map_option fst (netlink_changed demo_netlink 0 0)) = Some (Inl ())"
proof -
  have "becomes_readable demo_netlink 0" "drain_round (recv demo_netlink 2) = Break"
    "0 < size_of (recv demo_netlink 1) \<or> last_errno (recv demo_netlink 1) = ENOBUFS"
    by (simp_all add: demo_netlink_def drain_round_def)
  moreover have "0 < size_of (recv demo_netlink i) \<or> last_errno (recv demo_netlink i) \<in> {ENOBUFS, EINTR}" if "0 \<le> i" "i < 2" for i
    using that by (auto simp: demo_netlink_def less_2_cases_iff)
  ultimately show ?thesis using netlink_change_reported [of demo_netlink 0 2 0 1 "Some (owner_changed (None :: unit option))"]
    by (simp add: owner_changed_def invalidations_changed_def)
qed

end
