(* ===== verification/Spec2Isabelle.thy ===== *)
theory Spec2Isabelle
  imports Kernel_Random Controller Http Network_Chain Device Console Corectl Mutations Shared_Read Web_Auth Startup
begin

text \<open>
  \<^bold>\<open>SignalLayer CoreOS: the local management plane.\<close>

  The program is a set of small daemons around D-Bus.  \<^verbatim>\<open>sl-authd\<close> (\<^verbatim>\<open>src/authd\<close>) owns the enrollment: a pairing code
  shown on the console lets a browser set a password and receive a recovery key.  \<^verbatim>\<open>sl-remoted\<close> (\<^verbatim>\<open>src/remoted\<close>) is the
  HTTPS front end on the link-local network; it asks Auth1 for every credential and Session1 for the status.
  \<^verbatim>\<open>sl-remote-worker\<close> (\<^verbatim>\<open>src/remote-worker\<close>) is the only writer of the remote-management state directory: markers and the
  TLS identity.  \<^verbatim>\<open>sl-platformd\<close> (\<^verbatim>\<open>src/platformd\<close>) reports the status of the machine and drives updates, rollbacks,
  reboots and the remote-management life cycle through systemd.  \<^verbatim>\<open>sl-network-observer\<close> reads NetworkManager.
  \<^verbatim>\<open>sl-sessiond\<close> adds the state of remote management to the status, \<^verbatim>\<open>sl-console\<close> is the local operator's screen and
  \<^verbatim>\<open>corectl\<close> the command line tool; both reach platformd over the bus.

  \<^bold>\<open>Conventions\<close> (\<^verbatim>\<open>SL_Prelude\<close>).  A fallible stateful function is an operation \<open>'s \<Rightarrow> ('e + 'a) \<times> 's\<close>; \<open>and_then\<close> is the
  question mark of the source, \<open>wp\<close> its weakest precondition (total correctness: every operation is a total function).
  Machine integers are words of their width, strings are their UTF-8 bytes.  What is not code of the repository is a
  parameter of the definitions: the calls of the kernel and of the file system may fail at any time (\<^verbatim>\<open>Fs\<close>: fault
  schedules, directory trees that a crash may expose), clocks and random bytes are functions of the number of the
  reading, Argon2, JSON codecs, openssl, systemd and NetworkManager are functions with named hypotheses.

  \<^bold>\<open>Theories and what they model.\<close>
  \<^item> \<^verbatim>\<open>Codes\<close>: \<^verbatim>\<open>authd/src/codes.rs\<close>, the base-32 codes; the accepted keys are exactly the encodings.
  \<^item> \<^verbatim>\<open>Kernel_Random\<close>, \<^verbatim>\<open>Hash\<close>: \<^verbatim>\<open>random.rs\<close>, \<^verbatim>\<open>hash.rs\<close>; filling a buffer terminates and fails closed,
    and the loops of sl-remoted and sl-remote-worker fill it alike.
  \<^item> \<^verbatim>\<open>Store\<close>: \<^verbatim>\<open>store.rs\<close>; writes are atomic under failures and power loss, loading accepts exactly what was written.
  \<^item> \<^verbatim>\<open>Machine\<close>, \<^verbatim>\<open>Lifecycle\<close>: \<^verbatim>\<open>machine.rs\<close>, every operation of the authentication core; invariant of the reachable
    states, refinement of the abstract life cycle, durability of acknowledged states, bounds on guesses and delays, and
    that the whole enrollment succeeds in a working environment.
  \<^item> \<^verbatim>\<open>Service\<close>: \<^verbatim>\<open>service.rs\<close>, \<^verbatim>\<open>checked_interface.rs\<close>; calls are admitted and serialized under every interleaving.
  \<^item> \<^verbatim>\<open>Sessions\<close>, \<^verbatim>\<open>Ip_Addr\<close>, \<^verbatim>\<open>Network\<close>, \<^verbatim>\<open>Controller\<close>, \<^verbatim>\<open>Peers\<close>, \<^verbatim>\<open>Http\<close>: the modules of \<^verbatim>\<open>remoted/src\<close> (\<^verbatim>\<open>Ip_Addr\<close> is the
    standard library's text form of addresses); who is let in, what a request may change, who gets a session.
  \<^item> \<^verbatim>\<open>Web_Auth\<close>: the web interface composed with sl-authd: \<^verbatim>\<open>peers.rs\<close> calls the methods of \<^verbatim>\<open>service.rs\<close> through
    \<^verbatim>\<open>CheckedAuth\<close> over a bus that may lose calls and replies, while others call Auth1 in between; guessing the code through
    HTTP is bounded, a new session means a verified password, and an operator can enroll in the browser.
  \<^item> \<^verbatim>\<open>Remote_State\<close>, \<^verbatim>\<open>Worker\<close>, \<^verbatim>\<open>Worker_Crash\<close>, \<^verbatim>\<open>Worker_Identity\<close>: \<^verbatim>\<open>crates/remote-state\<close> and \<^verbatim>\<open>remote-worker\<close>; the
    identity is never torn, its key and certificate belong together and are durable, and a boot reset is all or announced.
  \<^item> \<^verbatim>\<open>Startup\<close>: \<^verbatim>\<open>remoted/src/tls.rs\<close>, \<^verbatim>\<open>netlink.rs\<close> and \<^verbatim>\<open>main.rs\<close>, and the state directory of \<^verbatim>\<open>authd/src/main.rs\<close>;
    sl-remoted serves with exactly the identity the worker wrote, and a change of the network is never lost.
  \<^item> \<^verbatim>\<open>Protocol\<close>, \<^verbatim>\<open>Observer\<close>, \<^verbatim>\<open>Platform_Status\<close>, \<^verbatim>\<open>Network_Chain\<close>: \<^verbatim>\<open>crates/protocol\<close>, \<^verbatim>\<open>network-observer\<close> and the
    observations of \<^verbatim>\<open>platformd/src/main.rs\<close>; what one daemon writes the next one understands.
  \<^item> \<^verbatim>\<open>Bus\<close>, \<^verbatim>\<open>Platform_Remote\<close>: \<^verbatim>\<open>platformd/src/remote.rs\<close> over timed bus calls; the locale \<open>remote_backend\<close> states what its
    sequences rely on.
  \<^item> \<^verbatim>\<open>Worker_Effects\<close>, \<^verbatim>\<open>Device\<close>: one machine made of platformd, the units of \<^verbatim>\<open>image/platform\<close>, the worker on its disk and the
    authentication service, over a bus that may lose or delay any message; it is an interpretation of \<open>remote_backend\<close>, which
    gives what Enable, Disable and Reenroll leave behind.
  \<^item> \<^verbatim>\<open>Platform_Service\<close>, \<^verbatim>\<open>Shared_Read\<close>, \<^verbatim>\<open>Mutations\<close>: the methods of \<^verbatim>\<open>platformd/src/main.rs\<close>, the shared status read, and the
    exclusion of update, rollback and reboot on a host whose jobs may begin late.
  \<^item> \<^verbatim>\<open>Platform_Client\<close>, \<^verbatim>\<open>Corectl\<close>, \<^verbatim>\<open>Console\<close>: the callers (\<^verbatim>\<open>crates/platform-client\<close>, \<^verbatim>\<open>sessiond\<close>, \<^verbatim>\<open>corectl\<close>, \<^verbatim>\<open>console\<close>); their
    deadlines cover platformd, the session status never guesses, exit codes mean what they say, and the console acts only
    for an authenticated operator.

  \<^bold>\<open>Loops and bounds.\<close>  The loops that fill a buffer with randomness and those that wait for the kernel's notifications
  are partial functions into \<open>option\<close>; \<open>fill_with_fails_closed\<close> and \<open>netlink_change_reported\<close> show when they return.  All
  other functions are total.  Polling loops terminate because every
  round sleeps and the deadline is fixed.  The loop of the console ends with its input.

  \<^bold>\<open>Not modelled.\<close>  The async runtime (interleavings are explicit steps), the wire format of zbus and its generated
  introspection, the TLS handshake, the registration of the daemons on the bus, terminal attributes, and the sandboxing
  of the units.
\<close>

end
